(* ===== verification/Prelude.thy ===== *)
theory Prelude
  imports Main "HOL-Library.Word" "HOL-Library.Monad_Syntax"
    "HOL-Library.List_Lexorder" "HOL-Library.Char_ord" "HOL-Library.Signed_Division"
begin

text \<open>
  Shared vocabulary of the development: the machine types of the Rust code, the
  big-endian conversions of the standard library (\<open>from_be_bytes\<close>,
  \<open>to_be_bytes\<close>), integer formatting, \<open>Option\<close> helpers and string splitting,
  with the lemmas the component theories use.  Rust strings are byte strings here
  (\<open>string\<close>, one \<open>char\<close> per UTF-8 byte), compared bytewise as Rust does.
\<close>

unbundle bit_operations_syntax

section \<open>Machine types\<close>

type_synonym u8 = "8 word"
type_synonym u16 = "16 word"
type_synonym u32 = "32 word"
type_synonym u64 = "64 word"
type_synonym u128 = "128 word"

text \<open>
  Signed 64-bit integers are 64-bit words read with \<open>sint\<close>; the arithmetic wraps,
  as in the release profile the crate is shipped with.
\<close>

type_synonym i64 = "64 word"

type_synonym bytes = "u8 list"

named_theorems reader_simps \<open>equations for cursor reads\<close>
named_theorems cache_inv \<open>preservation of the cache invariant\<close>

section \<open>Reading words as signed integers\<close>

lemma odd_div_exp:
  assumes "0 \<le> k" and "k < 2 ^ Suc n"
  shows "odd (k div 2 ^ n) \<longleftrightarrow> 2 ^ n \<le> (k :: int)"
proof (cases "2 ^ n \<le> k")
  case True
  have "k div 2 ^ n = 1"
    using True assms by (intro int_div_pos_eq [of _ _ _ "k - 2 ^ n"]) auto
  with True show ?thesis by simp
next
  case False
  with assms show ?thesis by (simp add: div_pos_pos_trivial)
qed

lemma sint_uint_cases:
  "sint (w :: 'a::len word) =
     (if uint w < 2 ^ (LENGTH('a) - 1) then uint w else uint w - 2 ^ LENGTH('a))"
proof -
  obtain n where n: "LENGTH('a) = Suc n" by (cases "LENGTH('a)") auto
  have u: "0 \<le> uint w" "uint w < 2 ^ Suc n" using uint_bounded [of w] n by simp_all
  then have "take_bit (Suc n) (uint w) = uint w" by (simp add: take_bit_int_eq_self)
  with u show ?thesis
    using odd_div_exp [OF u]
    by (auto simp: sint_uint n signed_take_bit_eq_take_bit_minus bit_iff_odd)
qed

text \<open>\<open>i64\<close> arithmetic is exact as long as the exact result fits.\<close>

definition i64_fits :: "int \<Rightarrow> bool" where
  "i64_fits k \<longleftrightarrow> - (2 ^ 63) \<le> k \<and> k < 2 ^ 63"

lemma signed_take_bit_fits: "i64_fits k \<Longrightarrow> signed_take_bit 63 k = k"
  by (simp add: i64_fits_def signed_take_bit_int_eq_self_iff)

lemma i64_add: "i64_fits (sint a + sint b) \<Longrightarrow> sint (a + b :: i64) = sint a + sint b"
  by (simp add: sint_word_ariths signed_take_bit_fits)

lemma i64_sub: "i64_fits (sint a - sint b) \<Longrightarrow> sint (a - b :: i64) = sint a - sint b"
  by (simp add: sint_word_ariths signed_take_bit_fits)

lemma i64_mult: "i64_fits (sint a * sint b) \<Longrightarrow> sint (a * b :: i64) = sint a * sint b"
  by (simp add: sint_word_ariths signed_take_bit_fits)

lemma i64_of_u32: "sint (ucast (w :: u32) :: i64) = int (unat w)"
proof -
  have "uint w < 2 ^ 32" using uint_bounded [of w] by simp
  then have "uint w < 2 ^ 63" and "uint w < 2 ^ 64" by simp_all
  then show ?thesis
    by (simp add: sint_uint_cases unsigned_ucast_eq take_bit_int_eq_self)
qed

lemma unat_ucast_u32: "unat (ucast (w :: u32) :: u64) = unat w"
proof -
  have "unat w < 2 ^ 32" using unsigned_less [where w = w and 'a = nat] by simp
  then show ?thesis by (simp add: unsigned_ucast_eq take_bit_nat_eq_self)
qed

lemma ucast_u64_u32: "ucast (ucast (w :: u32) :: u64) = w"
  by (rule bit_word_eqI) (auto simp: bit_simps)

text \<open>\<open>i64\<close> division truncates towards zero.\<close>

definition i64_div :: "i64 \<Rightarrow> i64 \<Rightarrow> i64" where
  "i64_div a b = word_of_int (sint a sdiv sint b)"

lemma sint_word_of_int_fits: "i64_fits k \<Longrightarrow> sint (word_of_int k :: i64) = k"
  by (simp add: sint_sbintrunc' signed_take_bit_fits)

lemma i64_div_nonneg:
  assumes "0 \<le> sint a" and "0 < sint b"
  shows "sint (i64_div a b) = sint a div sint b"
proof -
  have "sint a sdiv sint b = sint a div sint b"
    using assms by (cases "sint a = 0") (simp_all add: signed_divide_int_def sgn_if)
  moreover have "i64_fits (sint a div sint b)"
  proof -
    have "sint a div sint b \<le> sint a" using assms by (simp add: zdiv_mono2 [of _ 1, simplified])
    moreover have "sint a < 2 ^ 63" using sint_lt [of a] by simp
    moreover have "0 \<le> sint a div sint b" using assms by (simp add: pos_imp_zdiv_nonneg_iff)
    ultimately show ?thesis by (simp add: i64_fits_def)
  qed
  ultimately show ?thesis by (simp add: i64_div_def sint_word_of_int_fits)
qed

section \<open>Big-endian bytes\<close>

definition be_nat :: "bytes \<Rightarrow> nat" where
  "be_nat bs = foldl (\<lambda>v b. v * 256 + unat b) 0 bs"

fun be_bytes :: "nat \<Rightarrow> nat \<Rightarrow> bytes" where
  "be_bytes 0 v = []"
| "be_bytes (Suc n) v = be_bytes n (v div 256) @ [of_nat (v mod 256)]"

definition from_be :: "bytes \<Rightarrow> 'a::len word" where
  "from_be bs = of_nat (be_nat bs)"

lemma be_nat_Nil [simp]: "be_nat [] = 0"
  by (simp add: be_nat_def)

lemma be_nat_snoc [simp]: "be_nat (bs @ [b]) = be_nat bs * 256 + unat b"
  by (simp add: be_nat_def)

lemma be_nat_append: "be_nat (xs @ ys) = be_nat xs * 256 ^ length ys + be_nat ys"
proof (induction ys rule: rev_induct)
  case Nil
  then show ?case by simp
next
  case (snoc y ys)
  have "be_nat (xs @ ys @ [y]) = be_nat (xs @ ys) * 256 + unat y"
    using be_nat_snoc [of "xs @ ys" y] by simp
  with snoc show ?case by (simp add: algebra_simps)
qed

lemma be_nat_single [simp]: "be_nat [b] = unat b"
  using be_nat_snoc [of "[]" b] by simp

lemma be_nat_Cons: "be_nat (b # bs) = unat b * 256 ^ length bs + be_nat bs"
  using be_nat_append [of "[b]" bs] by simp

lemma unat_byte_bound: "unat (b :: u8) < 256"
  using unsigned_less [where 'a = nat and w = b] by simp

lemma be_nat_bound: "be_nat bs < 256 ^ length bs"
proof (induction bs rule: rev_induct)
  case Nil
  then show ?case by simp
next
  case (snoc b bs)
  then show ?case using unat_byte_bound [of b] by simp
qed

lemma length_be_bytes [simp]: "length (be_bytes n v) = n"
  by (induction n v rule: be_bytes.induct) auto

lemma be_nat_be_bytes: "be_nat (be_bytes n v) = v mod 256 ^ n"
proof (induction n v rule: be_bytes.induct)
  case (1 v)
  then show ?case by simp
next
  case (2 n v)
  have "unat (of_nat (v mod 256) :: u8) = v mod 256"
    by (simp add: unat_of_nat)
  with 2 show ?case
    by (simp add: mod_mult2_eq mult.commute)
qed

lemma be_bytes_be_nat: "be_bytes (length bs) (be_nat bs) = bs"
proof (induction bs rule: rev_induct)
  case Nil
  then show ?case by simp
next
  case (snoc b bs)
  have "(of_nat (unat b) :: u8) = b" by simp
  moreover have "(be_nat bs * 256 + unat b) div 256 = be_nat bs"
    and "(be_nat bs * 256 + unat b) mod 256 = unat b"
    using unat_byte_bound [of b] by auto
  ultimately show ?case using snoc by simp
qed

lemma be_nat_inject: "length xs = length ys \<Longrightarrow> be_nat xs = be_nat ys \<Longrightarrow> xs = ys"
  by (metis be_bytes_be_nat)

lemma be_nat_eq_iff: "length xs = length ys \<Longrightarrow> be_nat xs = be_nat ys \<longleftrightarrow> xs = ys"
  by (auto dest: be_nat_inject)

lemma unat_from_be:
  "length bs * 8 \<le> LENGTH('a::len) \<Longrightarrow> unat (from_be bs :: 'a word) = be_nat bs"
proof -
  assume "length bs * 8 \<le> LENGTH('a)"
  then have "(2::nat) ^ (8 * length bs) \<le> 2 ^ LENGTH('a)"
    by (simp add: mult.commute)
  then have "(256::nat) ^ length bs \<le> 2 ^ LENGTH('a)"
    by (simp add: power_mult)
  with be_nat_bound [of bs] have "be_nat bs < 2 ^ LENGTH('a)" by linarith
  then show ?thesis by (simp add: from_be_def unat_of_nat)
qed

definition to_be_bytes :: "nat \<Rightarrow> 'a::len word \<Rightarrow> bytes" where
  "to_be_bytes n w = be_bytes n (unat w)"

lemma length_to_be_bytes [simp]: "length (to_be_bytes n w) = n"
  by (simp add: to_be_bytes_def)

lemma from_be_to_be:
  assumes "n * 8 = LENGTH('a::len)"
  shows "from_be (to_be_bytes n (w :: 'a word)) = w"
proof -
  have "unat w < 256 ^ n"
  proof -
    have "(256::nat) ^ n = 2 ^ LENGTH('a)"
      using power_mult [of "2::nat" 8 n] assms by (simp add: mult.commute)
    then show ?thesis using unsigned_less [where 'a = nat and w = w] by simp
  qed
  then show ?thesis by (simp add: from_be_def to_be_bytes_def be_nat_be_bytes)
qed

section \<open>Formatting\<close>

text \<open>Decimal formatting, Rust's \<open>format!("{}")\<close> on an unsigned integer.\<close>

fun dec_of_nat :: "nat \<Rightarrow> string" where
  "dec_of_nat n =
     (if n < 10 then [char_of (48 + n)] else dec_of_nat (n div 10) @ [char_of (48 + n mod 10)])"

declare dec_of_nat.simps [simp del]

definition dec_of_word :: "'a::len word \<Rightarrow> string" where
  "dec_of_word w = dec_of_nat (unat w)"

definition dec_value :: "string \<Rightarrow> nat" where
  "dec_value s = foldl (\<lambda>v ch. v * 10 + (of_char ch - 48)) 0 s"

lemma dec_value_dec_of_nat: "dec_value (dec_of_nat n) = n"
proof (induction n rule: dec_of_nat.induct)
  case (1 n)
  show ?case
  proof (cases "n < 10")
    case True
    then show ?thesis
      by (subst dec_of_nat.simps) (simp add: dec_value_def take_bit_eq_mod)
  next
    case False
    then have IH: "dec_value (dec_of_nat (n div 10)) = n div 10" using 1 by simp
    have "(48 + n mod 10) mod 256 = 48 + n mod 10" by simp
    with False IH show ?thesis
      by (subst dec_of_nat.simps) (simp add: dec_value_def take_bit_eq_mod)
  qed
qed

lemma dec_of_nat_inject [simp]: "dec_of_nat m = dec_of_nat n \<longleftrightarrow> m = n"
  by (metis dec_value_dec_of_nat)

lemma dec_of_word_inject [simp]: "dec_of_word v = dec_of_word w \<longleftrightarrow> v = w"
  by (simp add: dec_of_word_def word_unat_eq_iff)

lemma dec_of_nat_digits: "ch \<in> set (dec_of_nat n) \<Longrightarrow> 48 \<le> (of_char ch :: nat) \<and> (of_char ch :: nat) < 58"
proof (induction n rule: dec_of_nat.induct)
  case (1 n)
  have small: "(48 + m) mod 256 = 48 + m" if "m < 10" for m :: nat
    using that by simp
  show ?case
  proof (cases "n < 10")
    case True
    with 1 show ?thesis
      by (subst (asm) (2) dec_of_nat.simps) (simp add: take_bit_eq_mod small)
  next
    case False
    with "1.prems" have "ch \<in> set (dec_of_nat (n div 10)) \<or> ch = char_of (48 + n mod 10)"
      by (subst (asm) dec_of_nat.simps) auto
    with False "1.IH" show ?thesis
      by (auto simp: take_bit_eq_mod)
  qed
qed

section \<open>Option and string helpers\<close>

text \<open>\<open>Option::or\<close> and \<open>Option::unwrap_or\<close>.\<close>

fun opt_or :: "'a option \<Rightarrow> 'a option \<Rightarrow> 'a option" where
  "opt_or (Some x) y = Some x"
| "opt_or None y = y"

lemma opt_or_None: "opt_or a None = a"
  by (cases a) simp_all

fun unwrap_or :: "'a option \<Rightarrow> 'a \<Rightarrow> 'a" where
  "unwrap_or (Some x) d = x"
| "unwrap_or None d = d"

text \<open>\<open>str::split\<close> on one character: always at least one piece.\<close>

fun str_split :: "char \<Rightarrow> string \<Rightarrow> string list" where
  "str_split sep [] = [[]]"
| "str_split sep (ch # s) =
     (if ch = sep then [] # str_split sep s
      else (case str_split sep s of [] \<Rightarrow> [[ch]] | p # ps \<Rightarrow> (ch # p) # ps))"

lemma str_split_nonempty [simp]: "str_split sep s \<noteq> []"
  by (induction s) (auto split: list.splits)

lemma str_split_no_sep: "sep \<notin> set s \<Longrightarrow> str_split sep s = [s]"
  by (induction s) auto

lemma str_split_append_sep:
  "str_split sep (s @ sep # t) = str_split sep s @ str_split sep t"
proof (induction s)
  case Nil
  then show ?case by simp
next
  case (Cons ch s)
  then show ?case
    by (cases "str_split sep s") auto
qed

section \<open>Lists\<close>

lemma take_drop_split: "n \<le> length xs \<Longrightarrow> xs = take n xs @ drop n xs"
  by simp

lemma sum_list_filter_le: "sum_list (map f (filter P xs)) \<le> sum_list (map (f :: 'a \<Rightarrow> nat) xs)"
  by (induction xs) auto

lemma sorted_wrt_measure_distinct:
  "sorted_wrt (\<lambda>a b. (f a :: nat) < f b) xs \<Longrightarrow> distinct xs"
  by (induction xs) auto

text \<open>\<open>iter().find\<close> on a table with unique keys returns the row with that key.\<close>

lemma find_key_iff:
  assumes "distinct (map f xs)"
  shows "find (\<lambda>d. f d = k) xs = Some d \<longleftrightarrow> d \<in> set xs \<and> f d = k"
  using assms by (induction xs) (auto simp: rev_image_eqI)

lemma find_key_None: "find (\<lambda>d. f d = k) xs = None \<longleftrightarrow> k \<notin> f ` set xs"
  by (auto simp: find_None_iff)

end
