(* ===== verification/Buf.thy ===== *)
theory Buf
  imports Prelude
begin

text \<open>
  \<open>buf.rs\<close>: the bounds-checked read cursor.  A read that succeeds returns the value
  and the advanced cursor; a read that underruns returns \<open>None\<close> and, as in the code,
  leaves the caller's cursor where it was.  The widths share one interface, the locale
  \<open>fixed_read\<close>; \<open>fixed_codec\<close> adds the writer of the same width.
\<close>

section \<open>The cursor\<close>

record cursor =
  cur_data :: bytes
  cur_pos :: nat

definition cursor_new :: "bytes \<Rightarrow> cursor" where
  "cursor_new data = \<lparr>cur_data = data, cur_pos = 0\<rparr>"

text \<open>\<open>saturating_sub\<close> on \<open>usize\<close> is subtraction on naturals.\<close>

definition cur_remaining :: "cursor \<Rightarrow> nat" where
  "cur_remaining c = length (cur_data c) - cur_pos c"

definition cur_position :: "cursor \<Rightarrow> nat" where
  "cur_position c = cur_pos c"

definition cur_is_empty :: "cursor \<Rightarrow> bool" where
  "cur_is_empty c \<longleftrightarrow> cur_remaining c = 0"

definition slice :: "'a list \<Rightarrow> nat \<Rightarrow> nat \<Rightarrow> 'a list" where
  "slice xs i j = take (j - i) (drop i xs)"

definition cur_take :: "nat \<Rightarrow> cursor \<Rightarrow> (bytes \<times> cursor) option" where
  "cur_take n c =
     (if n > cur_remaining c then None
      else Some (slice (cur_data c) (cur_pos c) (cur_pos c + n), c\<lparr>cur_pos := cur_pos c + n\<rparr>))"

definition cur_peek :: "nat \<Rightarrow> cursor \<Rightarrow> bytes option" where
  "cur_peek n c =
     (if n > cur_remaining c then None
      else Some (slice (cur_data c) (cur_pos c) (cur_pos c + n)))"

definition cur_u8 :: "cursor \<Rightarrow> (u8 \<times> cursor) option" where
  "cur_u8 c = map_option (\<lambda>(b, c'). (b ! 0, c')) (cur_take 1 c)"

definition cur_u16 :: "cursor \<Rightarrow> (u16 \<times> cursor) option" where
  "cur_u16 c = map_option (\<lambda>(b, c'). (from_be [b ! 0, b ! 1], c')) (cur_take 2 c)"

definition cur_u32 :: "cursor \<Rightarrow> (u32 \<times> cursor) option" where
  "cur_u32 c =
     map_option (\<lambda>(b, c'). (from_be [b ! 0, b ! 1, b ! 2, b ! 3], c')) (cur_take 4 c)"

definition cur_u64 :: "cursor \<Rightarrow> (u64 \<times> cursor) option" where
  "cur_u64 c =
     map_option (\<lambda>(b, c').
       (from_be [b ! 0, b ! 1, b ! 2, b ! 3, b ! 4, b ! 5, b ! 6, b ! 7], c')) (cur_take 8 c)"

definition cur_skip :: "nat \<Rightarrow> cursor \<Rightarrow> bool \<times> cursor" where
  "cur_skip n c = (case cur_take n c of None \<Rightarrow> (False, c) | Some (_, c') \<Rightarrow> (True, c'))"

text \<open>
  Two idioms of the callers: \<open>c.read().unwrap_or(d)\<close>, and a read whose value is
  dropped.  Both keep the cursor of a failed read.
\<close>

definition read_or :: "(cursor \<Rightarrow> ('a \<times> cursor) option) \<Rightarrow> 'a \<Rightarrow> cursor \<Rightarrow> 'a \<times> cursor" where
  "read_or rd d c = (case rd c of None \<Rightarrow> (d, c) | Some r \<Rightarrow> r)"

definition try_read ::
  "(cursor \<Rightarrow> ('a \<times> cursor) option) \<Rightarrow> cursor \<Rightarrow> 'a option \<times> cursor" where
  "try_read rd c = (case rd c of None \<Rightarrow> (None, c) | Some (v, c') \<Rightarrow> (Some v, c'))"

section \<open>The abstract cursor: the bytes still to read\<close>

definition cur_ok :: "cursor \<Rightarrow> bool" where
  "cur_ok c \<longleftrightarrow> cur_pos c \<le> length (cur_data c)"

definition cur_rest :: "cursor \<Rightarrow> bytes" where
  "cur_rest c = drop (cur_pos c) (cur_data c)"

definition cur_advance :: "nat \<Rightarrow> cursor \<Rightarrow> cursor" where
  "cur_advance n c = c\<lparr>cur_pos := cur_pos c + n\<rparr>"

lemma cur_ok_new [simp]: "cur_ok (cursor_new data)"
  by (simp add: cur_ok_def cursor_new_def)

lemma cur_rest_new [simp]: "cur_rest (cursor_new data) = data"
  by (simp add: cur_rest_def cursor_new_def)

lemma cur_remaining_new [simp]: "cur_remaining (cursor_new data) = length data"
  by (simp add: cur_remaining_def cursor_new_def)

lemma length_cur_rest [simp]: "length (cur_rest c) = cur_remaining c"
  by (simp add: cur_rest_def cur_remaining_def)

lemma cur_rest_remaining: "cur_rest c = bs \<Longrightarrow> cur_remaining c = length bs"
  using length_cur_rest [of c] by simp

lemma cur_advance_0 [simp]: "cur_advance 0 c = c"
  by (simp add: cur_advance_def)

lemma cur_advance_add [simp]: "cur_advance m (cur_advance n c) = cur_advance (n + m) c"
  by (simp add: cur_advance_def add.assoc)

lemma cur_remaining_advance [simp]: "cur_remaining (cur_advance n c) = cur_remaining c - n"
  by (simp add: cur_advance_def cur_remaining_def)

lemma cur_rest_advance [simp]: "cur_rest (cur_advance n c) = drop n (cur_rest c)"
  by (simp add: cur_advance_def cur_rest_def add.commute)

lemma cur_data_advance [simp]: "cur_data (cur_advance n c) = cur_data c"
  by (simp add: cur_advance_def)

lemma cur_pos_advance [simp]: "cur_pos (cur_advance n c) = cur_pos c + n"
  by (simp add: cur_advance_def)

lemma cur_ok_advance: "cur_ok c \<Longrightarrow> n \<le> cur_remaining c \<Longrightarrow> cur_ok (cur_advance n c)"
  by (simp add: cur_ok_def cur_remaining_def)

lemma cur_take_eq [reader_simps]:
  "cur_take n c =
     (if n \<le> cur_remaining c then Some (take n (cur_rest c), cur_advance n c) else None)"
  by (simp add: cur_take_def slice_def cur_rest_def cur_advance_def)

lemma cur_peek_eq [reader_simps]:
  "cur_peek n c = (if n \<le> cur_remaining c then Some (take n (cur_rest c)) else None)"
  by (simp add: cur_peek_def slice_def cur_rest_def)

lemma cur_skip_eq [reader_simps]:
  "cur_skip n c = (if n \<le> cur_remaining c then (True, cur_advance n c) else (False, c))"
  by (simp add: cur_skip_def cur_take_eq)

lemma cur_position_advance [simp]: "cur_position (cur_advance n c) = cur_position c + n"
  by (simp add: cur_position_def)

section \<open>Fixed-width reads\<close>

locale fixed_read =
  fixes rd :: "cursor \<Rightarrow> ('a \<times> cursor) option"
    and w :: nat
    and dec :: "bytes \<Rightarrow> 'a"
  assumes read_take: "rd c = map_option (\<lambda>(s, c'). (dec s, c')) (cur_take w c)"
begin

lemma read_eq:
  "rd c = (if w \<le> cur_remaining c then Some (dec (take w (cur_rest c)), cur_advance w c) else None)"
  by (simp add: read_take cur_take_eq)

lemma read_None_iff: "rd c = None \<longleftrightarrow> cur_remaining c < w"
  by (simp add: read_eq not_le)

lemma read_SomeD:
  "rd c = Some (v, c') \<Longrightarrow>
     w \<le> cur_remaining c \<and> v = dec (take w (cur_rest c)) \<and> c' = cur_advance w c"
  by (auto simp: read_eq split: if_splits)

lemma read_ok: "cur_ok c \<Longrightarrow> rd c = Some (v, c') \<Longrightarrow> cur_ok c'"
  by (auto dest!: read_SomeD intro: cur_ok_advance)

lemma read_or_eq:
  "read_or rd d c =
     (if w \<le> cur_remaining c then (dec (take w (cur_rest c)), cur_advance w c) else (d, c))"
  by (simp add: read_or_def read_eq)

lemma try_read_eq:
  "try_read rd c =
     (if w \<le> cur_remaining c then (Some (dec (take w (cur_rest c))), cur_advance w c)
      else (None, c))"
  by (simp add: try_read_def read_eq)

end

locale fixed_codec = fixed_read rd w dec
  for rd :: "cursor \<Rightarrow> ('a \<times> cursor) option" and w and dec +
  fixes enc :: "'a \<Rightarrow> bytes"
  assumes enc_width [simp]: "length (enc v) = w"
    and dec_enc [simp]: "dec (enc v) = v"
begin

lemma read_written:
  assumes "cur_rest c = enc v @ bs"
  shows "rd c = Some (v, cur_advance w c)" and "cur_rest (cur_advance w c) = bs"
proof -
  have "cur_remaining c = w + length bs"
    using assms length_cur_rest [of c] by (simp del: length_cur_rest)
  then show "rd c = Some (v, cur_advance w c)" by (simp add: read_eq assms)
  show "cur_rest (cur_advance w c) = bs" by (simp add: assms)
qed

lemma enc_inject: "enc u = enc v \<Longrightarrow> u = v"
  using dec_enc [of u] dec_enc [of v] by metis

end

section \<open>The four widths\<close>

lemma list_of_nths:
  "length bs = 1 \<Longrightarrow> [bs ! 0] = bs"
  "length bs = 2 \<Longrightarrow> [bs ! 0, bs ! 1] = bs"
  "length bs = 4 \<Longrightarrow> [bs ! 0, bs ! 1, bs ! 2, bs ! 3] = bs"
  "length bs = 8 \<Longrightarrow> [bs ! 0, bs ! 1, bs ! 2, bs ! 3, bs ! 4, bs ! 5, bs ! 6, bs ! 7] = bs"
  by (rule nth_equalityI; auto simp: less_Suc_eq eval_nat_numeral nth_Cons')+

lemma from_be_nths:
  "length bs = 2 \<Longrightarrow> from_be [bs ! 0, bs ! 1] = from_be bs"
  "length bs = 4 \<Longrightarrow> from_be [bs ! 0, bs ! 1, bs ! 2, bs ! 3] = from_be bs"
  "length bs = 8 \<Longrightarrow>
     from_be [bs ! 0, bs ! 1, bs ! 2, bs ! 3, bs ! 4, bs ! 5, bs ! 6, bs ! 7] = from_be bs"
  by (simp_all only: list_of_nths)

lemma from_be_byte: "length bs = 1 \<Longrightarrow> from_be bs = bs ! 0"
  by (cases bs) (auto simp: from_be_def)

lemma length_cur_take: "cur_take n c = Some (s, c') \<Longrightarrow> length s = n"
  by (auto simp: cur_take_eq split: if_splits)

lemma map_take_cong:
  assumes "\<And>s. length s = n \<Longrightarrow> f s = g s"
  shows "map_option (\<lambda>(s, c'). (f s, c')) (cur_take n c) =
         map_option (\<lambda>(s, c'). (g s, c')) (cur_take n c)"
  using assms by (auto intro!: option.map_cong dest: length_cur_take)

interpretation u8: fixed_codec cur_u8 1 "from_be :: bytes \<Rightarrow> u8" "to_be_bytes 1"
proof
  show "cur_u8 c = map_option (\<lambda>(s, c'). (from_be s, c')) (cur_take 1 c)" for c
    unfolding cur_u8_def by (rule map_take_cong) (rule from_be_byte [symmetric])
qed (simp_all add: from_be_to_be del: One_nat_def)

interpretation u16: fixed_codec cur_u16 2 "from_be :: bytes \<Rightarrow> u16" "to_be_bytes 2"
proof
  show "cur_u16 c = map_option (\<lambda>(s, c'). (from_be s, c')) (cur_take 2 c)" for c
    unfolding cur_u16_def by (rule map_take_cong) (rule from_be_nths)
qed (simp_all add: from_be_to_be)

interpretation u32: fixed_codec cur_u32 4 "from_be :: bytes \<Rightarrow> u32" "to_be_bytes 4"
proof
  show "cur_u32 c = map_option (\<lambda>(s, c'). (from_be s, c')) (cur_take 4 c)" for c
    unfolding cur_u32_def by (rule map_take_cong) (rule from_be_nths)
qed (simp_all add: from_be_to_be)

interpretation u64: fixed_codec cur_u64 8 "from_be :: bytes \<Rightarrow> u64" "to_be_bytes 8"
proof
  show "cur_u64 c = map_option (\<lambda>(s, c'). (from_be s, c')) (cur_take 8 c)" for c
    unfolding cur_u64_def by (rule map_take_cong) (rule from_be_nths)
qed (simp_all add: from_be_to_be)

lemmas [reader_simps] =
  u8.read_eq u16.read_eq u32.read_eq u64.read_eq
  u8.read_or_eq u16.read_or_eq u32.read_or_eq u64.read_or_eq
  u8.try_read_eq u16.try_read_eq u32.try_read_eq u64.try_read_eq

end
