(* ===== verification/Header.thy ===== *)
theory Header
  imports Buf
begin

text \<open>
  \<open>decode/header.rs\<close>: the version probe and the four export headers.  Times are in
  microseconds since the epoch, computed in \<open>i64\<close>.
\<close>

record export_header =
  eh_version :: u16
  eh_count :: "u16 option"
  eh_sys_uptime :: "u32 option"
  eh_export_time :: "i64 option"
  eh_sequence :: "u64 option"
  eh_obs_domain :: "u32 option"

definition probe_version :: "bytes \<Rightarrow> string option" where
  "probe_version data = do {
     (v16, c) \<leftarrow> cur_u16 (cursor_new data);
     if v16 = 5 then Some ''5''
     else if v16 = 9 then Some ''9''
     else if v16 = 10 then Some ''10''
     else if v16 = 0 then do {
       (lo, c) \<leftarrow> cur_u16 c;
       if lo = 5 then
         (let (_, t) = cur_skip 4 (cursor_new data)
          in case cur_u32 t of
               Some (a, _) \<Rightarrow> if a = 1 \<or> a = 2 then Some ''sflow5'' else None
             | None \<Rightarrow> None)
       else None
     }
     else None
   }"

definition parse_v5 :: "bytes \<Rightarrow> export_header option" where
  "parse_v5 data = do {
     (version, c) \<leftarrow> cur_u16 (cursor_new data);
     (count, c) \<leftarrow> cur_u16 c;
     (sys_uptime, c) \<leftarrow> cur_u32 c;
     (unix_secs, c) \<leftarrow> cur_u32 c;
     (unix_nsecs, c) \<leftarrow> cur_u32 c;
     (sequence, c) \<leftarrow> cur_u32 c;
     (engine_type, c) \<leftarrow> cur_u8 c;
     (engine_id, c) \<leftarrow> cur_u8 c;
     Some \<lparr>eh_version = version, eh_count = Some count, eh_sys_uptime = Some sys_uptime,
           eh_export_time =
             Some (ucast unix_secs * 1000000 + i64_div (ucast unix_nsecs) 1000),
           eh_sequence = Some (ucast sequence), eh_obs_domain = Some (ucast engine_id)\<rparr>
   }"

definition parse_v9 :: "bytes \<Rightarrow> export_header option" where
  "parse_v9 data = do {
     (version, c) \<leftarrow> cur_u16 (cursor_new data);
     (count, c) \<leftarrow> cur_u16 c;
     (sys_uptime, c) \<leftarrow> cur_u32 c;
     (unix_secs, c) \<leftarrow> cur_u32 c;
     (sequence, c) \<leftarrow> cur_u32 c;
     (source_id, c) \<leftarrow> cur_u32 c;
     Some \<lparr>eh_version = version, eh_count = Some count, eh_sys_uptime = Some sys_uptime,
           eh_export_time = Some (ucast unix_secs * 1000000),
           eh_sequence = Some (ucast sequence), eh_obs_domain = Some source_id\<rparr>
   }"

definition parse_ipfix :: "bytes \<Rightarrow> export_header option" where
  "parse_ipfix data = do {
     (version, c) \<leftarrow> cur_u16 (cursor_new data);
     (len, c) \<leftarrow> cur_u16 c;
     (export_secs, c) \<leftarrow> cur_u32 c;
     (sequence, c) \<leftarrow> cur_u32 c;
     (obs_domain, c) \<leftarrow> cur_u32 c;
     Some \<lparr>eh_version = version, eh_count = None, eh_sys_uptime = None,
           eh_export_time = Some (ucast export_secs * 1000000),
           eh_sequence = Some (ucast sequence), eh_obs_domain = Some obs_domain\<rparr>
   }"

definition parse_sflow :: "bytes \<Rightarrow> export_header option" where
  "parse_sflow data = do {
     (version, c) \<leftarrow> cur_u32 (cursor_new data);
     (addr_type, c) \<leftarrow> cur_u32 c;
     c \<leftarrow> (if addr_type = 1 then Some (snd (cur_skip 4 c))
          else if addr_type = 2 then Some (snd (cur_skip 16 c))
          else None);
     (sub_agent_id, c) \<leftarrow> cur_u32 c;
     (sequence, c) \<leftarrow> cur_u32 c;
     (uptime, c) \<leftarrow> cur_u32 c;
     (num_samples, c) \<leftarrow> cur_u32 c;
     Some \<lparr>eh_version = 5, eh_count = Some (ucast (min num_samples 65535)),
           eh_sys_uptime = Some uptime, eh_export_time = None,
           eh_sequence = Some (ucast sequence), eh_obs_domain = Some sub_agent_id\<rparr>
   }"

definition parse_header :: "bytes \<Rightarrow> export_header option" where
  "parse_header data = do {
     v \<leftarrow> probe_version data;
     if v = ''5'' then parse_v5 data
     else if v = ''9'' then parse_v9 data
     else if v = ''10'' then parse_ipfix data
     else if v = ''sflow5'' then parse_sflow data
     else None
   }"

section \<open>The probe\<close>

lemma probe_version_cases:
  "probe_version data \<in> {None, Some ''5'', Some ''9'', Some ''10'', Some ''sflow5''}"
  by (simp add: probe_version_def Let_def split: Option.bind_split option.splits prod.splits)

lemma probe_version_eq:
  "probe_version data =
     (if length data < 2 then None
      else let v = be_nat (take 2 data) in
        if v = 5 then Some ''5'' else if v = 9 then Some ''9'' else if v = 10 then Some ''10''
        else if v = 0 \<and> 8 \<le> length data \<and> be_nat (take 2 (drop 2 data)) = 5 \<and>
                be_nat (take 4 (drop 4 data)) \<in> {1, 2}
        then Some ''sflow5'' else None)"
proof -
  have w16: "(from_be bs :: u16) = of_nat k \<longleftrightarrow> be_nat bs = k"
    if "length bs \<le> 2" "k < 65536" for bs k
  proof -
    have "unat (from_be bs :: u16) = be_nat bs" using that by (simp add: unat_from_be)
    moreover have "unat (of_nat k :: u16) = k" using that by (simp add: unat_of_nat)
    ultimately show ?thesis by (metis word_unat_eq_iff)
  qed
  have w32: "(from_be bs :: u32) = of_nat k \<longleftrightarrow> be_nat bs = k"
    if "length bs \<le> 4" "k < 4294967296" for bs k
  proof -
    have "unat (from_be bs :: u32) = be_nat bs" using that by (simp add: unat_from_be)
    moreover have "unat (of_nat k :: u32) = k" using that by (simp add: unat_of_nat)
    ultimately show ?thesis by (metis word_unat_eq_iff)
  qed
  show ?thesis
    using w16 [of _ 5] w16 [of _ 9] w16 [of _ 10] w16 [of _ 0] w32 [of _ 1] w32 [of _ 2]
    by (auto simp: probe_version_def reader_simps Let_def split: if_splits)
qed

lemma byte_eq_of_nat: "k < 256 \<Longrightarrow> unat (b :: u8) = k \<longleftrightarrow> b = of_nat k"
  by (auto simp: unat_of_nat)

lemma be_nat_pair: "k < 256 \<Longrightarrow> be_nat [a, b] = k \<longleftrightarrow> a = 0 \<and> b = of_nat k"
  using be_nat_eq_iff [of "[a, b]" "[0, of_nat k]"] by (simp add: be_nat_Cons unat_of_nat)

lemma be_nat_quad:
  "k < 256 \<Longrightarrow> be_nat [a, b, c, d] = k \<longleftrightarrow> a = 0 \<and> b = 0 \<and> c = 0 \<and> d = of_nat k"
  using be_nat_eq_iff [of "[a, b, c, d]" "[0, 0, 0, of_nat k]"] by (simp add: be_nat_Cons unat_of_nat)

lemma eight_bytes:
  "8 \<le> length xs \<Longrightarrow> \<exists>a b c d e f g h ys. xs = [a, b, c, d, e, f, g, h] @ ys"
proof -
  assume "8 \<le> length xs"
  then have "length (take 8 xs) = 8" by simp
  moreover obtain zs where zs: "zs = take 8 xs" by simp
  ultimately have "length zs = Suc (Suc (Suc (Suc (Suc (Suc (Suc (Suc 0)))))))" by simp
  then obtain a b c d e f g h where "zs = [a, b, c, d, e, f, g, h]"
    by (auto simp: length_Suc_conv)
  with zs have "take 8 xs = [a, b, c, d, e, f, g, h]" by simp
  then show ?thesis using append_take_drop_id [of 8 xs] by metis
qed

lemma two_bytes: "2 \<le> length xs \<Longrightarrow> \<exists>a b ys. xs = a # b # ys"
  by (cases xs; cases "tl xs") auto

lemma probe_version_iff:
  "probe_version data = Some v \<longleftrightarrow>
     v = ''5'' \<and> take 2 data = [0, 5] \<or>
     v = ''9'' \<and> take 2 data = [0, 9] \<or>
     v = ''10'' \<and> take 2 data = [0, 10] \<or>
     v = ''sflow5'' \<and> take 8 data \<in> {[0, 0, 0, 5, 0, 0, 0, 1], [0, 0, 0, 5, 0, 0, 0, 2]}"
proof -
  consider "length data < 2" | "2 \<le> length data" "length data < 8" | "8 \<le> length data"
    by linarith
  then show ?thesis
  proof cases
    case 1
    then have "length (take 2 data) \<noteq> 2" "length (take 8 data) \<noteq> 8" by auto
    then show ?thesis using 1 by (auto simp: probe_version_eq simp del: length_take)
  next
    case 2
    then obtain a b ys where "data = a # b # ys" using two_bytes by blast
    moreover from 2 have "length (take 8 data) \<noteq> 8" by simp
    then have "take 8 data \<notin> {[0, 0, 0, 5, 0, 0, 0, 1], [0, 0, 0, 5, 0, 0, 0, 2]}"
      by (auto simp del: length_take)
    ultimately show ?thesis
      using 2 by (auto simp: probe_version_eq Let_def be_nat_pair)
  next
    case 3
    then obtain a b c d e f g h ys where "data = [a, b, c, d, e, f, g, h] @ ys"
      using eight_bytes by blast
    then show ?thesis
      by (auto simp: probe_version_eq Let_def be_nat_pair be_nat_quad)
  qed
qed

text \<open>
  C32. The version probe is exact: a datagram is NetFlow v5, v9 or IPFIX just when its first
  two bytes are 5, 9 or 10, and sFlow v5 just when it opens with a 32-bit 5 and an agent
  address type of 1 or 2; anything else, short input included, has no version.
\<close>

theorem probe_exact:
  "probe_version data = Some v \<longleftrightarrow>
     v = ''5'' \<and> take 2 data = [0, 5] \<or>
     v = ''9'' \<and> take 2 data = [0, 9] \<or>
     v = ''10'' \<and> take 2 data = [0, 10] \<or>
     v = ''sflow5'' \<and> take 8 data \<in> {[0, 0, 0, 5, 0, 0, 0, 1], [0, 0, 0, 5, 0, 0, 0, 2]}"
  by (rule probe_version_iff)

text \<open>The least length a datagram of each format must have for its header to be read.\<close>

definition header_min :: "string \<Rightarrow> bytes \<Rightarrow> nat" where
  "header_min v data =
     (if v = ''5'' then 22 else if v = ''9'' then 20 else if v = ''10'' then 16
      else if be_nat (take 4 (drop 4 data)) = 1 then 28 else 40)"

lemma parse_v5_None: "parse_v5 data = None \<longleftrightarrow> length data < 22"
  by (auto simp: parse_v5_def reader_simps bind_eq_None_conv split: if_splits)

lemma parse_v9_None: "parse_v9 data = None \<longleftrightarrow> length data < 20"
  by (auto simp: parse_v9_def reader_simps split: if_splits)

lemma parse_ipfix_None: "parse_ipfix data = None \<longleftrightarrow> length data < 16"
  by (auto simp: parse_ipfix_def reader_simps split: if_splits)

lemma parse_sflow_None:
  "parse_sflow data = None \<longleftrightarrow>
     length data < 8 \<or>
     (let t = be_nat (take 4 (drop 4 data)) in
        t \<notin> {1, 2} \<or> length data < (if t = 1 then 28 else 40))"
proof -
  obtain t :: u32 where t: "t = from_be (take 4 (drop 4 data))" by simp
  then have u: "be_nat (take 4 (drop 4 data)) = unat t" by (simp add: unat_from_be)
  have one: "unat t = Suc 0 \<longleftrightarrow> t = 1" "unat t = 2 \<longleftrightarrow> t = 2"
    by (simp_all add: word_unat_eq_iff)
  note [simp] = parse_sflow_def reader_simps t [symmetric] u one Let_def
  consider "length data < 8" | "8 \<le> length data" "t = 1" "length data < 28"
    | "28 \<le> length data" "t = 1" | "8 \<le> length data" "t = 2" "length data < 40"
    | "40 \<le> length data" "t = 2" | "8 \<le> length data" "t \<noteq> 1" "t \<noteq> 2" by linarith
  then show ?thesis by cases auto
qed

lemma probe_sflow_agent:
  "probe_version data = Some ''sflow5'' \<Longrightarrow>
     8 \<le> length data \<and> be_nat (take 4 (drop 4 data)) \<in> {1, 2}"
  by (auto simp: probe_version_eq Let_def split: if_splits)

text \<open>
  A recognised datagram has a header exactly when it is long enough: 22 bytes suffice
  for NetFlow v5 (of a 24-byte header the last two are not read), 20 for v9, 16 for IPFIX,
  and 28 or 40 for sFlow, by the agent's address family.
\<close>

theorem parse_header_total:
  "parse_header data = None \<longleftrightarrow>
     (case probe_version data of
        None \<Rightarrow> True
      | Some v \<Rightarrow> length data < header_min v data)"
  using probe_version_cases [of data] probe_sflow_agent [of data]
  by (auto simp: parse_header_def parse_v5_None parse_v9_None parse_ipfix_None parse_sflow_None
     header_min_def)

section \<open>Writing headers\<close>

text \<open>The four headers as an exporter writes them, followed by a payload.\<close>

definition v5_header :: "u16 \<Rightarrow> u32 \<Rightarrow> u32 \<Rightarrow> u32 \<Rightarrow> u32 \<Rightarrow> u8 \<Rightarrow> u8 \<Rightarrow> u16 \<Rightarrow> bytes" where
  "v5_header count uptime secs nsecs sequence etype eid sampling =
     to_be_bytes 2 (5 :: u16) @ to_be_bytes 2 count @ to_be_bytes 4 uptime @ to_be_bytes 4 secs @
     to_be_bytes 4 nsecs @ to_be_bytes 4 sequence @ to_be_bytes 1 etype @ to_be_bytes 1 eid @
     to_be_bytes 2 sampling"

definition v9_header :: "u16 \<Rightarrow> u32 \<Rightarrow> u32 \<Rightarrow> u32 \<Rightarrow> u32 \<Rightarrow> bytes" where
  "v9_header count uptime secs sequence source =
     to_be_bytes 2 (9 :: u16) @ to_be_bytes 2 count @ to_be_bytes 4 uptime @ to_be_bytes 4 secs @
     to_be_bytes 4 sequence @ to_be_bytes 4 source"

definition ipfix_header :: "u16 \<Rightarrow> u32 \<Rightarrow> u32 \<Rightarrow> u32 \<Rightarrow> bytes" where
  "ipfix_header len secs sequence domain =
     to_be_bytes 2 (10 :: u16) @ to_be_bytes 2 len @ to_be_bytes 4 secs @
     to_be_bytes 4 sequence @ to_be_bytes 4 domain"

lemma to_be_bytes_u16: "k < 256 \<Longrightarrow> to_be_bytes 2 (of_nat k :: u16) = [0, of_nat k]"
  by (rule be_nat_inject) (simp_all add: to_be_bytes_def unat_of_nat be_nat_be_bytes be_nat_Cons)

lemma probe_v5_header: "probe_version (v5_header c u s n q t e i @ rest) = Some ''5''"
  using to_be_bytes_u16 [of 5] by (simp add: probe_version_iff v5_header_def)

lemma probe_v9_header: "probe_version (v9_header c u s q d @ rest) = Some ''9''"
  using to_be_bytes_u16 [of 9] by (simp add: probe_version_iff v9_header_def)

lemma probe_ipfix_header: "probe_version (ipfix_header l s q d @ rest) = Some ''10''"
  using to_be_bytes_u16 [of 10] by (simp add: probe_version_iff ipfix_header_def)

lemma parse_v5_header:
  "parse_header (v5_header c u s n q t e i @ rest) =
     Some \<lparr>eh_version = 5, eh_count = Some c, eh_sys_uptime = Some u,
           eh_export_time = Some (ucast s * 1000000 + i64_div (ucast n) 1000),
           eh_sequence = Some (ucast q), eh_obs_domain = Some (ucast e)\<rparr>"
  by (simp add: parse_header_def probe_v5_header, simp add: parse_v5_def v5_header_def reader_simps from_be_to_be)

lemma parse_v9_header:
  "parse_header (v9_header c u s q d @ rest) =
     Some \<lparr>eh_version = 9, eh_count = Some c, eh_sys_uptime = Some u,
           eh_export_time = Some (ucast s * 1000000),
           eh_sequence = Some (ucast q), eh_obs_domain = Some d\<rparr>"
  by (simp add: parse_header_def probe_v9_header, simp add: parse_v9_def v9_header_def reader_simps from_be_to_be)

lemma parse_ipfix_header:
  "parse_header (ipfix_header l s q d @ rest) =
     Some \<lparr>eh_version = 10, eh_count = None, eh_sys_uptime = None,
           eh_export_time = Some (ucast s * 1000000),
           eh_sequence = Some (ucast q), eh_obs_domain = Some d\<rparr>"
  by (simp add: parse_header_def probe_ipfix_header, simp add: parse_ipfix_def ipfix_header_def reader_simps from_be_to_be)

lemma i64_fits_micros:
  "0 \<le> a \<Longrightarrow> a < 2 ^ 32 \<Longrightarrow> i64_fits (a * 1000000)"
  "0 \<le> a \<Longrightarrow> a < 2 ^ 32 \<Longrightarrow> 0 \<le> b \<Longrightarrow> b < 2 ^ 32 \<Longrightarrow> i64_fits (a * 1000000 + b)"
  by (simp_all add: i64_fits_def)

lemma export_micros:
  "sint (ucast (s :: u32) * 1000000 :: i64) = int (unat s) * 1000000"
  "sint (ucast s * 1000000 + i64_div (ucast (n :: u32)) 1000 :: i64) =
     int (unat s) * 1000000 + int (unat n) div 1000"
proof -
  have s: "0 \<le> int (unat s)" "int (unat s) < 2 ^ 32" and n: "int (unat n) < 2 ^ 32"
    using uint_bounded [of s] uint_bounded [of n] by simp_all
  have k: "sint (1000000 :: i64) = 1000000" "sint (1000 :: i64) = 1000" by simp_all
  from i64_fits_micros(1) [OF s]
  show m: "sint (ucast s * 1000000 :: i64) = int (unat s) * 1000000"
    by (subst i64_mult) (simp_all only: i64_of_u32 k)
  have d: "sint (i64_div (ucast n) 1000) = int (unat n) div 1000"
    by (subst i64_div_nonneg) (simp_all add: i64_of_u32)
  have "int (unat n div 1000) \<le> int (unat n)" by (simp only: of_nat_le_iff div_le_dividend)
  then have "int (unat n) div 1000 \<le> int (unat n)" by (simp only: of_nat_div of_nat_numeral)
  with n have "int (unat n) div 1000 < 2 ^ 32" by linarith
  then have "i64_fits (int (unat s) * 1000000 + int (unat n) div 1000)"
    by (intro i64_fits_micros(2) s) (simp_all add: pos_imp_zdiv_nonneg_iff)
  then show "sint (ucast s * 1000000 + i64_div (ucast n) 1000 :: i64) =
     int (unat s) * 1000000 + int (unat n) div 1000"
    by (subst i64_add) (simp_all only: m d)
qed

text \<open>
  Header round trip: what an exporter writes into a NetFlow v5, v9 or IPFIX header is
  what the parser returns, whatever follows it, and the export time is the written time in
  microseconds, exactly: no \<open>i64\<close> operation of the conversion wraps.
\<close>

theorem header_roundtrip:
  "(\<exists>t. parse_header (v5_header c u s n q et e i @ rest) =
       Some \<lparr>eh_version = 5, eh_count = Some c, eh_sys_uptime = Some u, eh_export_time = Some t,
             eh_sequence = Some (ucast q), eh_obs_domain = Some (ucast e)\<rparr> \<and>
       sint t = int (unat s) * 1000000 + int (unat n) div 1000) \<and>
   (\<exists>t. parse_header (v9_header c u s q d @ rest) =
       Some \<lparr>eh_version = 9, eh_count = Some c, eh_sys_uptime = Some u, eh_export_time = Some t,
             eh_sequence = Some (ucast q), eh_obs_domain = Some d\<rparr> \<and>
       sint t = int (unat s) * 1000000) \<and>
   (\<exists>t. parse_header (ipfix_header l s q d @ rest) =
       Some \<lparr>eh_version = 10, eh_count = None, eh_sys_uptime = None, eh_export_time = Some t,
             eh_sequence = Some (ucast q), eh_obs_domain = Some d\<rparr> \<and>
       sint t = int (unat s) * 1000000)"
  by (simp add: parse_v5_header parse_v9_header parse_ipfix_header export_micros)

end
