(* ===== verification/Inet.thy ===== *)
theory Inet
  imports Prelude
begin

text \<open>
  \<open>inet.rs\<close>: IP addresses as DuckDB's physical \<open>INET\<close> triple, and the text forms of
  the standard library (\<open>Display\<close> of \<open>Ipv4Addr\<close> and \<open>Ipv6Addr\<close>) that
  \<open>to_ip_string\<close> and \<open>normalize.rs\<close> use.  An address is the list of its octets in
  network order.
\<close>

section \<open>Text form of addresses\<close>

definition ipv4_display :: "bytes \<Rightarrow> string" where
  "ipv4_display o4 =
     dec_of_word (o4 ! 0) @ ''.'' @ dec_of_word (o4 ! 1) @ ''.'' @
     dec_of_word (o4 ! 2) @ ''.'' @ dec_of_word (o4 ! 3)"

definition hex_digit :: "nat \<Rightarrow> char" where
  "hex_digit d = (if d < 10 then char_of (48 + d) else char_of (87 + d))"

fun hex_of_nat :: "nat \<Rightarrow> string" where
  "hex_of_nat n = (if n < 16 then [hex_digit n] else hex_of_nat (n div 16) @ [hex_digit (n mod 16)])"

declare hex_of_nat.simps [simp del]

fun segments :: "bytes \<Rightarrow> u16 list" where
  "segments (a # b # bs) = from_be [a, b] # segments bs"
| "segments _ = []"

fun fmt_subslice :: "u16 list \<Rightarrow> string" where
  "fmt_subslice [] = []"
| "fmt_subslice [s] = hex_of_nat (unat s)"
| "fmt_subslice (s # t # ss) = hex_of_nat (unat s) @ '':'' @ fmt_subslice (t # ss)"

text \<open>
  The longest run of zero segments, the first of the longest ones: the loop of the
  library, over the segments with the best and the current \<open>(start, length)\<close>.
\<close>

fun zero_run :: "nat \<Rightarrow> u16 list \<Rightarrow> nat \<times> nat \<Rightarrow> nat \<times> nat \<Rightarrow> nat \<times> nat" where
  "zero_run i [] longest current = longest"
| "zero_run i (s # ss) longest current =
     (if s = 0 then
        (let current' = (if snd current = 0 then i else fst current, Suc (snd current))
         in zero_run (Suc i) ss (if snd current' > snd longest then current' else longest) current')
      else zero_run (Suc i) ss longest (0, 0))"

definition ipv4_mapped :: "bytes \<Rightarrow> bool" where
  "ipv4_mapped o16 \<longleftrightarrow> take 12 o16 = replicate 10 0 @ [255, 255]"

definition ipv6_display :: "bytes \<Rightarrow> string" where
  "ipv6_display o16 =
     (if ipv4_mapped o16 then ''::ffff:'' @ ipv4_display (drop 12 o16)
      else let segs = segments o16; (start, len) = zero_run 0 segs (0, 0) (0, 0)
           in if len > 1
              then fmt_subslice (take start segs) @ ''::'' @ fmt_subslice (drop (start + len) segs)
              else fmt_subslice segs)"

section \<open>The INET triple\<close>

record inet_val =
  ip_type :: u8
  address_le :: bytes
  inet_mask :: u16

definition IP_TYPE_V4 :: u8 where "IP_TYPE_V4 = 1"

definition IP_TYPE_V6 :: u8 where "IP_TYPE_V6 = 2"

datatype ip_addr = IpV4 bytes | IpV6 bytes

definition to_le_bytes :: "nat \<Rightarrow> 'a::len word \<Rightarrow> bytes" where
  "to_le_bytes n w = rev (to_be_bytes n w)"

definition from_le :: "bytes \<Rightarrow> 'a::len word" where
  "from_le bs = from_be (rev bs)"

fun inet_encode :: "ip_addr \<Rightarrow> u16 \<Rightarrow> inet_val" where
  "inet_encode (IpV4 o4) m =
     \<lparr>ip_type = IP_TYPE_V4, address_le = to_le_bytes 16 (ucast (from_be o4 :: u32) :: u128),
      inet_mask = m\<rparr>"
| "inet_encode (IpV6 o16) m =
     \<lparr>ip_type = IP_TYPE_V6, address_le = to_le_bytes 16 ((from_be o16 :: u128) XOR push_bit 127 1),
      inet_mask = m\<rparr>"

fun encode_ip :: "ip_addr \<Rightarrow> inet_val" where
  "encode_ip (IpV4 o4) = inet_encode (IpV4 o4) 32"
| "encode_ip (IpV6 o16) = inet_encode (IpV6 o16) 128"

definition inet4 :: "bytes \<Rightarrow> inet_val option" where
  "inet4 b = (if length b = 4 then Some (encode_ip (IpV4 [b ! 0, b ! 1, b ! 2, b ! 3])) else None)"

definition inet6 :: "bytes \<Rightarrow> inet_val option" where
  "inet6 b = (if length b = 16 then Some (encode_ip (IpV6 b)) else None)"

definition to_ip_string :: "inet_val \<Rightarrow> string" where
  "to_ip_string v =
     (let a = (from_le (address_le v) :: u128)
      in if ip_type v = IP_TYPE_V4 then ipv4_display (to_be_bytes 4 (ucast a :: u32))
         else ipv6_display (to_be_bytes 16 (a XOR push_bit 127 1)))"

section \<open>Round trips\<close>

lemma from_le_to_le:
  "n * 8 = LENGTH('a::len) \<Longrightarrow> from_le (to_le_bytes n (w :: 'a word)) = w"
  by (simp add: from_le_def to_le_bytes_def from_be_to_be)

lemma to_be_from_be:
  assumes "length bs * 8 \<le> LENGTH('a::len)"
  shows "to_be_bytes (length bs) (from_be bs :: 'a word) = bs"
  using assms by (simp add: to_be_bytes_def unat_from_be be_bytes_be_nat)

lemma to_be_from_be4: "length bs = 4 \<Longrightarrow> to_be_bytes 4 (from_be bs :: u32) = bs"
  using to_be_from_be [of bs, where 'a = 32] by simp

lemma to_be_from_be16: "length bs = 16 \<Longrightarrow> to_be_bytes 16 (from_be bs :: u128) = bs"
  using to_be_from_be [of bs, where 'a = 128] by simp

lemma ucast_u32_u128: "(ucast (ucast (w :: u32) :: u128) :: u32) = w"
  by (rule bit_word_eqI) (simp add: bit_simps)

lemma xor_twice: "((w :: u128) XOR m) XOR m = w"
  by (simp add: xor.assoc)

lemma inet4_Some_iff:
  "inet4 b = Some v \<longleftrightarrow> length b = 4 \<and> v = encode_ip (IpV4 b)"
proof -
  have "[b ! 0, b ! 1, b ! 2, b ! 3] = b" if "length b = 4"
    using that by (intro nth_equalityI) (auto simp: less_Suc_eq eval_nat_numeral nth_Cons')
  then show ?thesis by (auto simp: inet4_def)
qed

lemma to_ip_string_encode4:
  "length b = 4 \<Longrightarrow> to_ip_string (encode_ip (IpV4 b)) = ipv4_display b"
  by (simp add: to_ip_string_def from_le_to_le ucast_u32_u128 to_be_from_be4)

lemma to_ip_string_encode6:
  "length b = 16 \<Longrightarrow> to_ip_string (encode_ip (IpV6 b)) = ipv6_display b"
  by (simp add: to_ip_string_def from_le_to_le IP_TYPE_V4_def IP_TYPE_V6_def xor_twice
      to_be_from_be16)

section \<open>Order of the HUGEINT column\<close>

definition inet_hugeint :: "inet_val \<Rightarrow> int" where
  "inet_hugeint v = sint (from_le (address_le v) :: u128)"

lemma xor_sign_bit: "(w :: u128) XOR push_bit 127 1 = w + 2 ^ 127"
proof -
  have "w XOR push_bit 127 1 = flip_bit 127 w" by (simp add: flip_bit_def xor.commute)
  also have "\<dots> = w + 2 ^ 127"
    by (auto simp add: flip_bit_eq_if unset_bit_eq set_bit_eq)
  finally show ?thesis .
qed

lemma sint_flip_sign: "sint ((w :: u128) XOR push_bit 127 1) = uint w - 2 ^ 127"
proof -
  have u: "uint w < 2 ^ 128" "0 \<le> uint w" using uint_bounded [of w] by simp_all
  have "(uint w + 2 ^ 127) mod 2 ^ 128 =
    (if uint w < 2 ^ 127 then uint w + 2 ^ 127 else uint w - 2 ^ 127)"
  proof (cases "uint w < 2 ^ 127")
    case True
    with u show ?thesis by (simp add: mod_pos_pos_trivial)
  next
    case False
    have "(uint w + 2 ^ 127) mod 2 ^ 128 = (uint w - 2 ^ 127 + 2 ^ 128) mod 2 ^ 128"
      by (simp add: add.commute)
    also have "\<dots> = uint w - 2 ^ 127"
      using False u by (subst mod_add_self2) (simp add: mod_pos_pos_trivial)
    finally show ?thesis using False by simp
  qed
  with u show ?thesis
    unfolding xor_sign_bit sint_uint_cases by (simp add: uint_word_ariths)
qed

lemma inet_hugeint_encode6: "inet_hugeint (encode_ip (IpV6 b)) = uint (from_be b :: u128) - 2 ^ 127"
  by (simp add: inet_hugeint_def from_le_to_le sint_flip_sign del: push_bit_of_1)

lemma inet_hugeint_encode4: "inet_hugeint (encode_ip (IpV4 b)) = uint (from_be b :: u32)"
proof -
  have "uint (from_be b :: u32) < 2 ^ 32" using uint_bounded [of "from_be b :: u32"] by simp
  then have "uint (from_be b :: u32) < 2 ^ 127" "uint (from_be b :: u32) < 2 ^ 128" by simp_all
  then show ?thesis
    by (simp add: inet_hugeint_def from_le_to_le sint_uint_cases unsigned_ucast_eq
        take_bit_int_eq_self)
qed

lemma inet6_Some_iff: "inet6 b = Some v \<longleftrightarrow> length b = 16 \<and> v = encode_ip (IpV6 b)"
  by (auto simp: inet6_def)

lemma uint_from_be:
  "length b * 8 \<le> LENGTH('a::len) \<Longrightarrow> uint (from_be b :: 'a word) = int (be_nat b)"
  using unat_from_be [of b, where 'a = 'a] by (metis uint_nat)

text \<open>
  C34. The emitted triple orders as the addresses do: two IPv4 cells, or two IPv6 cells,
  compare as signed HUGEINTs exactly as their octets compare in network order, which is
  what DuckDB's range and containment tests rely on; equal HUGEINTs mean equal octets, so
  the encoding loses nothing.
\<close>

theorem inet_order:
  "(inet4 x = Some v \<and> inet4 y = Some w \<or> inet6 x = Some v \<and> inet6 y = Some w) \<Longrightarrow>
     (inet_hugeint v \<le> inet_hugeint w \<longleftrightarrow> be_nat x \<le> be_nat y) \<and>
     (inet_hugeint v = inet_hugeint w \<longleftrightarrow> x = y)"
  by (auto simp: inet4_Some_iff inet6_Some_iff inet_hugeint_encode4 inet_hugeint_encode6
      uint_from_be be_nat_eq_iff simp del: encode_ip.simps)

theorem inet_order_witness:
  "inet4 [10, 0, 0, 1] = Some (encode_ip (IpV4 [10, 0, 0, 1])) \<and>
   inet_hugeint (encode_ip (IpV4 [10, 0, 0, 1])) \<le> inet_hugeint (encode_ip (IpV4 [10, 0, 0, 2]))"
  using inet_order [of "[10, 0, 0, 1]" "encode_ip (IpV4 [10, 0, 0, 1])" "[10, 0, 0, 2]"
      "encode_ip (IpV4 [10, 0, 0, 2])"]
  by (simp add: inet4_Some_iff be_nat_Cons del: encode_ip.simps)

end
