(* ===== verification/Normalize.thy ===== *)
theory Normalize
  imports Inet
begin

text \<open>
  \<open>normalize.rs\<close>: the wide cross-version flow row, its diagnostics, and the byte
  helpers.  Fields of the row are prefixed \<open>fr_\<close>, since the other structs of the crate
  share most of their names.
\<close>

section \<open>The flow record\<close>

record flow_record =
  fr_exporter :: string
  fr_flow_version :: string
  fr_obs_domain :: u32
  fr_template_id :: "u16 option"
  fr_export_time :: "i64 option"
  fr_sequence :: "u64 option"
  fr_src_addr :: "inet_val option"
  fr_dst_addr :: "inet_val option"
  fr_src_port :: "u16 option"
  fr_dst_port :: "u16 option"
  fr_protocol :: "u8 option"
  fr_tcp_flags :: "u8 option"
  fr_bytes :: "u64 option"
  fr_packets :: "u64 option"
  fr_flow_start :: "i64 option"
  fr_flow_end :: "i64 option"
  fr_src_as :: "u32 option"
  fr_dst_as :: "u32 option"
  fr_input_snmp :: "u32 option"
  fr_output_snmp :: "u32 option"
  fr_next_hop :: "inet_val option"
  fr_tos :: "u8 option"
  fr_src_mask :: "u8 option"
  fr_dst_mask :: "u8 option"
  fr_sampling_rate :: "u32 option"
  fr_direction :: "u8 option"
  fr_raw_fields :: "(string \<times> bytes) list"
  fr_diagnostics :: "string option"

definition default_record :: flow_record where
  "default_record =
     \<lparr>fr_exporter = [], fr_flow_version = [], fr_obs_domain = 0, fr_template_id = None,
      fr_export_time = None, fr_sequence = None, fr_src_addr = None, fr_dst_addr = None,
      fr_src_port = None, fr_dst_port = None, fr_protocol = None, fr_tcp_flags = None,
      fr_bytes = None, fr_packets = None, fr_flow_start = None, fr_flow_end = None,
      fr_src_as = None, fr_dst_as = None, fr_input_snmp = None, fr_output_snmp = None,
      fr_next_hop = None, fr_tos = None, fr_src_mask = None, fr_dst_mask = None,
      fr_sampling_rate = None, fr_direction = None, fr_raw_fields = [],
      fr_diagnostics = None\<rparr>"

definition diagnostic ::
  "string \<Rightarrow> string \<Rightarrow> u32 \<Rightarrow> i64 option \<Rightarrow> u64 option \<Rightarrow> string \<Rightarrow> flow_record" where
  "diagnostic exporter version obs_domain export_time sequence diag =
     default_record\<lparr>fr_exporter := exporter, fr_flow_version := version,
       fr_obs_domain := obs_domain, fr_export_time := export_time, fr_sequence := sequence,
       fr_diagnostics := Some diag\<rparr>"

definition put_raw :: "string \<Rightarrow> bytes \<Rightarrow> flow_record \<Rightarrow> flow_record" where
  "put_raw name bs rec = rec\<lparr>fr_raw_fields := fr_raw_fields rec @ [(name, bs)]\<rparr>"

definition note_diag :: "string \<Rightarrow> flow_record \<Rightarrow> flow_record" where
  "note_diag msg rec =
     (case fr_diagnostics rec of
        Some d \<Rightarrow>
          if \<not> list_ex (\<lambda>p. p = msg) (str_split (CHR '';'') d)
          then rec\<lparr>fr_diagnostics := Some (d @ '';'' @ msg)\<rparr> else rec
      | None \<Rightarrow> rec\<lparr>fr_diagnostics := Some msg\<rparr>)"

definition norm_ipv4 :: "bytes \<Rightarrow> string option" where
  "norm_ipv4 b = (if length b = 4 then Some (ipv4_display [b ! 0, b ! 1, b ! 2, b ! 3]) else None)"

definition norm_ipv6 :: "bytes \<Rightarrow> string option" where
  "norm_ipv6 b = (if length b = 16 then Some (ipv6_display b) else None)"

text \<open>The accumulation loop of \<open>be_uint\<close>, with its shift and or on \<open>u64\<close>.\<close>

definition be_uint :: "bytes \<Rightarrow> u64" where
  "be_uint b = foldl (\<lambda>v byte. push_bit 8 v OR ucast byte) 0 (take 8 b)"

section \<open>Lemmas\<close>

lemma diagnostic_sel [simp]:
  "fr_exporter (diagnostic e v d t s m) = e"
  "fr_flow_version (diagnostic e v d t s m) = v"
  "fr_obs_domain (diagnostic e v d t s m) = d"
  "fr_export_time (diagnostic e v d t s m) = t"
  "fr_sequence (diagnostic e v d t s m) = s"
  "fr_diagnostics (diagnostic e v d t s m) = Some m"
  "fr_template_id (diagnostic e v d t s m) = None"
  by (simp_all add: diagnostic_def default_record_def)

lemma note_diag_sel [simp]:
  "fr_exporter (note_diag m r) = fr_exporter r"
  "fr_flow_version (note_diag m r) = fr_flow_version r"
  "fr_obs_domain (note_diag m r) = fr_obs_domain r"
  "fr_template_id (note_diag m r) = fr_template_id r"
  "fr_export_time (note_diag m r) = fr_export_time r"
  "fr_sequence (note_diag m r) = fr_sequence r"
  "fr_bytes (note_diag m r) = fr_bytes r"
  "fr_packets (note_diag m r) = fr_packets r"
  "fr_flow_start (note_diag m r) = fr_flow_start r"
  "fr_flow_end (note_diag m r) = fr_flow_end r"
  "fr_raw_fields (note_diag m r) = fr_raw_fields r"
  by (simp_all add: note_diag_def split: option.splits)

lemma put_raw_sel [simp]:
  "fr_exporter (put_raw n b r) = fr_exporter r"
  "fr_flow_version (put_raw n b r) = fr_flow_version r"
  "fr_obs_domain (put_raw n b r) = fr_obs_domain r"
  "fr_template_id (put_raw n b r) = fr_template_id r"
  "fr_export_time (put_raw n b r) = fr_export_time r"
  "fr_sequence (put_raw n b r) = fr_sequence r"
  "fr_bytes (put_raw n b r) = fr_bytes r"
  "fr_packets (put_raw n b r) = fr_packets r"
  "fr_flow_start (put_raw n b r) = fr_flow_start r"
  "fr_flow_end (put_raw n b r) = fr_flow_end r"
  "fr_diagnostics (put_raw n b r) = fr_diagnostics r"
  "fr_raw_fields (put_raw n b r) = fr_raw_fields r @ [(n, b)]"
  by (simp_all add: put_raw_def)

text \<open>The notes of a record: the pieces of its diagnostics column.\<close>

definition record_notes :: "flow_record \<Rightarrow> string set" where
  "record_notes rec =
     (case fr_diagnostics rec of None \<Rightarrow> {} | Some d \<Rightarrow> set (str_split (CHR '';'') d))"

lemma record_notes_note:
  assumes "CHR '';'' \<notin> set msg"
  shows "record_notes (note_diag msg rec) = insert msg (record_notes rec)"
proof (cases "fr_diagnostics rec")
  case None
  with assms show ?thesis by (simp add: note_diag_def record_notes_def str_split_no_sep)
next
  case (Some d)
  have "str_split (CHR '';'') (d @ CHR '';'' # msg) = str_split (CHR '';'') d @ [msg]"
    using assms by (simp add: str_split_append_sep str_split_no_sep)
  with Some show ?thesis
    by (auto simp: note_diag_def record_notes_def list_ex_iff)
qed

lemma record_notes_default [simp]: "record_notes default_record = {}"
  by (simp add: record_notes_def default_record_def)

lemma note_absorb: "msg \<in> record_notes rec \<Longrightarrow> note_diag msg rec = rec"
  by (auto simp: note_diag_def record_notes_def list_ex_iff split: option.splits)

text \<open>
  \<open>FlowRecord::note\<close> treats the diagnostics column as a set of notes: a note without the
  separator is added to the notes already there, and adding it again changes nothing, in
  whatever order other notes were added in between.
\<close>

theorem note_set:
  assumes "CHR '';'' \<notin> set msg" and "CHR '';'' \<notin> set other"
  shows "record_notes (note_diag msg rec) = insert msg (record_notes rec) \<and>
         note_diag msg (note_diag other (note_diag msg rec)) = note_diag other (note_diag msg rec)"
  using assms by (simp add: record_notes_note note_absorb)

theorem note_set_witness:
  "record_notes (note_diag ''enterprise-unmapped'' default_record) = {''enterprise-unmapped''}"
  using note_set [of "''enterprise-unmapped''" "''truncated''" default_record]
  by (simp add: record_notes_default)

section \<open>Text and integers\<close>

text \<open>
  The INET triple and the text helpers agree: for every byte string, rendering the
  triple that \<open>inet4\<close> (\<open>inet6\<close>) builds gives the text \<open>ipv4\<close> (\<open>ipv6\<close>)
  gives, and both reject the same lengths.  So the sign flip and the little-endian layout
  of the HUGEINT are undone exactly.
\<close>

theorem inet_text_roundtrip:
  "map_option to_ip_string (inet4 b) = norm_ipv4 b \<and>
   map_option to_ip_string (inet6 b) = norm_ipv6 b"
proof
  have "[b ! 0, b ! 1, b ! 2, b ! 3] = b" if "length b = 4"
    using that by (intro nth_equalityI) (auto simp: less_Suc_eq eval_nat_numeral nth_Cons')
  then show "map_option to_ip_string (inet4 b) = norm_ipv4 b"
    by (auto simp: inet4_def norm_ipv4_def to_ip_string_encode4 simp del: encode_ip.simps)
  show "map_option to_ip_string (inet6 b) = norm_ipv6 b"
    by (auto simp: inet6_def norm_ipv6_def to_ip_string_encode6 simp del: encode_ip.simps)
qed

lemma shift_or_byte: "push_bit 8 v OR ucast (b :: u8) = v * 256 + (ucast b :: u64)"
proof -
  have "push_bit 8 v AND (ucast b :: u64) = 0"
    by (rule bit_word_eqI) (auto simp: bit_simps dest: bit_imp_le_length)
  then have "push_bit 8 v OR ucast b = push_bit 8 v + (ucast b :: u64)"
    by (simp add: disjunctive_add_eq_or)
  then show ?thesis by (simp add: push_bit_eq_mult)
qed

lemma foldl_shift_or:
  "foldl (\<lambda>v byte. push_bit 8 v OR ucast byte) a (bs :: bytes) =
     (a * 256 ^ length bs + of_nat (be_nat bs) :: u64)"
proof (induction bs rule: rev_induct)
  case Nil
  then show ?case by simp
next
  case (snoc b bs)
  then show ?case by (simp add: shift_or_byte algebra_simps)
qed

lemma be_uint_eq: "be_uint b = from_be (take 8 b)"
  by (simp add: be_uint_def foldl_shift_or from_be_def)

text \<open>
  \<open>be_uint\<close> is the big-endian value of its first eight bytes, exactly: no shift
  ever pushes a bit out of the 64-bit accumulator.
\<close>

theorem be_uint_value: "unat (be_uint b) = be_nat (take 8 b)"
  by (simp add: be_uint_eq unat_from_be)

end
