(* ===== verification/Registry.thy ===== *)
theory Registry
  imports Prelude
begin

text \<open>
  \<open>registry/\<close>: the bundled Information-Element tables and their lookups.  The IANA
  snapshot is the concatenation of four slices of the source's \<open>REGISTRY\<close>, in its
  order; the vendor tables are \<open>VMWARE\<close> and \<open>NOKIA\<close> of \<open>enterprise.rs\<close>.
\<close>

datatype ie_type =
    Unsigned8 | Unsigned16 | Unsigned32 | Unsigned64 | Signed32 | Signed64 | Float64
  | IeBoolean | MacAddress | Ipv4Address | Ipv6Address
  | DateTimeSeconds | DateTimeMilliseconds | DateTimeMicroseconds | DateTimeNanoseconds
  | IeString | OctetArray

record ie_def =
  def_id :: u16
  def_name :: string
  def_ty :: ie_type

section \<open>The IANA snapshot\<close>

definition registry_part1 :: "ie_def list" where
  "registry_part1 = [
    \<lparr>def_id = 1, def_name = ''octetDeltaCount'', def_ty = Unsigned64\<rparr>,
    \<lparr>def_id = 2, def_name = ''packetDeltaCount'', def_ty = Unsigned64\<rparr>,
    \<lparr>def_id = 3, def_name = ''deltaFlowCount'', def_ty = Unsigned64\<rparr>,
    \<lparr>def_id = 4, def_name = ''protocolIdentifier'', def_ty = Unsigned8\<rparr>,
    \<lparr>def_id = 5, def_name = ''ipClassOfService'', def_ty = Unsigned8\<rparr>,
    \<lparr>def_id = 6, def_name = ''tcpControlBits'', def_ty = Unsigned16\<rparr>,
    \<lparr>def_id = 7, def_name = ''sourceTransportPort'', def_ty = Unsigned16\<rparr>,
    \<lparr>def_id = 8, def_name = ''sourceIPv4Address'', def_ty = Ipv4Address\<rparr>,
    \<lparr>def_id = 9, def_name = ''sourceIPv4PrefixLength'', def_ty = Unsigned8\<rparr>,
    \<lparr>def_id = 10, def_name = ''ingressInterface'', def_ty = Unsigned32\<rparr>,
    \<lparr>def_id = 11, def_name = ''destinationTransportPort'', def_ty = Unsigned16\<rparr>,
    \<lparr>def_id = 12, def_name = ''destinationIPv4Address'', def_ty = Ipv4Address\<rparr>,
    \<lparr>def_id = 13, def_name = ''destinationIPv4PrefixLength'', def_ty = Unsigned8\<rparr>,
    \<lparr>def_id = 14, def_name = ''egressInterface'', def_ty = Unsigned32\<rparr>,
    \<lparr>def_id = 15, def_name = ''ipNextHopIPv4Address'', def_ty = Ipv4Address\<rparr>,
    \<lparr>def_id = 16, def_name = ''bgpSourceAsNumber'', def_ty = Unsigned32\<rparr>,
    \<lparr>def_id = 17, def_name = ''bgpDestinationAsNumber'', def_ty = Unsigned32\<rparr>,
    \<lparr>def_id = 18, def_name = ''bgpNextHopIPv4Address'', def_ty = Ipv4Address\<rparr>,
    \<lparr>def_id = 21, def_name = ''flowEndSysUpTime'', def_ty = Unsigned32\<rparr>,
    \<lparr>def_id = 22, def_name = ''flowStartSysUpTime'', def_ty = Unsigned32\<rparr>,
    \<lparr>def_id = 23, def_name = ''postOctetDeltaCount'', def_ty = Unsigned64\<rparr>,
    \<lparr>def_id = 24, def_name = ''postPacketDeltaCount'', def_ty = Unsigned64\<rparr>,
    \<lparr>def_id = 27, def_name = ''sourceIPv6Address'', def_ty = Ipv6Address\<rparr>,
    \<lparr>def_id = 28, def_name = ''destinationIPv6Address'', def_ty = Ipv6Address\<rparr>,
    \<lparr>def_id = 29, def_name = ''sourceIPv6PrefixLength'', def_ty = Unsigned8\<rparr>,
    \<lparr>def_id = 30, def_name = ''destinationIPv6PrefixLength'', def_ty = Unsigned8\<rparr>,
    \<lparr>def_id = 31, def_name = ''flowLabelIPv6'', def_ty = Unsigned32\<rparr>,
    \<lparr>def_id = 32, def_name = ''icmpTypeCodeIPv4'', def_ty = Unsigned16\<rparr>,
    \<lparr>def_id = 33, def_name = ''igmpType'', def_ty = Unsigned8\<rparr>,
    \<lparr>def_id = 34, def_name = ''samplingInterval'', def_ty = Unsigned32\<rparr>]"

definition registry_part2 :: "ie_def list" where
  "registry_part2 = [
    \<lparr>def_id = 35, def_name = ''samplingAlgorithm'', def_ty = Unsigned8\<rparr>,
    \<lparr>def_id = 36, def_name = ''flowActiveTimeout'', def_ty = Unsigned16\<rparr>,
    \<lparr>def_id = 37, def_name = ''flowIdleTimeout'', def_ty = Unsigned16\<rparr>,
    \<lparr>def_id = 40, def_name = ''exportedOctetTotalCount'', def_ty = Unsigned64\<rparr>,
    \<lparr>def_id = 41, def_name = ''exportedMessageTotalCount'', def_ty = Unsigned64\<rparr>,
    \<lparr>def_id = 42, def_name = ''exportedFlowRecordTotalCount'', def_ty = Unsigned64\<rparr>,
    \<lparr>def_id = 52, def_name = ''minimumTTL'', def_ty = Unsigned8\<rparr>,
    \<lparr>def_id = 53, def_name = ''maximumTTL'', def_ty = Unsigned8\<rparr>,
    \<lparr>def_id = 56, def_name = ''sourceMacAddress'', def_ty = MacAddress\<rparr>,
    \<lparr>def_id = 57, def_name = ''postDestinationMacAddress'', def_ty = MacAddress\<rparr>,
    \<lparr>def_id = 58, def_name = ''vlanId'', def_ty = Unsigned16\<rparr>,
    \<lparr>def_id = 59, def_name = ''postVlanId'', def_ty = Unsigned16\<rparr>,
    \<lparr>def_id = 60, def_name = ''ipVersion'', def_ty = Unsigned8\<rparr>,
    \<lparr>def_id = 61, def_name = ''flowDirection'', def_ty = Unsigned8\<rparr>,
    \<lparr>def_id = 62, def_name = ''ipNextHopIPv6Address'', def_ty = Ipv6Address\<rparr>,
    \<lparr>def_id = 63, def_name = ''bgpNextHopIPv6Address'', def_ty = Ipv6Address\<rparr>,
    \<lparr>def_id = 70, def_name = ''mplsTopLabelStackSection'', def_ty = OctetArray\<rparr>,
    \<lparr>def_id = 80, def_name = ''destinationMacAddress'', def_ty = MacAddress\<rparr>,
    \<lparr>def_id = 81, def_name = ''postSourceMacAddress'', def_ty = MacAddress\<rparr>,
    \<lparr>def_id = 82, def_name = ''interfaceName'', def_ty = IeString\<rparr>,
    \<lparr>def_id = 83, def_name = ''interfaceDescription'', def_ty = IeString\<rparr>,
    \<lparr>def_id = 85, def_name = ''octetTotalCount'', def_ty = Unsigned64\<rparr>,
    \<lparr>def_id = 86, def_name = ''packetTotalCount'', def_ty = Unsigned64\<rparr>,
    \<lparr>def_id = 88, def_name = ''fragmentOffset'', def_ty = Unsigned16\<rparr>,
    \<lparr>def_id = 89, def_name = ''forwardingStatus'', def_ty = Unsigned8\<rparr>,
    \<lparr>def_id = 128, def_name = ''bgpNextAdjacentAsNumber'', def_ty = Unsigned32\<rparr>,
    \<lparr>def_id = 129, def_name = ''bgpPrevAdjacentAsNumber'', def_ty = Unsigned32\<rparr>,
    \<lparr>def_id = 130, def_name = ''exporterIPv4Address'', def_ty = Ipv4Address\<rparr>,
    \<lparr>def_id = 131, def_name = ''exporterIPv6Address'', def_ty = Ipv6Address\<rparr>,
    \<lparr>def_id = 136, def_name = ''flowEndReason'', def_ty = Unsigned8\<rparr>]"

definition registry_part3 :: "ie_def list" where
  "registry_part3 = [
    \<lparr>def_id = 139, def_name = ''icmpTypeCodeIPv6'', def_ty = Unsigned16\<rparr>,
    \<lparr>def_id = 144, def_name = ''exportingProcessId'', def_ty = Unsigned32\<rparr>,
    \<lparr>def_id = 145, def_name = ''templateId'', def_ty = Unsigned16\<rparr>,
    \<lparr>def_id = 148, def_name = ''flowId'', def_ty = Unsigned64\<rparr>,
    \<lparr>def_id = 150, def_name = ''flowStartSeconds'', def_ty = DateTimeSeconds\<rparr>,
    \<lparr>def_id = 151, def_name = ''flowEndSeconds'', def_ty = DateTimeSeconds\<rparr>,
    \<lparr>def_id = 152, def_name = ''flowStartMilliseconds'', def_ty = DateTimeMilliseconds\<rparr>,
    \<lparr>def_id = 153, def_name = ''flowEndMilliseconds'', def_ty = DateTimeMilliseconds\<rparr>,
    \<lparr>def_id = 154, def_name = ''flowStartMicroseconds'', def_ty = DateTimeMicroseconds\<rparr>,
    \<lparr>def_id = 155, def_name = ''flowEndMicroseconds'', def_ty = DateTimeMicroseconds\<rparr>,
    \<lparr>def_id = 156, def_name = ''flowStartNanoseconds'', def_ty = DateTimeNanoseconds\<rparr>,
    \<lparr>def_id = 157, def_name = ''flowEndNanoseconds'', def_ty = DateTimeNanoseconds\<rparr>,
    \<lparr>def_id = 160, def_name = ''systemInitTimeMilliseconds'', def_ty = DateTimeMilliseconds\<rparr>,
    \<lparr>def_id = 161, def_name = ''flowDurationMilliseconds'', def_ty = Unsigned32\<rparr>,
    \<lparr>def_id = 176, def_name = ''icmpTypeIPv4'', def_ty = Unsigned8\<rparr>,
    \<lparr>def_id = 177, def_name = ''icmpCodeIPv4'', def_ty = Unsigned8\<rparr>,
    \<lparr>def_id = 178, def_name = ''icmpTypeIPv6'', def_ty = Unsigned8\<rparr>,
    \<lparr>def_id = 179, def_name = ''icmpCodeIPv6'', def_ty = Unsigned8\<rparr>,
    \<lparr>def_id = 180, def_name = ''udpSourcePort'', def_ty = Unsigned16\<rparr>,
    \<lparr>def_id = 181, def_name = ''udpDestinationPort'', def_ty = Unsigned16\<rparr>,
    \<lparr>def_id = 182, def_name = ''tcpSourcePort'', def_ty = Unsigned16\<rparr>,
    \<lparr>def_id = 183, def_name = ''tcpDestinationPort'', def_ty = Unsigned16\<rparr>,
    \<lparr>def_id = 184, def_name = ''tcpSequenceNumber'', def_ty = Unsigned32\<rparr>,
    \<lparr>def_id = 185, def_name = ''tcpAcknowledgementNumber'', def_ty = Unsigned32\<rparr>,
    \<lparr>def_id = 186, def_name = ''tcpWindowSize'', def_ty = Unsigned16\<rparr>,
    \<lparr>def_id = 187, def_name = ''tcpUrgentPointer'', def_ty = Unsigned16\<rparr>,
    \<lparr>def_id = 189, def_name = ''ipHeaderLength'', def_ty = Unsigned8\<rparr>,
    \<lparr>def_id = 192, def_name = ''ipTTL'', def_ty = Unsigned8\<rparr>,
    \<lparr>def_id = 195, def_name = ''ipDiffServCodePoint'', def_ty = Unsigned8\<rparr>,
    \<lparr>def_id = 205, def_name = ''udpMessageLength'', def_ty = Unsigned16\<rparr>]"

definition registry_part4 :: "ie_def list" where
  "registry_part4 = [
    \<lparr>def_id = 206, def_name = ''isMulticast'', def_ty = Unsigned8\<rparr>,
    \<lparr>def_id = 224, def_name = ''ipTotalLength'', def_ty = Unsigned64\<rparr>,
    \<lparr>def_id = 225, def_name = ''postNATSourceIPv4Address'', def_ty = Ipv4Address\<rparr>,
    \<lparr>def_id = 226, def_name = ''postNATDestinationIPv4Address'', def_ty = Ipv4Address\<rparr>,
    \<lparr>def_id = 227, def_name = ''postNAPTSourceTransportPort'', def_ty = Unsigned16\<rparr>,
    \<lparr>def_id = 228, def_name = ''postNAPTDestinationTransportPort'', def_ty = Unsigned16\<rparr>,
    \<lparr>def_id = 230, def_name = ''natEvent'', def_ty = Unsigned8\<rparr>,
    \<lparr>def_id = 233, def_name = ''firewallEvent'', def_ty = Unsigned8\<rparr>,
    \<lparr>def_id = 234, def_name = ''ingressVRFID'', def_ty = Unsigned32\<rparr>,
    \<lparr>def_id = 235, def_name = ''egressVRFID'', def_ty = Unsigned32\<rparr>,
    \<lparr>def_id = 243, def_name = ''dot1qVlanId'', def_ty = Unsigned16\<rparr>,
    \<lparr>def_id = 244, def_name = ''dot1qPriority'', def_ty = Unsigned8\<rparr>,
    \<lparr>def_id = 245, def_name = ''dot1qCustomerVlanId'', def_ty = Unsigned16\<rparr>,
    \<lparr>def_id = 256, def_name = ''ethernetType'', def_ty = Unsigned16\<rparr>,
    \<lparr>def_id = 277, def_name = ''observationPointId'', def_ty = Unsigned64\<rparr>,
    \<lparr>def_id = 300, def_name = ''observationDomainName'', def_ty = IeString\<rparr>,
    \<lparr>def_id = 302, def_name = ''selectorId'', def_ty = Unsigned64\<rparr>,
    \<lparr>def_id = 305, def_name = ''samplingPacketInterval'', def_ty = Unsigned32\<rparr>,
    \<lparr>def_id = 306, def_name = ''samplingPacketSpace'', def_ty = Unsigned32\<rparr>,
    \<lparr>def_id = 309, def_name = ''samplingSize'', def_ty = Unsigned32\<rparr>,
    \<lparr>def_id = 318, def_name = ''selectorIdTotalFlowsObserved'', def_ty = Unsigned64\<rparr>,
    \<lparr>def_id = 322, def_name = ''observationTimeSeconds'', def_ty = DateTimeSeconds\<rparr>,
    \<lparr>def_id = 323, def_name = ''observationTimeMilliseconds'', def_ty = DateTimeMilliseconds\<rparr>,
    \<lparr>def_id = 324, def_name = ''observationTimeMicroseconds'', def_ty = DateTimeMicroseconds\<rparr>,
    \<lparr>def_id = 325, def_name = ''observationTimeNanoseconds'', def_ty = DateTimeNanoseconds\<rparr>,
    \<lparr>def_id = 351, def_name = ''layer2OctetDeltaCount'', def_ty = Unsigned64\<rparr>,
    \<lparr>def_id = 352, def_name = ''layer2OctetTotalCount'', def_ty = Unsigned64\<rparr>]"

definition REGISTRY :: "ie_def list" where
  "REGISTRY = registry_part1 @ registry_part2 @ registry_part3 @ registry_part4"

definition iana_lookup :: "u16 \<Rightarrow> ie_def option" where
  "iana_lookup ident = find (\<lambda>d. def_id d = ident) REGISTRY"

section \<open>Vendor tables\<close>

definition PEN_VMWARE :: u32 where "PEN_VMWARE = 6876"

definition PEN_NOKIA :: u32 where "PEN_NOKIA = 637"

definition VMWARE :: "ie_def list" where
  "VMWARE = [
    \<lparr>def_id = 880, def_name = ''vmware.tenantProtocol'', def_ty = Unsigned8\<rparr>,
    \<lparr>def_id = 881, def_name = ''vmware.tenantSourceIPv4'', def_ty = Ipv4Address\<rparr>,
    \<lparr>def_id = 882, def_name = ''vmware.tenantDestIPv4'', def_ty = Ipv4Address\<rparr>,
    \<lparr>def_id = 883, def_name = ''vmware.tenantSourceIPv6'', def_ty = Ipv6Address\<rparr>,
    \<lparr>def_id = 884, def_name = ''vmware.tenantDestIPv6'', def_ty = Ipv6Address\<rparr>,
    \<lparr>def_id = 886, def_name = ''vmware.tenantSourcePort'', def_ty = Unsigned16\<rparr>,
    \<lparr>def_id = 888, def_name = ''vmware.tenantDestPort'', def_ty = Unsigned16\<rparr>,
    \<lparr>def_id = 890, def_name = ''vmware.virtualObsID'', def_ty = IeString\<rparr>]"

definition NOKIA :: "ie_def list" where
  "NOKIA = [
    \<lparr>def_id = 91, def_name = ''nokia.applicationId'', def_ty = Unsigned32\<rparr>,
    \<lparr>def_id = 92, def_name = ''nokia.applicationName'', def_ty = IeString\<rparr>]"

definition enterprise_lookup :: "u32 \<Rightarrow> u16 \<Rightarrow> ie_def option" where
  "enterprise_lookup pen ident =
     (if pen = PEN_VMWARE then find (\<lambda>d. def_id d = ident) VMWARE
      else if pen = PEN_NOKIA then find (\<lambda>d. def_id d = ident) NOKIA
      else None)"

text \<open>\<open>resolve\<close>: PEN 0 is the IANA space, any other PEN a vendor's.\<close>

definition resolve :: "u32 \<Rightarrow> u16 \<Rightarrow> ie_def option" where
  "resolve enterprise_number ident =
     (if enterprise_number = 0 then iana_lookup ident
      else enterprise_lookup enterprise_number ident)"

section \<open>The tables are indexed by id\<close>

lemmas registry_parts = registry_part1_def registry_part2_def registry_part3_def registry_part4_def

lemma registry_ids: "map def_id REGISTRY = [
  1, 2, 3, 4, 5, 6, 7, 8, 9, 10, 11, 12, 13, 14, 15, 16, 17, 18, 21, 22, 23, 24, 27, 28, 29, 30, 31, 32, 33, 34, 35, 36, 37, 40, 41, 42, 52, 53, 56, 57, 58, 59, 60, 61, 62, 63, 70, 80, 81, 82, 83, 85, 86, 88, 89, 128, 129, 130, 131, 136, 139, 144, 145, 148, 150, 151, 152, 153, 154, 155, 156, 157, 160, 161, 176, 177, 178, 179, 180, 181, 182, 183, 184, 185, 186, 187, 189, 192, 195, 205, 206, 224, 225, 226, 227, 228, 230, 233, 234, 235, 243, 244, 245, 256, 277, 300, 302, 305, 306, 309, 318, 322, 323, 324, 325, 351, 352]"
  by (simp add: REGISTRY_def registry_parts)

lemma registry_successive: "successively (\<lambda>a b. unat a < unat b) (map def_id REGISTRY)"
  unfolding registry_ids by simp

lemma registry_sorted: "sorted_wrt (\<lambda>a b. unat a < unat b) (map def_id REGISTRY)"
  using registry_successive
  by (subst (asm) successively_conv_sorted_wrt) (auto intro: transpI)

lemma table_ids_distinct:
  "distinct (map def_id REGISTRY)" "distinct (map def_id VMWARE)" "distinct (map def_id NOKIA)"
proof -
  show "distinct (map def_id REGISTRY)"
    by (rule sorted_wrt_measure_distinct [OF registry_sorted])
qed (simp_all add: VMWARE_def NOKIA_def)

lemma iana_lookup_iff: "iana_lookup ident = Some d \<longleftrightarrow> d \<in> set REGISTRY \<and> def_id d = ident"
  unfolding iana_lookup_def by (rule find_key_iff [OF table_ids_distinct(1)])

definition ie_table :: "u32 \<Rightarrow> ie_def list" where
  "ie_table pen =
     (if pen = 0 then REGISTRY else if pen = PEN_VMWARE then VMWARE
      else if pen = PEN_NOKIA then NOKIA else [])"

lemma ie_table_distinct: "distinct (map def_id (ie_table pen))"
  by (simp add: ie_table_def table_ids_distinct)

lemma resolve_find: "resolve pen ident = find (\<lambda>d. def_id d = ident) (ie_table pen)"
  by (simp add: resolve_def iana_lookup_def enterprise_lookup_def ie_table_def)

text \<open>
  C33. \<open>resolve\<close> is an exact index of the bundled tables: for every PEN and id it
  returns a row exactly when that row is in the table of the PEN and carries the id, so no
  row is shadowed by an earlier one and no id resolves to another id's row.
\<close>

theorem resolve_exact:
  "resolve pen ident = Some d \<longleftrightarrow> d \<in> set (ie_table pen) \<and> def_id d = ident"
  unfolding resolve_find by (rule find_key_iff [OF ie_table_distinct])

end
