(* ===== verification/Ordered_Map.thy ===== *)
theory Ordered_Map
  imports Prelude
begin

text \<open>
  The part of \<open>std::collections::BTreeMap\<close> the cache uses: a finite map that is
  iterated in increasing key order.  The interface is the locale \<open>ordered_map\<close>; the
  model is an association list in strictly increasing key order.  Iteration order is
  observable in the program (row order of a retry or a flush, ties of the LRU eviction),
  so the order is part of the model and not abstracted to a partial function.
\<close>

section \<open>The interface\<close>

locale ordered_map =
  fixes empty :: 'm
    and get :: "'m \<Rightarrow> 'k::linorder \<Rightarrow> 'v option"
    and ins :: "'k \<Rightarrow> 'v \<Rightarrow> 'm \<Rightarrow> 'm"
    and rem :: "'k \<Rightarrow> 'm \<Rightarrow> 'm"
    and keys :: "'m \<Rightarrow> 'k list"
    and invar :: "'m \<Rightarrow> bool"
  assumes get_empty: "get empty k = None"
    and get_ins: "invar m \<Longrightarrow> get (ins k v m) j = (if j = k then Some v else get m j)"
    and get_rem: "invar m \<Longrightarrow> get (rem k m) j = (if j = k then None else get m j)"
    and keys_strict: "invar m \<Longrightarrow> sorted_wrt (<) (keys m)"
    and keys_dom: "invar m \<Longrightarrow> k \<in> set (keys m) \<longleftrightarrow> get m k \<noteq> None"
    and invar_empty: "invar empty"
    and invar_ins: "invar m \<Longrightarrow> invar (ins k v m)"
    and invar_rem: "invar m \<Longrightarrow> invar (rem k m)"
begin

lemma keys_distinct: "invar m \<Longrightarrow> distinct (keys m)"
  using keys_strict [of m] by (simp add: strict_sorted_iff)

lemma length_keys: "invar m \<Longrightarrow> length (keys m) = card (set (keys m))"
  by (simp add: distinct_card keys_distinct)

lemma set_keys_ins: "invar m \<Longrightarrow> set (keys (ins k v m)) = insert k (set (keys m))"
  by (auto simp: keys_dom invar_ins get_ins split: if_splits)

lemma set_keys_rem: "invar m \<Longrightarrow> set (keys (rem k m)) = set (keys m) - {k}"
  by (auto simp: keys_dom invar_rem get_rem split: if_splits)

lemma length_keys_ins:
  "invar m \<Longrightarrow> length (keys (ins k v m)) =
     (if get m k = None then Suc (length (keys m)) else length (keys m))"
  using keys_dom [of m k]
  by (cases "get m k") (simp_all add: length_keys invar_ins set_keys_ins insert_absorb)

lemma length_keys_rem:
  "invar m \<Longrightarrow> length (keys (rem k m)) =
     (if get m k = None then length (keys m) else length (keys m) - 1)"
  using keys_dom [of m k]
  by (cases "get m k") (simp_all add: length_keys invar_rem set_keys_rem)

text \<open>Two maps with the same lookups are iterated over the same keys in the same order.\<close>

lemma keys_eqI:
  assumes "invar m" and "invar n" and "\<And>k. get m k = None \<longleftrightarrow> get n k = None"
  shows "keys m = keys n"
proof (rule sorted_distinct_set_unique)
  show "set (keys m) = set (keys n)"
    using assms by (auto simp: keys_dom)
qed (use assms keys_strict [of m] keys_strict [of n] in \<open>simp_all add: strict_sorted_iff\<close>)

end

section \<open>Sorted association lists\<close>

type_synonym ('k, 'v) btree = "('k \<times> 'v) list"

definition bt_get :: "('k, 'v) btree \<Rightarrow> 'k \<Rightarrow> 'v option" where
  "bt_get m k = map_of m k"

fun bt_insert :: "'k::linorder \<Rightarrow> 'v \<Rightarrow> ('k, 'v) btree \<Rightarrow> ('k, 'v) btree" where
  "bt_insert k v [] = [(k, v)]"
| "bt_insert k v ((j, u) # m) =
     (if k < j then (k, v) # (j, u) # m
      else if k = j then (k, v) # m
      else (j, u) # bt_insert k v m)"

definition bt_remove :: "'k \<Rightarrow> ('k, 'v) btree \<Rightarrow> ('k, 'v) btree" where
  "bt_remove k m = filter (\<lambda>(j, _). j \<noteq> k) m"

definition bt_keys :: "('k, 'v) btree \<Rightarrow> 'k list" where
  "bt_keys m = map fst m"

text \<open>\<open>into_iter().collect()\<close> from a list of pairs: insertion in list order.\<close>

definition bt_collect :: "('k::linorder \<times> 'v) list \<Rightarrow> ('k, 'v) btree" where
  "bt_collect ps = foldl (\<lambda>m (k, v). bt_insert k v m) [] ps"

definition bt_ok :: "('k::linorder, 'v) btree \<Rightarrow> bool" where
  "bt_ok m \<longleftrightarrow> sorted_wrt (<) (map fst m)"

lemma bt_ok_Nil [simp]: "bt_ok []"
  by (simp add: bt_ok_def)

lemma bt_ok_Cons: "bt_ok ((k, v) # m) \<longleftrightarrow> (\<forall>j \<in> fst ` set m. k < j) \<and> bt_ok m"
  by (simp add: bt_ok_def)

lemma bt_get_insert: "bt_get (bt_insert k v m) j = (if j = k then Some v else bt_get m j)"
  by (induction k v m rule: bt_insert.induct) (auto simp: bt_get_def)

lemma fst_set_bt_insert: "fst ` set (bt_insert k v m) = insert k (fst ` set m)"
  by (induction k v m rule: bt_insert.induct) auto

lemma bt_ok_insert: "bt_ok m \<Longrightarrow> bt_ok (bt_insert k v m)"
  by (induction k v m rule: bt_insert.induct)
    (force simp: bt_ok_Cons fst_set_bt_insert)+

lemma bt_get_remove: "bt_get (bt_remove k m) j = (if j = k then None else bt_get m j)"
  by (induction m) (auto simp: bt_get_def bt_remove_def)

lemma bt_ok_remove: "bt_ok m \<Longrightarrow> bt_ok (bt_remove k m)"
  by (induction m) (auto simp: bt_ok_def bt_remove_def)

interpretation bt: ordered_map "[]" bt_get bt_insert bt_remove bt_keys bt_ok
proof
  show "k \<in> set (bt_keys m) \<longleftrightarrow> bt_get m k \<noteq> None" for k and m :: "('a, 'b) btree"
    by (simp add: bt_keys_def bt_get_def map_of_eq_None_iff)
qed (auto simp: bt_get_def [of "[]"] bt_get_insert bt_get_remove bt_ok_insert bt_ok_remove
    bt_keys_def bt_ok_def [symmetric])

section \<open>Facts of the concrete lists\<close>

lemma bt_distinct_keys: "bt_ok m \<Longrightarrow> distinct (map fst m)"
  using bt.keys_distinct [of m] by (simp add: bt_keys_def)

lemma bt_get_iff: "bt_ok m \<Longrightarrow> bt_get m k = Some v \<longleftrightarrow> (k, v) \<in> set m"
  by (simp add: bt_get_def bt_distinct_keys)

lemma length_bt_insert:
  "bt_ok m \<Longrightarrow>
     length (bt_insert k v m) = (if bt_get m k = None then Suc (length m) else length m)"
  using bt.length_keys_ins [of m k v] by (simp add: bt_keys_def)

lemma length_bt_remove:
  "bt_ok m \<Longrightarrow>
     length (bt_remove k m) = (if bt_get m k = None then length m else length m - 1)"
  using bt.length_keys_rem [of m k] by (simp add: bt_keys_def)

lemma bt_insert_snoc: "(\<forall>j \<in> fst ` set m. j < k) \<Longrightarrow> bt_insert k v m = m @ [(k, v)]"
  by (induction k v m rule: bt_insert.induct) auto

lemma bt_collect_sorted: "bt_ok m \<Longrightarrow> bt_collect m = m"
proof (induction m rule: rev_induct)
  case Nil
  then show ?case by (simp add: bt_collect_def)
next
  case (snoc p m)
  then have "bt_ok m" and "\<forall>j \<in> fst ` set m. j < fst p"
    by (auto simp: bt_ok_def sorted_wrt_append)
  with snoc.IH show ?case
    by (simp add: bt_collect_def case_prod_beta bt_insert_snoc)
qed

text \<open>The sum of a weight over all entries, under insertion and removal.\<close>

definition bt_weight :: "('v \<Rightarrow> nat) \<Rightarrow> ('k, 'v) btree \<Rightarrow> nat" where
  "bt_weight f m = sum_list (map (f \<circ> snd) m)"

definition opt_weight :: "('v \<Rightarrow> nat) \<Rightarrow> 'v option \<Rightarrow> nat" where
  "opt_weight f x = (case x of None \<Rightarrow> 0 | Some v \<Rightarrow> f v)"

lemma bt_weight_insert:
  "bt_ok m \<Longrightarrow> bt_weight f (bt_insert k v m) + opt_weight f (bt_get m k) = bt_weight f m + f v"
proof (induction k v m rule: bt_insert.induct)
  case (2 k v j u m)
  have "map_of m k = None" if "k < j"
    using that 2(2) by (auto simp: bt_ok_Cons map_of_eq_None_iff)
  moreover have "map_of m k = None" if "k = j"
    using that 2(2) by (auto simp: bt_ok_Cons map_of_eq_None_iff)
  ultimately show ?case
    using 2 by (auto simp: bt_weight_def opt_weight_def bt_get_def bt_ok_Cons)
qed (simp add: bt_weight_def opt_weight_def bt_get_def)

lemma bt_remove_absent: "bt_get m k = None \<Longrightarrow> bt_remove k m = m"
  by (force simp: bt_get_def bt_remove_def map_of_eq_None_iff filter_id_conv)

lemma bt_weight_remove:
  "bt_ok m \<Longrightarrow> bt_weight f (bt_remove k m) + opt_weight f (bt_get m k) = bt_weight f m"
proof (induction m)
  case (Cons p m)
  obtain j v where p: "p = (j, v)" by (cases p)
  show ?case
  proof (cases "j = k")
    case True
    then have "bt_get m k = None"
      using Cons.prems p by (auto simp: bt_ok_Cons bt_get_def map_of_eq_None_iff)
    then have "bt_remove k m = m" by (rule bt_remove_absent)
    with True p show ?thesis
      by (simp add: bt_weight_def opt_weight_def bt_get_def bt_remove_def)
  next
    case False
    with Cons p show ?thesis
      by (simp add: bt_weight_def opt_weight_def bt_get_def bt_remove_def bt_ok_Cons)
  qed
qed (simp add: bt_weight_def opt_weight_def bt_get_def bt_remove_def)

end
