(* ===== verification/Cache.thy ===== *)
theory Cache
  imports Ordered_Map "HOL-Library.Product_Lexorder"
begin

text \<open>
  \<open>cache.rs\<close>: the template cache, the scan state of the worker.  Its two
  \<open>BTreeMap\<close>s are the ordered maps of \<open>Ordered_Map\<close>, keyed by
  \<open>(exporter, obs_domain, template_id)\<close> in the derived lexicographic order.
\<close>

section \<open>Data\<close>

definition DEFAULT_CAP_ENTRIES :: u32 where "DEFAULT_CAP_ENTRIES = 100000"

definition DEFAULT_CAP_PENDING_BYTES :: u32 where "DEFAULT_CAP_PENDING_BYTES = 4 * 1024 * 1024"

datatype template_kind = TkData | TkOptions

fun kind_as_str :: "template_kind \<Rightarrow> string" where
  "kind_as_str TkData = ''data''"
| "kind_as_str TkOptions = ''options''"

record field_spec =
  fs_ie_id :: u16
  fs_enterprise_number :: u32
  fs_length :: u16
  fs_name :: string
  fs_ie_type :: string

definition is_variable :: "field_spec \<Rightarrow> bool" where
  "is_variable f \<longleftrightarrow> fs_length f = 0xFFFF"

datatype template_key =
  TemplateKey (tk_exporter: string) (tk_obs_domain: u32) (tk_template_id: u16)

text \<open>\<open>derive(PartialOrd, Ord)\<close>: lexicographic in the order of the fields.\<close>

definition key_tuple :: "template_key \<Rightarrow> string \<times> u32 \<times> u16" where
  "key_tuple k = (tk_exporter k, tk_obs_domain k, tk_template_id k)"

instantiation template_key :: linorder
begin

definition less_eq_template_key :: "template_key \<Rightarrow> template_key \<Rightarrow> bool" where
  "less_eq_template_key a b \<longleftrightarrow> key_tuple a \<le> key_tuple b"

definition less_template_key :: "template_key \<Rightarrow> template_key \<Rightarrow> bool" where
  "less_template_key a b \<longleftrightarrow> key_tuple a < key_tuple b"

instance
proof
  fix a b c :: template_key
  show "a < b \<longleftrightarrow> a \<le> b \<and> \<not> b \<le> a"
    by (auto simp: less_template_key_def less_eq_template_key_def)
  show "a \<le> a" by (simp add: less_eq_template_key_def)
  show "a \<le> b \<Longrightarrow> b \<le> c \<Longrightarrow> a \<le> c"
    by (simp add: less_eq_template_key_def)
  show "a \<le> b \<Longrightarrow> b \<le> a \<Longrightarrow> a = b"
    by (cases a; cases b) (force simp: less_eq_template_key_def key_tuple_def)
  show "a \<le> b \<or> b \<le> a"
    by (simp add: less_eq_template_key_def linear)
qed

end

record template_entry =
  te_kind :: template_kind
  te_fields :: "field_spec list"
  te_scope_field_count :: u16
  te_first_seen :: i64
  te_last_seen :: i64
  te_use_count :: u64

record pending_record =
  pr_export_time :: "i64 option"
  pr_sequence :: "u64 option"
  pr_version :: string
  pr_sys_uptime_ms :: "u64 option"
  pr_bytes :: bytes

record template_cache =
  tc_entries :: "(template_key, template_entry) btree"
  tc_pending :: "(template_key, pending_record list) btree"
  tc_cap_entries :: u32
  tc_cap_pending_bytes :: u32
  tc_pending_bytes :: u32

definition cache_new :: template_cache where
  "cache_new =
     \<lparr>tc_entries = [], tc_pending = [], tc_cap_entries = DEFAULT_CAP_ENTRIES,
      tc_cap_pending_bytes = DEFAULT_CAP_PENDING_BYTES, tc_pending_bytes = 0\<rparr>"

section \<open>Eviction\<close>

text \<open>
  \<open>Iterator::min_by_key\<close>: the first of the least elements.  The LRU victim is the
  entry of least \<open>last_seen\<close> (a signed comparison), the least key on a tie.
\<close>

fun min_by_key :: "('a \<Rightarrow> int) \<Rightarrow> 'a list \<Rightarrow> 'a option" where
  "min_by_key f [] = None"
| "min_by_key f (x # xs) = Some (foldl (\<lambda>best y. if f y < f best then y else best) x xs)"

definition lru_victim :: "(template_key, template_entry) btree \<Rightarrow> template_key option" where
  "lru_victim m = map_option fst (min_by_key (\<lambda>(_, e). sint (te_last_seen e)) m)"

lemma foldl_min_in: "foldl (\<lambda>best y. if f y < (f best :: int) then y else best) x xs \<in> insert x (set xs)"
  by (induction xs arbitrary: x) (auto split: if_splits)

lemma min_by_key_in: "min_by_key f xs = Some x \<Longrightarrow> x \<in> set xs"
  by (cases xs) (use foldl_min_in in force)+

lemma lru_victim_in: "lru_victim m = Some k \<Longrightarrow> k \<in> fst ` set m"
  by (force simp: lru_victim_def dest: min_by_key_in)

lemma length_bt_remove_less: "k \<in> fst ` set m \<Longrightarrow> length (bt_remove k m) < length m"
proof -
  assume "k \<in> fst ` set m"
  then obtain e where "(k, e) \<in> set m" by force
  then show ?thesis unfolding bt_remove_def by (rule length_filter_less) simp
qed

function evict_entries ::
  "u32 \<Rightarrow> (template_key, template_entry) btree \<Rightarrow> (template_key, template_entry) btree" where
  "evict_entries cap m =
     (if (of_nat (length m) :: u32) > cap
      then (case lru_victim m of
              Some victim \<Rightarrow> evict_entries cap (bt_remove victim m)
            | None \<Rightarrow> m)
      else m)"
  by pat_completeness auto
termination
  by (relation "measure (\<lambda>(cap, m). length m)") (auto dest: lru_victim_in intro: length_bt_remove_less)

declare evict_entries.simps [simp del]

definition evict_if_needed :: "template_cache \<Rightarrow> template_cache" where
  "evict_if_needed c = c\<lparr>tc_entries := evict_entries (tc_cap_entries c) (tc_entries c)\<rparr>"

section \<open>Operations\<close>

definition upsert :: "template_key \<Rightarrow> template_entry \<Rightarrow> template_cache \<Rightarrow> template_cache" where
  "upsert key entry c =
     (let entry' = (case bt_get (tc_entries c) key of
                      Some old \<Rightarrow> entry\<lparr>te_first_seen := te_first_seen old,
                                         te_use_count := te_use_count old\<rparr>
                    | None \<Rightarrow> entry)
      in evict_if_needed (c\<lparr>tc_entries := bt_insert key entry' (tc_entries c)\<rparr>))"

definition use_template ::
  "template_key \<Rightarrow> i64 \<Rightarrow> template_cache \<Rightarrow> template_entry option \<times> template_cache" where
  "use_template key now c =
     (case bt_get (tc_entries c) key of
        Some e \<Rightarrow>
          let e' = e\<lparr>te_use_count := te_use_count e + 1, te_last_seen := now\<rparr>
          in (Some e', c\<lparr>tc_entries := bt_insert key e' (tc_entries c)\<rparr>)
      | None \<Rightarrow> (None, c))"

definition cache_peek :: "template_cache \<Rightarrow> template_key \<Rightarrow> template_entry option" where
  "cache_peek c key = bt_get (tc_entries c) key"

definition saturating_add :: "'a::len word \<Rightarrow> 'a word \<Rightarrow> 'a word" where
  "saturating_add a b = (if unat a + unat b < 2 ^ LENGTH('a) then a + b else - 1)"

definition saturating_sub :: "'a::len word \<Rightarrow> 'a word \<Rightarrow> 'a word" where
  "saturating_sub a b = (if b \<le> a then a - b else 0)"

definition push_pending ::
  "template_key \<Rightarrow> pending_record \<Rightarrow> template_cache \<Rightarrow> bool \<times> template_cache" where
  "push_pending key rec c =
     (let cost = (of_nat (length (pr_bytes rec)) :: u32)
      in if saturating_add (tc_pending_bytes c) cost > tc_cap_pending_bytes c then (False, c)
         else (True,
           c\<lparr>tc_pending_bytes := tc_pending_bytes c + cost,
             tc_pending :=
               bt_insert key (unwrap_or (bt_get (tc_pending c) key) [] @ [rec]) (tc_pending c)\<rparr>))"

definition take_pending ::
  "template_key \<Rightarrow> template_cache \<Rightarrow> pending_record list \<times> template_cache" where
  "take_pending key c =
     (let recs = unwrap_or (bt_get (tc_pending c) key) [];
          freed = sum_list (map (\<lambda>r. length (pr_bytes r)) recs)
      in (recs,
          c\<lparr>tc_pending := bt_remove key (tc_pending c),
            tc_pending_bytes := saturating_sub (tc_pending_bytes c) (of_nat freed)\<rparr>))"

definition pending_keys :: "template_cache \<Rightarrow> template_key list" where
  "pending_keys c = bt_keys (tc_pending c)"

definition drain_pending ::
  "template_cache \<Rightarrow> (template_key \<times> pending_record list) list \<times> template_cache" where
  "drain_pending c = (tc_pending c, c\<lparr>tc_pending_bytes := 0, tc_pending := []\<rparr>)"

definition pending_is_empty :: "template_cache \<Rightarrow> bool" where
  "pending_is_empty c \<longleftrightarrow> tc_pending c = []"

section \<open>Serialisation\<close>

text \<open>
  \<open>to_bytes\<close> and \<open>from_bytes\<close> flatten the maps into the pair arrays of
  \<open>CacheDto\<close>.  The JSON codec itself is \<open>serde_json\<close>, a parameter:
  \<open>to_vec\<close> may fail (\<open>None\<close>, and the code then stores no bytes), \<open>from_slice\<close>
  returns \<open>None\<close> on malformed input.
\<close>

record cache_dto =
  dto_entries :: "(template_key \<times> template_entry) list"
  dto_pending :: "(template_key \<times> pending_record list) list"
  dto_cap_entries :: u32
  dto_cap_pending_bytes :: u32

definition cache_to_dto :: "template_cache \<Rightarrow> cache_dto" where
  "cache_to_dto c =
     \<lparr>dto_entries = map (\<lambda>(k, v). (k, v)) (tc_entries c),
      dto_pending = map (\<lambda>(k, v). (k, v)) (tc_pending c),
      dto_cap_entries = tc_cap_entries c,
      dto_cap_pending_bytes = tc_cap_pending_bytes c\<rparr>"

definition cache_of_dto :: "cache_dto \<Rightarrow> template_cache" where
  "cache_of_dto dto =
     (let c = \<lparr>tc_entries = bt_collect (dto_entries dto), tc_pending = bt_collect (dto_pending dto),
               tc_cap_entries = dto_cap_entries dto,
               tc_cap_pending_bytes = dto_cap_pending_bytes dto, tc_pending_bytes = 0\<rparr>
      in c\<lparr>tc_pending_bytes :=
             sum_list (map (\<lambda>r. of_nat (length (pr_bytes r))) (concat (map snd (tc_pending c))))\<rparr>)"

definition to_bytes :: "(cache_dto \<Rightarrow> bytes option) \<Rightarrow> template_cache \<Rightarrow> bytes" where
  "to_bytes to_vec c = unwrap_or (to_vec (cache_to_dto c)) []"

definition from_bytes :: "(bytes \<Rightarrow> cache_dto option) \<Rightarrow> bytes \<Rightarrow> template_cache" where
  "from_bytes from_slice bs =
     (if bs = [] then cache_new
      else case from_slice bs of
             Some dto \<Rightarrow> cache_of_dto dto
           | None \<Rightarrow> cache_new)"

section \<open>Observations and invariant\<close>

definition pending_of :: "template_cache \<Rightarrow> template_key \<Rightarrow> pending_record list" where
  "pending_of c key = unwrap_or (bt_get (tc_pending c) key) []"

definition records_bytes :: "pending_record list \<Rightarrow> nat" where
  "records_bytes rs = sum_list (map (\<lambda>r. length (pr_bytes r)) rs)"

definition pending_total :: "template_cache \<Rightarrow> nat" where
  "pending_total c = bt_weight records_bytes (tc_pending c)"

lemma pending_total_update [simp]:
  "pending_total (c\<lparr>tc_pending_bytes := n, tc_pending := m\<rparr>) = bt_weight records_bytes m"
  "pending_total (c\<lparr>tc_pending := m, tc_pending_bytes := n\<rparr>) = bt_weight records_bytes m"
  by (simp_all add: pending_total_def)

definition cache_ok :: "template_cache \<Rightarrow> bool" where
  "cache_ok c \<longleftrightarrow>
     bt_ok (tc_entries c) \<and> bt_ok (tc_pending c) \<and>
     (\<forall>rs \<in> snd ` set (tc_pending c). rs \<noteq> []) \<and>
     length (tc_entries c) \<le> unat (tc_cap_entries c) \<and>
     Suc (unat (tc_cap_entries c)) < 2 ^ 32 \<and>
     Suc (unat (tc_cap_pending_bytes c)) < 2 ^ 32 \<and>
     unat (tc_pending_bytes c) = pending_total c \<and>
     tc_pending_bytes c \<le> tc_cap_pending_bytes c"

lemma cache_ok_new [cache_inv]: "cache_ok cache_new"
  by (simp add: cache_ok_def cache_new_def pending_total_def bt_weight_def
      DEFAULT_CAP_ENTRIES_def DEFAULT_CAP_PENDING_BYTES_def)

subsection \<open>Eviction\<close>

lemma foldl_min_le:
  "f (foldl (\<lambda>best y. if f y < (f best :: int) then y else best) x xs) \<le> f x \<and>
   (\<forall>y \<in> set xs. f (foldl (\<lambda>best y. if f y < f best then y else best) x xs) \<le> f y)"
proof (induction xs arbitrary: x)
  case (Cons y xs)
  show ?case
    using Cons.IH [of y] Cons.IH [of x] by auto
qed simp

lemma min_by_key_le: "min_by_key f xs = Some x \<Longrightarrow> y \<in> set xs \<Longrightarrow> f x \<le> f y"
  by (cases xs) (use foldl_min_le [of f] in auto)

lemma lru_victim_None: "lru_victim m = None \<longleftrightarrow> m = []"
  by (cases m) (auto simp: lru_victim_def)

lemma lru_victim_least:
  assumes "bt_ok m" and "lru_victim m = Some k" and "bt_get m k = Some e" and "bt_get m j = Some e'"
  shows "sint (te_last_seen e) \<le> sint (te_last_seen e')"
proof -
  from assms(2) obtain e0 where "min_by_key (\<lambda>(_, e). sint (te_last_seen e)) m = Some (k, e0)"
    by (auto simp: lru_victim_def)
  note least = min_by_key_le [OF this, of "(j, e')"] and found = min_by_key_in [OF this]
  have "e0 = e"
    using assms found by (simp add: bt_get_iff [symmetric])
  with least assms show ?thesis by (simp add: bt_get_iff)
qed

lemma evict_entries_fits:
  "length m \<le> unat cap \<Longrightarrow> evict_entries cap m = m"
proof -
  assume fits: "length m \<le> unat cap"
  moreover have "unat cap < 2 ^ 32" using unsigned_less [where w = cap and 'a = nat] by simp
  ultimately have "\<not> (of_nat (length m) :: u32) > cap"
    by (simp add: word_less_nat_alt unat_of_nat)
  then show ?thesis by (simp add: evict_entries.simps)
qed

lemma evict_entries_one:
  assumes "bt_ok m" and "length m = Suc (unat cap)" and "Suc (unat cap) < 2 ^ 32"
  shows "\<exists>victim. lru_victim m = Some victim \<and> victim \<in> fst ` set m \<and>
           evict_entries cap m = bt_remove victim m"
proof -
  have over: "(of_nat (length m) :: u32) > cap"
    using assms by (simp add: word_less_nat_alt unat_of_nat del: of_nat_Suc)
  obtain victim where v: "lru_victim m = Some victim"
    using assms(2) lru_victim_None [of m] by (cases "lru_victim m") auto
  then have "victim \<in> fst ` set m" by (rule lru_victim_in)
  then have "bt_get m victim \<noteq> None" by (simp add: bt_get_def map_of_eq_None_iff)
  then have "length (bt_remove victim m) = unat cap"
    using assms by (simp add: length_bt_remove)
  then have "evict_entries cap (bt_remove victim m) = bt_remove victim m"
    by (simp add: evict_entries_fits)
  with over v have "evict_entries cap m = bt_remove victim m"
    by (subst evict_entries.simps) simp
  with v \<open>victim \<in> fst ` set m\<close> show ?thesis by blast
qed

subsection \<open>Upsert\<close>

text \<open>The layout that \<open>upsert\<close> stores: statistics of a redefined id are kept.\<close>

definition merged_entry :: "template_cache \<Rightarrow> template_key \<Rightarrow> template_entry \<Rightarrow> template_entry" where
  "merged_entry c key entry =
     (case bt_get (tc_entries c) key of
        Some old \<Rightarrow> entry\<lparr>te_first_seen := te_first_seen old, te_use_count := te_use_count old\<rparr>
      | None \<Rightarrow> entry)"

lemma upsert_eq:
  "upsert key entry c =
     c\<lparr>tc_entries := evict_entries (tc_cap_entries c)
          (bt_insert key (merged_entry c key entry) (tc_entries c))\<rparr>"
  by (simp add: upsert_def merged_entry_def evict_if_needed_def)

lemma upsert_entries_cases:
  fixes key entry
  assumes "cache_ok c"
  defines "m \<equiv> bt_insert key (merged_entry c key entry) (tc_entries c)"
  obtains (fits) "length m \<le> unat (tc_cap_entries c)" and "tc_entries (upsert key entry c) = m"
  | (evicts) victim where "bt_get (tc_entries c) key = None"
      and "length (tc_entries c) = unat (tc_cap_entries c)"
      and "lru_victim m = Some victim" and "victim \<in> fst ` set m"
      and "tc_entries (upsert key entry c) = bt_remove victim m"
proof -
  have ok: "bt_ok (tc_entries c)" "length (tc_entries c) \<le> unat (tc_cap_entries c)"
    "Suc (unat (tc_cap_entries c)) < 2 ^ 32"
    using assms by (simp_all add: cache_ok_def)
  then have len: "length m = (if bt_get (tc_entries c) key = None
      then Suc (length (tc_entries c)) else length (tc_entries c))"
    by (simp add: m_def length_bt_insert)
  have up: "tc_entries (upsert key entry c) = evict_entries (tc_cap_entries c) m"
    by (simp add: upsert_eq m_def)
  show thesis
  proof (cases "length m \<le> unat (tc_cap_entries c)")
    case True
    then show thesis using up by (intro fits) (simp_all add: evict_entries_fits)
  next
    case False
    with len ok have full: "bt_get (tc_entries c) key = None"
      "length (tc_entries c) = unat (tc_cap_entries c)" "length m = Suc (unat (tc_cap_entries c))"
      by (auto split: if_splits)
    have "bt_ok m" using ok by (simp add: m_def bt_ok_insert)
    then obtain victim where "lru_victim m = Some victim" "victim \<in> fst ` set m"
      "evict_entries (tc_cap_entries c) m = bt_remove victim m"
      using evict_entries_one [OF _ full(3) ok(3)] by blast
    with full up show thesis by (intro evicts) simp_all
  qed
qed

lemma upsert_frame [simp]:
  "tc_pending (upsert key entry c) = tc_pending c"
  "tc_cap_entries (upsert key entry c) = tc_cap_entries c"
  "tc_cap_pending_bytes (upsert key entry c) = tc_cap_pending_bytes c"
  "tc_pending_bytes (upsert key entry c) = tc_pending_bytes c"
  by (simp_all add: upsert_eq)

lemma cache_ok_upsert [cache_inv]:
  assumes "cache_ok c"
  shows "cache_ok (upsert key entry c)"
proof -
  let ?m = "bt_insert key (merged_entry c key entry) (tc_entries c)"
  have ok: "bt_ok ?m" using assms by (simp add: cache_ok_def bt_ok_insert)
  have "bt_ok (tc_entries (upsert key entry c)) \<and>
        length (tc_entries (upsert key entry c)) \<le> unat (tc_cap_entries c)"
    using assms
  proof (cases rule: upsert_entries_cases [where key = key and entry = entry])
    case fits
    with ok show ?thesis by simp
  next
    case (evicts victim)
    have len: "length ?m = Suc (unat (tc_cap_entries c))"
      using evicts assms by (simp add: cache_ok_def length_bt_insert)
    have "length (bt_remove victim ?m) < length ?m"
      using evicts by (intro length_bt_remove_less)
    with ok evicts len show ?thesis by (simp add: bt_ok_remove)
  qed
  with assms show ?thesis by (simp add: cache_ok_def pending_total_def)
qed

lemma upsert_peek_other:
  assumes "cache_ok c" and "j \<noteq> key"
  shows "cache_peek (upsert key entry c) j \<in> {None, cache_peek c j}"
  using assms(1)
  by (cases rule: upsert_entries_cases [where key = key and entry = entry])
    (use assms(2) in \<open>simp_all add: cache_peek_def bt_get_insert bt_get_remove\<close>)

lemma upsert_peek_same:
  assumes "cache_ok c"
  shows "cache_peek (upsert key entry c) key \<in> {None, Some (merged_entry c key entry)}"
  using assms
  by (cases rule: upsert_entries_cases [where key = key and entry = entry])
    (simp_all add: cache_peek_def bt_get_insert bt_get_remove)

subsection \<open>Use\<close>

definition touch :: "i64 \<Rightarrow> template_entry \<Rightarrow> template_entry" where
  "touch now e = e\<lparr>te_use_count := te_use_count e + 1, te_last_seen := now\<rparr>"

lemma use_template_eq:
  "use_template key now c =
     (map_option (touch now) (cache_peek c key),
      case cache_peek c key of
        None \<Rightarrow> c
      | Some e \<Rightarrow> c\<lparr>tc_entries := bt_insert key (touch now e) (tc_entries c)\<rparr>)"
  by (simp add: use_template_def cache_peek_def touch_def Let_def split: option.splits)

lemma use_template_frame [simp]:
  "tc_pending (snd (use_template key now c)) = tc_pending c"
  "tc_cap_entries (snd (use_template key now c)) = tc_cap_entries c"
  "tc_cap_pending_bytes (snd (use_template key now c)) = tc_cap_pending_bytes c"
  "tc_pending_bytes (snd (use_template key now c)) = tc_pending_bytes c"
  by (simp_all add: use_template_eq split: option.splits)

lemma use_template_peek:
  "cache_peek (snd (use_template key now c)) j =
     (if j = key then map_option (touch now) (cache_peek c key) else cache_peek c j)"
  by (simp add: use_template_eq cache_peek_def bt_get_insert split: option.splits)

lemma cache_ok_use [cache_inv]: "cache_ok c \<Longrightarrow> cache_ok (snd (use_template key now c))"
  by (auto simp: use_template_eq cache_ok_def pending_total_def bt_ok_insert length_bt_insert
      cache_peek_def split: option.splits)

subsection \<open>The pending buffer\<close>

lemma pending_total_insert:
  "cache_ok c \<Longrightarrow>
     bt_weight records_bytes (bt_insert key (pending_of c key @ [rec]) (tc_pending c)) =
       pending_total c + length (pr_bytes rec)"
  using bt_weight_insert [of "tc_pending c" records_bytes key "pending_of c key @ [rec]"]
  by (cases "bt_get (tc_pending c) key")
    (simp_all add: cache_ok_def pending_total_def pending_of_def opt_weight_def records_bytes_def)

lemma pending_total_remove:
  "cache_ok c \<Longrightarrow>
     bt_weight records_bytes (bt_remove key (tc_pending c)) =
       pending_total c - records_bytes (pending_of c key) \<and>
     records_bytes (pending_of c key) \<le> pending_total c"
  using bt_weight_remove [of "tc_pending c" records_bytes key]
  by (cases "bt_get (tc_pending c) key")
    (auto simp: cache_ok_def pending_total_def pending_of_def opt_weight_def records_bytes_def)

lemma unat_cap_bound: "unat (w :: u32) < 2 ^ 32"
  using unsigned_less [where w = w and 'a = nat] by simp

lemma saturating_add_le:
  assumes "unat b + k < 2 ^ 32"
  shows "saturating_add b (of_nat k :: u32) \<le> cap \<longleftrightarrow> unat b + k \<le> unat cap"
  using assms by (simp add: saturating_add_def word_le_nat_alt unat_of_nat unat_word_ariths)

lemma saturating_add_over:
  assumes "\<not> unat b + k < 2 ^ 32" and "k < 2 ^ 32"
  shows "saturating_add b (of_nat k :: u32) = - 1"
  using assms by (simp add: saturating_add_def unat_of_nat)

text \<open>
  The push, in exact arithmetic: the wrapping \<open>u32\<close> accounting never wraps.  The
  invariant excludes a cap of \<open>u32::MAX\<close>, which the saturated sum could not exceed.
\<close>

lemma push_pending_eq:
  assumes "cache_ok c" and "length (pr_bytes rec) < 2 ^ 32"
  shows "push_pending key rec c =
     (if pending_total c + length (pr_bytes rec) \<le> unat (tc_cap_pending_bytes c)
      then (True,
        c\<lparr>tc_pending_bytes := of_nat (pending_total c + length (pr_bytes rec)),
          tc_pending := bt_insert key (pending_of c key @ [rec]) (tc_pending c)\<rparr>)
      else (False, c))"
proof -
  let ?k = "length (pr_bytes rec)" and ?b = "tc_pending_bytes c" and ?cap = "tc_cap_pending_bytes c"
  have b: "unat ?b = pending_total c" using assms(1) by (simp add: cache_ok_def)
  have "saturating_add ?b (of_nat ?k) > ?cap \<longleftrightarrow> \<not> pending_total c + ?k \<le> unat ?cap"
  proof (cases "unat ?b + ?k < 2 ^ 32")
    case True
    then show ?thesis using saturating_add_le [OF True, of ?cap] b by (simp add: not_le [symmetric])
  next
    case False
    have cap: "Suc (unat ?cap) < 2 ^ 32" using assms(1) by (simp add: cache_ok_def)
    have "unat (- 1 :: u32) = 2 ^ 32 - 1" by (simp add: unsigned_minus_1_eq_mask mask_eq_exp_minus_1)
    with cap have "?cap < - 1" by (simp add: word_less_nat_alt del: word_order.not_eq_extremum)
    then show ?thesis
      using saturating_add_over [OF False assms(2)] False b cap by simp
  qed
  moreover have "?b + of_nat ?k = of_nat (pending_total c + ?k)"
    by (simp add: b [symmetric])
  ultimately show ?thesis
    by (simp add: push_pending_def pending_of_def Let_def)
qed

lemma pending_of_update [simp]:
  "pending_of (c\<lparr>tc_pending_bytes := n, tc_pending := m\<rparr>) key = unwrap_or (bt_get m key) []"
  "pending_of (c\<lparr>tc_pending := m, tc_pending_bytes := n\<rparr>) key = unwrap_or (bt_get m key) []"
  by (simp_all add: pending_of_def)

lemma push_pending_frame [simp]:
  "tc_entries (snd (push_pending key rec c)) = tc_entries c"
  "tc_cap_entries (snd (push_pending key rec c)) = tc_cap_entries c"
  "tc_cap_pending_bytes (snd (push_pending key rec c)) = tc_cap_pending_bytes c"
  by (simp_all add: push_pending_def Let_def)

lemma snd_set_bt_insert: "x \<in> snd ` set (bt_insert k v m) \<Longrightarrow> x = v \<or> x \<in> snd ` set m"
  by (induction k v m rule: bt_insert.induct) (auto split: if_splits)

lemma unat_of_nat_u32: "k < 2 ^ 32 \<Longrightarrow> unat (of_nat k :: u32) = k"
  by (simp add: unat_of_nat)

lemma cache_ok_push [cache_inv]:
  assumes "cache_ok c" and "length (pr_bytes rec) < 2 ^ 32"
  shows "cache_ok (snd (push_pending key rec c))"
proof -
  obtain n where n: "n = pending_total c + length (pr_bytes rec)" by simp
  show ?thesis
  proof (cases "n \<le> unat (tc_cap_pending_bytes c)")
    case True
    then have u: "unat (of_nat n :: u32) = n"
      using unat_cap_bound [of "tc_cap_pending_bytes c"] by (intro unat_of_nat_u32) simp
    have "rs \<noteq> []"
      if "rs \<in> snd ` set (bt_insert key (pending_of c key @ [rec]) (tc_pending c))" for rs
      using snd_set_bt_insert [OF that] assms(1) by (auto simp: cache_ok_def)
    moreover have "bt_weight records_bytes
        (bt_insert key (pending_of c key @ [rec]) (tc_pending c)) = n"
      using pending_total_insert [OF assms(1)] n by simp
    ultimately show ?thesis
      using True assms u
      by (simp add: push_pending_eq n [symmetric] cache_ok_def bt_ok_insert word_le_nat_alt)
  next
    case False
    with assms n show ?thesis by (simp add: push_pending_eq)
  qed
qed

lemma take_pending_eq:
  assumes "cache_ok c"
  shows "take_pending key c =
     (pending_of c key,
      c\<lparr>tc_pending := bt_remove key (tc_pending c),
        tc_pending_bytes := of_nat (pending_total c - records_bytes (pending_of c key))\<rparr>)"
proof -
  let ?f = "records_bytes (pending_of c key)"
  have b: "unat (tc_pending_bytes c) = pending_total c" and f: "?f \<le> pending_total c"
    using assms pending_total_remove [OF assms, of key] by (simp_all add: cache_ok_def)
  then have "unat (of_nat ?f :: u32) = ?f"
    using unat_cap_bound [of "tc_pending_bytes c"] by (simp add: unat_of_nat)
  with b f have "saturating_sub (tc_pending_bytes c) (of_nat ?f) = of_nat (pending_total c - ?f)"
    by (simp add: saturating_sub_def word_le_nat_alt of_nat_diff b [symmetric])
  then show ?thesis
    by (simp add: take_pending_def pending_of_def records_bytes_def Let_def)
qed

lemma set_bt_remove: "set (bt_remove k m) \<subseteq> set m"
  by (auto simp: bt_remove_def)

lemma cache_ok_take [cache_inv]:
  assumes "cache_ok c"
  shows "cache_ok (snd (take_pending key c))"
proof -
  obtain n where n: "n = pending_total c - records_bytes (pending_of c key)" by simp
  have b: "unat (tc_pending_bytes c) = pending_total c"
    and cap: "unat (tc_pending_bytes c) \<le> unat (tc_cap_pending_bytes c)"
    using assms by (simp_all add: cache_ok_def word_le_nat_alt)
  then have "n < 2 ^ 32" using n unat_cap_bound [of "tc_pending_bytes c"] by linarith
  then have u: "unat (of_nat n :: u32) = n" by (rule unat_of_nat_u32)
  have "bt_weight records_bytes (bt_remove key (tc_pending c)) = n"
    using pending_total_remove [OF assms] n by simp
  moreover have "\<forall>rs \<in> snd ` set (bt_remove key (tc_pending c)). rs \<noteq> []"
    using assms set_bt_remove [of key "tc_pending c"] by (auto simp: cache_ok_def)
  moreover have "n \<le> unat (tc_cap_pending_bytes c)" using b cap n by linarith
  moreover have "snd (take_pending key c) =
      c\<lparr>tc_pending := bt_remove key (tc_pending c), tc_pending_bytes := of_nat n\<rparr>"
    using take_pending_eq [OF assms, of key] n by simp
  ultimately show ?thesis
    using assms u by (simp add: cache_ok_def bt_ok_remove word_le_nat_alt)
qed

lemma take_pending_frame [simp]:
  "tc_entries (snd (take_pending key c)) = tc_entries c"
  "tc_cap_entries (snd (take_pending key c)) = tc_cap_entries c"
  "tc_cap_pending_bytes (snd (take_pending key c)) = tc_cap_pending_bytes c"
  "tc_pending (snd (take_pending key c)) = bt_remove key (tc_pending c)"
  by (simp_all add: take_pending_def Let_def)

lemma cache_ok_drain [cache_inv]: "cache_ok c \<Longrightarrow> cache_ok (snd (drain_pending c))"
  by (simp add: drain_pending_def cache_ok_def pending_total_def bt_weight_def)

section \<open>Properties of the cache\<close>

lemma foldl_min_first:
  defines "step f \<equiv> \<lambda>best y. if f y < (f best :: int) then y else best"
  shows "foldl (step f) x xs = x \<or>
    (\<exists>ys zs. xs = ys @ foldl (step f) x xs # zs \<and> f (foldl (step f) x xs) < f x \<and>
       (\<forall>y \<in> set ys. f (foldl (step f) x xs) < f y))"
proof (induction xs arbitrary: x)
  case (Cons y xs)
  let ?r = "foldl (step f) (step f x y) xs"
  show ?case
  proof (cases "f y < f x")
    case True
    then have s: "step f x y = y" by (simp add: step_def)
    from Cons.IH [of y] show ?thesis
    proof
      assume "foldl (step f) y xs = y"
      moreover have "y # xs = [] @ y # xs" by simp
      ultimately show ?thesis using True s by (metis empty_iff empty_set foldl_Cons)
    next
      assume "\<exists>ys zs. xs = ys @ foldl (step f) y xs # zs \<and> f (foldl (step f) y xs) < f y \<and>
        (\<forall>u \<in> set ys. f (foldl (step f) y xs) < f u)"
      then obtain ys zs where "xs = ys @ foldl (step f) y xs # zs"
        "f (foldl (step f) y xs) < f y" "\<forall>u \<in> set ys. f (foldl (step f) y xs) < f u" by blast
      with True s have "y # xs = (y # ys) @ foldl (step f) x (y # xs) # zs \<and>
        f (foldl (step f) x (y # xs)) < f x \<and>
        (\<forall>u \<in> set (y # ys). f (foldl (step f) x (y # xs)) < f u)" by auto
      then show ?thesis by blast
    qed
  next
    case False
    then have s: "step f x y = x" by (simp add: step_def)
    from Cons.IH [of x] show ?thesis
    proof
      assume "\<exists>ys zs. xs = ys @ foldl (step f) x xs # zs \<and> f (foldl (step f) x xs) < f x \<and>
        (\<forall>u \<in> set ys. f (foldl (step f) x xs) < f u)"
      then obtain ys zs where "xs = ys @ foldl (step f) x xs # zs"
        "f (foldl (step f) x xs) < f x" "\<forall>u \<in> set ys. f (foldl (step f) x xs) < f u" by blast
      with False s have "y # xs = (y # ys) @ foldl (step f) x (y # xs) # zs \<and>
        f (foldl (step f) x (y # xs)) < f x \<and>
        (\<forall>u \<in> set (y # ys). f (foldl (step f) x (y # xs)) < f u)" by auto
      then show ?thesis by blast
    qed (simp add: s)
  qed
qed simp

lemma min_by_key_first:
  "min_by_key f xs = Some x \<Longrightarrow> \<exists>ys zs. xs = ys @ x # zs \<and> (\<forall>y \<in> set ys. f x < f y)"
proof (cases xs)
  case (Cons y ys)
  assume "min_by_key f xs = Some x"
  with Cons have x: "foldl (\<lambda>best y. if f y < f best then y else best) y ys = x" by simp
  from foldl_min_first [of f y ys] show ?thesis
    unfolding x
  proof (elim disjE exE conjE)
    assume "x = y"
    with Cons have "xs = [] @ x # ys" by simp
    then show ?thesis by (metis empty_iff empty_set)
  next
    fix as bs
    assume as: "ys = as @ x # bs" "f x < f y" "\<forall>u \<in> set as. f x < f u"
    then have "xs = (y # as) @ x # bs" "\<forall>u \<in> set (y # as). f x < f u" using Cons by auto
    then show ?thesis by blast
  qed
qed simp

lemma lru_victim_tie:
  assumes "bt_ok m" and "lru_victim m = Some k" and "bt_get m k = Some e" and "bt_get m j = Some e'"
    and "sint (te_last_seen e') = sint (te_last_seen e)"
  shows "k \<le> j"
proof -
  from assms(2) obtain e0 where "min_by_key (\<lambda>(_, e). sint (te_last_seen e)) m = Some (k, e0)"
    by (auto simp: lru_victim_def)
  note first = min_by_key_first [OF this] and found = min_by_key_in [OF this]
  have "e0 = e" using assms found by (simp add: bt_get_iff [symmetric])
  with first obtain ys zs where m: "m = ys @ (k, e) # zs"
    and less: "\<forall>p \<in> set ys. sint (te_last_seen e) < sint (te_last_seen (snd p))"
    by (force simp: case_prod_beta)
  have "(j, e') \<in> set m" using assms by (simp add: bt_get_iff)
  with m less assms(5) have "(j, e') \<in> set ((k, e) # zs)" by auto
  with assms(1) m show ?thesis by (auto simp: bt_ok_def sorted_wrt_append)
qed

text \<open>The layouts known once \<open>upsert\<close> has inserted and before it has evicted.\<close>

definition inserted_view ::
  "template_cache \<Rightarrow> template_key \<Rightarrow> template_entry \<Rightarrow> template_key \<Rightarrow> template_entry option" where
  "inserted_view c key entry = (cache_peek c)(key \<mapsto> merged_entry c key entry)"

lemma inserted_view_get:
  "inserted_view c key entry = bt_get (bt_insert key (merged_entry c key entry) (tc_entries c))"
  by (auto simp: inserted_view_def bt_get_insert cache_peek_def)

text \<open>
  C10. What a template definition does to the cache.  A known id is redefined in place
  (keeping \<open>first_seen\<close> and \<open>use_count\<close>) and a new id is added while there is
  room, nothing else changing.  At the cap, exactly one layout is dropped: of all layouts,
  the new one included, the one least recently seen, and among equals the least key.
\<close>

theorem upsert_lru:
  assumes "cache_ok c"
  shows "(cache_peek c key \<noteq> None \<or> length (tc_entries c) < unat (tc_cap_entries c) \<longrightarrow>
            cache_peek (upsert key entry c) = inserted_view c key entry) \<and>
         (cache_peek c key = None \<and> length (tc_entries c) = unat (tc_cap_entries c) \<longrightarrow>
            (\<exists>victim v. inserted_view c key entry victim = Some v \<and>
               cache_peek (upsert key entry c) = (inserted_view c key entry)(victim := None) \<and>
               (\<forall>j e. inserted_view c key entry j = Some e \<longrightarrow>
                  sint (te_last_seen v) < sint (te_last_seen e) \<or>
                  sint (te_last_seen v) = sint (te_last_seen e) \<and> victim \<le> j)))"
proof -
  let ?m = "bt_insert key (merged_entry c key entry) (tc_entries c)"
  have ok: "bt_ok ?m"
    using assms by (simp add: cache_ok_def bt_ok_insert)
  show ?thesis
    using assms
  proof (cases rule: upsert_entries_cases [where key = key and entry = entry])
    case fits
    then have "cache_peek (upsert key entry c) = inserted_view c key entry"
      by (simp add: inserted_view_get cache_peek_def fun_eq_iff)
    moreover have "\<not> (cache_peek c key = None \<and> length (tc_entries c) = unat (tc_cap_entries c))"
      using fits assms by (auto simp: cache_peek_def cache_ok_def length_bt_insert)
    ultimately show ?thesis by blast
  next
    case (evicts victim)
    then obtain v where v: "bt_get ?m victim = Some v"
      by (cases "bt_get ?m victim") (auto simp: bt_get_def map_of_eq_None_iff)
    have "cache_peek (upsert key entry c) = (inserted_view c key entry)(victim := None)"
      using evicts by (simp add: inserted_view_get cache_peek_def fun_eq_iff bt_get_remove)
    moreover have "sint (te_last_seen v) < sint (te_last_seen e) \<or>
        sint (te_last_seen v) = sint (te_last_seen e) \<and> victim \<le> j"
      if "inserted_view c key entry j = Some e" for j e
    proof -
      from that have "bt_get ?m j = Some e" by (simp add: inserted_view_get)
      from lru_victim_least [OF ok evicts(3) v this] lru_victim_tie [OF ok evicts(3) v this]
      show ?thesis by linarith
    qed
    moreover have "inserted_view c key entry victim = Some v" using v by (simp add: inserted_view_get)
    moreover have "\<not> (cache_peek c key \<noteq> None \<or> length (tc_entries c) < unat (tc_cap_entries c))"
      using evicts(1,2) by (simp add: cache_peek_def)
    ultimately show ?thesis by blast
  qed
qed

text \<open>A cache of capacity one and a template, for the witnesses.\<close>

definition one_slot_cache :: template_cache where
  "one_slot_cache = cache_new\<lparr>tc_cap_entries := 1, tc_entries :=
     [(TemplateKey ''r'' 0 256, \<lparr>te_kind = TkData, te_fields = [], te_scope_field_count = 0,
       te_first_seen = 10, te_last_seen = 10, te_use_count = 0\<rparr>)]\<rparr>"

definition sample_entry :: "i64 \<Rightarrow> template_entry" where
  "sample_entry now = \<lparr>te_kind = TkData, te_fields = [], te_scope_field_count = 0,
     te_first_seen = now, te_last_seen = now, te_use_count = 0\<rparr>"

lemma one_slot_cache_ok: "cache_ok one_slot_cache"
  by (simp add: one_slot_cache_def cache_ok_def cache_new_def bt_ok_def pending_total_def
      bt_weight_def DEFAULT_CAP_PENDING_BYTES_def)

theorem upsert_lru_witness:
  "\<exists>victim v. inserted_view one_slot_cache (TemplateKey ''r'' 0 257) (sample_entry 20) victim = Some v \<and>
     cache_peek (upsert (TemplateKey ''r'' 0 257) (sample_entry 20) one_slot_cache) =
       (inserted_view one_slot_cache (TemplateKey ''r'' 0 257) (sample_entry 20))(victim := None)"
proof -
  have "cache_peek one_slot_cache (TemplateKey ''r'' 0 257) = None"
    "length (tc_entries one_slot_cache) = unat (tc_cap_entries one_slot_cache)"
    by (simp_all add: one_slot_cache_def cache_peek_def bt_get_def)
  then show ?thesis
    using upsert_lru [OF one_slot_cache_ok, of "TemplateKey ''r'' 0 257" "sample_entry 20"] by blast
qed

text \<open>
  C11. The pending buffer is a bounded store of FIFO queues.  A record is accepted exactly
  when the payload bytes buffered so far plus its own fit the cap, in exact arithmetic; a
  refused record leaves the cache as it was; an accepted one is the last that a later
  \<open>take_pending\<close> of its key returns, after the earlier ones in their order, and the other
  queues and the layouts are not touched.
\<close>

theorem push_pending_fifo:
  assumes "cache_ok c" and "length (pr_bytes rec) < 2 ^ 32"
    and "push_pending key rec c = (accepted, c')"
  shows "(accepted \<longleftrightarrow> pending_total c + length (pr_bytes rec) \<le> unat (tc_cap_pending_bytes c)) \<and>
         (\<not> accepted \<longrightarrow> c' = c) \<and>
         (accepted \<longrightarrow>
            fst (take_pending key c') = fst (take_pending key c) @ [rec] \<and>
            (\<forall>j. j \<noteq> key \<longrightarrow> pending_of c' j = pending_of c j) \<and>
            tc_entries c' = tc_entries c \<and>
            pending_total c' = pending_total c + length (pr_bytes rec))"
proof -
  have "cache_ok c'"
    using cache_ok_push [OF assms(1,2), of key] assms(3) by simp
  then have take: "fst (take_pending key c') = pending_of c' key"
    "fst (take_pending key c) = pending_of c key"
    using assms(1) by (simp_all add: take_pending_eq)
  show ?thesis
    unfolding take
    using assms(3) unfolding push_pending_eq [OF assms(1,2)]
    by (auto simp: bt_get_insert pending_total_insert [OF assms(1), unfolded pending_of_def] pending_of_def [of c]
        split: if_splits)
qed

definition sample_pending :: pending_record where
  "sample_pending = \<lparr>pr_export_time = Some 123, pr_sequence = Some 9, pr_version = ''9'',
     pr_sys_uptime_ms = Some 1000, pr_bytes = [1, 2, 3, 4]\<rparr>"

theorem push_pending_fifo_witness:
  "fst (take_pending (TemplateKey ''r'' 0 256)
     (snd (push_pending (TemplateKey ''r'' 0 256) sample_pending cache_new))) =
   fst (take_pending (TemplateKey ''r'' 0 256) cache_new) @ [sample_pending]"
  using push_pending_fifo [OF cache_ok_new, of sample_pending "TemplateKey ''r'' 0 256"
      "fst (push_pending (TemplateKey ''r'' 0 256) sample_pending cache_new)"
      "snd (push_pending (TemplateKey ''r'' 0 256) sample_pending cache_new)"]
  by (simp add: sample_pending_def pending_total_def bt_weight_def cache_new_def
      DEFAULT_CAP_PENDING_BYTES_def)

lemma sum_of_nat_lengths:
  "sum_list (map (\<lambda>r. of_nat (length (pr_bytes r))) rs) = (of_nat (records_bytes rs) :: u32)"
  by (induction rs) (simp_all add: records_bytes_def)

lemma records_bytes_concat:
  "records_bytes (concat (map snd m)) = bt_weight records_bytes m"
  by (induction m) (simp_all add: records_bytes_def bt_weight_def)

lemma word_of_nat_unat_pending: "of_nat (unat (tc_pending_bytes c)) = tc_pending_bytes c"
  by simp

lemma cache_of_dto_to_dto: "cache_ok c \<Longrightarrow> cache_of_dto (cache_to_dto c) = c"
proof -
  assume ok: "cache_ok c"
  then have "of_nat (pending_total c) = tc_pending_bytes c"
    using word_of_nat_unat_pending [of c] by (simp add: cache_ok_def)
  then show ?thesis
    using ok
    by (simp add: cache_of_dto_def cache_to_dto_def bt_collect_sorted cache_ok_def
        sum_of_nat_lengths records_bytes_concat pending_total_def)
qed

text \<open>
  C31. The scan state survives serialisation.  If the JSON codec gives back the pair arrays
  it was given, then \<open>from_bytes\<close> of \<open>to_bytes\<close> is the cache itself, including the
  byte counter that is not serialised but recomputed.
\<close>

theorem cache_roundtrip:
  assumes "cache_ok c" and "to_vec (cache_to_dto c) = Some bs" and "bs \<noteq> []"
    and "from_slice bs = Some (cache_to_dto c)"
  shows "from_bytes from_slice (to_bytes to_vec c) = c"
  using assms by (simp add: from_bytes_def to_bytes_def cache_of_dto_to_dto)

theorem cache_roundtrip_witness:
  "from_bytes (\<lambda>bs. if bs = [123] then Some (cache_to_dto one_slot_cache) else None)
     (to_bytes (\<lambda>_. Some [123]) one_slot_cache) = one_slot_cache"
  by (rule cache_roundtrip [OF one_slot_cache_ok, where bs = "[123]"]) simp_all

end
