(* ===== verification/Data_Set.thy ===== *)
theory Data_Set
  imports Registry Normalize Buf Cache
begin

text \<open>
  \<open>decode/record.rs\<close>: resolving template fields to Information Elements, slicing a
  Data Set into records, and mapping each field onto the normalized row.
\<close>

section \<open>Context and field resolution\<close>

record ctx =
  cx_exporter :: string
  cx_obs_domain :: u32
  cx_version :: string
  cx_export_time :: "i64 option"
  cx_sequence :: "u64 option"
  cx_sys_uptime_ms :: "u64 option"
  cx_template_id :: u16

fun ie_type_name :: "ie_type \<Rightarrow> string" where
  "ie_type_name Unsigned8 = ''unsigned8''"
| "ie_type_name Unsigned16 = ''unsigned16''"
| "ie_type_name Unsigned32 = ''unsigned32''"
| "ie_type_name Unsigned64 = ''unsigned64''"
| "ie_type_name Signed32 = ''signed32''"
| "ie_type_name Signed64 = ''signed64''"
| "ie_type_name Float64 = ''float64''"
| "ie_type_name IeBoolean = ''boolean''"
| "ie_type_name MacAddress = ''macAddress''"
| "ie_type_name Ipv4Address = ''ipv4Address''"
| "ie_type_name Ipv6Address = ''ipv6Address''"
| "ie_type_name DateTimeSeconds = ''dateTimeSeconds''"
| "ie_type_name DateTimeMilliseconds = ''dateTimeMilliseconds''"
| "ie_type_name DateTimeMicroseconds = ''dateTimeMicroseconds''"
| "ie_type_name DateTimeNanoseconds = ''dateTimeNanoseconds''"
| "ie_type_name IeString = ''string''"
| "ie_type_name OctetArray = ''octetArray''"

text \<open>The function \<open>field_spec\<close> of the code; the struct of that name is a record here.\<close>

definition mk_field_spec :: "u32 \<Rightarrow> u16 \<Rightarrow> u16 \<Rightarrow> field_spec" where
  "mk_field_spec enterprise_number ie_id len =
     (case resolve enterprise_number ie_id of
        Some d \<Rightarrow>
          \<lparr>fs_ie_id = ie_id, fs_enterprise_number = enterprise_number, fs_length = len,
           fs_name = def_name d, fs_ie_type = ie_type_name (def_ty d)\<rparr>
      | None \<Rightarrow>
          (let name = (if enterprise_number = 0 then ''id'' @ dec_of_word ie_id
                       else ''e'' @ dec_of_word enterprise_number @ ''id'' @ dec_of_word ie_id)
           in \<lparr>fs_ie_id = ie_id, fs_enterprise_number = enterprise_number, fs_length = len,
               fs_name = name, fs_ie_type = ''octetArray''\<rparr>))"

section \<open>Mapping a field\<close>

definition ntp_micros :: "bytes \<Rightarrow> i64 option" where
  "ntp_micros bs =
     (if length bs \<noteq> 8 then None
      else
        let secs1900 = (ucast (from_be [bs ! 0, bs ! 1, bs ! 2, bs ! 3] :: u32) :: i64);
            frac = (ucast (from_be [bs ! 4, bs ! 5, bs ! 6, bs ! 7] :: u32) :: u64);
            epoch_secs = secs1900 - 2208988800;
            frac_micros = drop_bit 32 (frac * 1000000)
        in Some (epoch_secs * 1000000 + frac_micros))"

text \<open>
  The record under construction and the two raw sysUptime values that accompany it.
  \<open>u as i64\<close> reinterprets the 64 bits.
\<close>

record field_state =
  st_rec :: flow_record
  st_start :: "u32 option"
  st_end :: "u32 option"

definition map_field :: "field_spec \<Rightarrow> bytes \<Rightarrow> field_state \<Rightarrow> field_state" where
  "map_field f bs st =
     (let rec = st_rec st; put = (\<lambda>rec'. st\<lparr>st_rec := rec'\<rparr>) in
      if fs_enterprise_number f \<noteq> 0 then
        (let rec = (if take 1 (fs_name f) = ''e'' \<and> fs_ie_type f = ''octetArray''
                    then note_diag ''enterprise-unmapped'' rec else rec)
         in put (put_raw (fs_name f) bs rec))
      else
        let u = be_uint bs; ie = fs_ie_id f in
        if ie \<in> {8, 130} then put (rec\<lparr>fr_src_addr := opt_or (inet4 bs) (fr_src_addr rec)\<rparr>)
        else if ie \<in> {27, 131} then put (rec\<lparr>fr_src_addr := opt_or (inet6 bs) (fr_src_addr rec)\<rparr>)
        else if ie \<in> {12, 226} then put (rec\<lparr>fr_dst_addr := opt_or (inet4 bs) (fr_dst_addr rec)\<rparr>)
        else if ie = 28 then put (rec\<lparr>fr_dst_addr := opt_or (inet6 bs) (fr_dst_addr rec)\<rparr>)
        else if ie \<in> {7, 180, 182} then put (rec\<lparr>fr_src_port := Some (ucast u)\<rparr>)
        else if ie \<in> {11, 181, 183} then put (rec\<lparr>fr_dst_port := Some (ucast u)\<rparr>)
        else if ie = 4 then put (rec\<lparr>fr_protocol := Some (ucast u)\<rparr>)
        else if ie \<in> {5, 195} then put (rec\<lparr>fr_tos := Some (ucast u)\<rparr>)
        else if ie = 6 then put (rec\<lparr>fr_tcp_flags := Some (ucast (u AND 0xff))\<rparr>)
        else if ie \<in> {1, 23, 85, 351, 352} then
          (if fr_bytes rec = None \<or> ie = 1 then put (rec\<lparr>fr_bytes := Some u\<rparr>) else st)
        else if ie \<in> {2, 24, 86} then
          (if fr_packets rec = None \<or> ie = 2 then put (rec\<lparr>fr_packets := Some u\<rparr>) else st)
        else if ie = 10 then put (rec\<lparr>fr_input_snmp := Some (ucast u)\<rparr>)
        else if ie = 14 then put (rec\<lparr>fr_output_snmp := Some (ucast u)\<rparr>)
        else if ie = 16 then put (rec\<lparr>fr_src_as := Some (ucast u)\<rparr>)
        else if ie = 17 then put (rec\<lparr>fr_dst_as := Some (ucast u)\<rparr>)
        else if ie \<in> {15, 18} then put (rec\<lparr>fr_next_hop := opt_or (inet4 bs) (fr_next_hop rec)\<rparr>)
        else if ie \<in> {62, 63} then put (rec\<lparr>fr_next_hop := opt_or (inet6 bs) (fr_next_hop rec)\<rparr>)
        else if ie \<in> {9, 29} then put (rec\<lparr>fr_src_mask := Some (ucast u)\<rparr>)
        else if ie \<in> {13, 30} then put (rec\<lparr>fr_dst_mask := Some (ucast u)\<rparr>)
        else if ie \<in> {34, 305} then put (rec\<lparr>fr_sampling_rate := Some (ucast u)\<rparr>)
        else if ie = 61 then put (rec\<lparr>fr_direction := Some (ucast u)\<rparr>)
        else if ie = 22 then st\<lparr>st_start := Some (ucast u)\<rparr>
        else if ie = 21 then st\<lparr>st_end := Some (ucast u)\<rparr>
        else if ie = 150 then put (rec\<lparr>fr_flow_start := Some (u * 1000000)\<rparr>)
        else if ie = 151 then put (rec\<lparr>fr_flow_end := Some (u * 1000000)\<rparr>)
        else if ie = 152 then put (rec\<lparr>fr_flow_start := Some (u * 1000)\<rparr>)
        else if ie = 153 then put (rec\<lparr>fr_flow_end := Some (u * 1000)\<rparr>)
        else if ie \<in> {154, 156} then
          put (rec\<lparr>fr_flow_start := opt_or (ntp_micros bs) (fr_flow_start rec)\<rparr>)
        else if ie \<in> {155, 157} then
          put (rec\<lparr>fr_flow_end := opt_or (ntp_micros bs) (fr_flow_end rec)\<rparr>)
        else put (put_raw (fs_name f) bs rec))"

definition resolve_times ::
  "ctx \<Rightarrow> u32 option \<Rightarrow> u32 option \<Rightarrow> flow_record \<Rightarrow> flow_record" where
  "resolve_times cx start_sysup end_sysup rec =
     (case (cx_export_time cx, cx_sys_uptime_ms cx) of
        (Some export, Some uptime) \<Rightarrow>
          let boot_micros = export - uptime * 1000;
              rec = (if fr_flow_start rec = None
                     then (case start_sysup of
                             Some s \<Rightarrow> rec\<lparr>fr_flow_start := Some (boot_micros + ucast s * 1000)\<rparr>
                           | None \<Rightarrow> rec)
                     else rec)
          in (if fr_flow_end rec = None
              then (case end_sysup of
                      Some e \<Rightarrow> rec\<lparr>fr_flow_end := Some (boot_micros + ucast e * 1000)\<rparr>
                    | None \<Rightarrow> rec)
              else rec)
      | _ \<Rightarrow> rec)"

section \<open>Slicing records\<close>

definition read_varlen :: "cursor \<Rightarrow> (nat \<times> cursor) option" where
  "read_varlen c = do {
     (first, c) \<leftarrow> cur_u8 c;
     if first < 255 then Some (unat first, c)
     else do { (n, c) \<leftarrow> cur_u16 c; Some (unat n, c) }
   }"

fun decode_fields ::
  "field_spec list \<Rightarrow> field_state \<Rightarrow> cursor \<Rightarrow> (field_state \<times> cursor) option" where
  "decode_fields [] st c = Some (st, c)"
| "decode_fields (f # fs) st c = do {
     (len, c) \<leftarrow> (if is_variable f then read_varlen c else Some (unat (fs_length f), c));
     (bs, c) \<leftarrow> cur_take len c;
     decode_fields fs (map_field f bs st) c
   }"

definition base_record :: "ctx \<Rightarrow> flow_record" where
  "base_record cx =
     default_record\<lparr>fr_exporter := cx_exporter cx, fr_flow_version := cx_version cx,
       fr_obs_domain := cx_obs_domain cx, fr_template_id := Some (cx_template_id cx),
       fr_export_time := cx_export_time cx, fr_sequence := cx_sequence cx\<rparr>"

definition decode_one_record ::
  "template_entry \<Rightarrow> ctx \<Rightarrow> cursor \<Rightarrow> (flow_record \<times> cursor) option" where
  "decode_one_record tpl cx c = do {
     (st, c) \<leftarrow> decode_fields (te_fields tpl)
                  \<lparr>st_rec = base_record cx, st_start = None, st_end = None\<rparr> c;
     Some (resolve_times cx (st_start st) (st_end st) (st_rec st), c)
   }"

definition min_fixed :: "template_entry \<Rightarrow> nat" where
  "min_fixed tpl =
     sum_list (map (\<lambda>f. unat (fs_length f)) (filter (\<lambda>f. \<not> is_variable f) (te_fields tpl)))"

subsection \<open>Reads advance the cursor within its bounds\<close>

definition advances :: "cursor \<Rightarrow> cursor \<Rightarrow> bool" where
  "advances c c' \<longleftrightarrow> (\<exists>n \<le> cur_remaining c. c' = cur_advance n c)"

lemma advances_refl [simp]: "advances c c"
  unfolding advances_def by (rule exI [of _ 0]) simp

lemma advances_advance: "n \<le> cur_remaining c \<Longrightarrow> advances c (cur_advance n c)"
  by (auto simp: advances_def)

lemma advances_trans [trans]: "advances a b \<Longrightarrow> advances b c \<Longrightarrow> advances a c"
  by (auto simp: advances_def) (metis add_leD1 cur_advance_add le_diff_conv2 add.commute)

lemma advances_take: "cur_take n c = Some (bs, c') \<Longrightarrow> advances c c'"
  by (auto simp: advances_def cur_take_eq split: if_splits)

lemma advances_varlen: "read_varlen c = Some (n, c') \<Longrightarrow> advances c c'"
  by (auto simp: read_varlen_def reader_simps split: if_splits intro!: advances_advance)

lemma advances_fields: "decode_fields fs st c = Some (st', c') \<Longrightarrow> advances c c'"
proof (induction fs arbitrary: st c)
  case (Cons f fs)
  then show ?case
    by (auto split: if_splits Option.bind_splits
        dest!: advances_take advances_varlen)
      (meson advances_trans)+
qed simp

lemma advances_record: "decode_one_record tpl cx c = Some (r, c') \<Longrightarrow> advances c c'"
  by (auto simp: decode_one_record_def dest: advances_fields split: Option.bind_splits)

lemma advances_less:
  "advances c c' \<Longrightarrow> cur_position c' \<noteq> cur_position c \<Longrightarrow> cur_remaining c \<noteq> 0 \<Longrightarrow>
     cur_remaining c' < cur_remaining c"
  by (auto simp: advances_def cur_position_def)

subsection \<open>A whole Data Set\<close>

definition truncated_row :: "ctx \<Rightarrow> flow_record" where
  "truncated_row cx =
     diagnostic (cx_exporter cx) (cx_version cx) (cx_obs_domain cx) (cx_export_time cx)
       (cx_sequence cx) ''truncated''"

function record_loop :: "template_entry \<Rightarrow> ctx \<Rightarrow> cursor \<Rightarrow> flow_record list" where
  "record_loop tpl cx c =
     (let rem = cur_remaining c in
      if rem = 0 then []
      else if min_fixed tpl > 0 \<and> rem < min_fixed tpl then []
      else case decode_one_record tpl cx c of
             Some (rec, c') \<Rightarrow>
               rec # (if cur_position c' = cur_position c then [] else record_loop tpl cx c')
           | None \<Rightarrow> [truncated_row cx])"
  by pat_completeness auto
termination
  by (relation "measure (\<lambda>(_, _, c). cur_remaining c)")
    (auto dest!: advances_record intro: advances_less)

declare record_loop.simps [simp del]

definition decode_data_set ::
  "template_entry \<Rightarrow> bytes \<Rightarrow> ctx \<Rightarrow> bool \<Rightarrow> flow_record list" where
  "decode_data_set tpl payload cx mode_flows_only =
     (if mode_flows_only \<and> te_kind tpl = TkOptions then []
      else record_loop tpl cx (cursor_new payload))"

section \<open>Field mapping\<close>

text \<open>The columns a record inherits from its datagram.\<close>

definition provenance ::
  "flow_record \<Rightarrow> string \<times> string \<times> u32 \<times> u16 option \<times> i64 option \<times> u64 option" where
  "provenance r = (fr_exporter r, fr_flow_version r, fr_obs_domain r, fr_template_id r,
     fr_export_time r, fr_sequence r)"

lemma map_field_provenance [simp]:
  "provenance (st_rec (map_field f bs st)) = provenance (st_rec st)"
  by (simp add: map_field_def provenance_def Let_def)

lemma resolve_times_provenance [simp]:
  "provenance (resolve_times cx s e rec) = provenance rec"
  by (simp add: resolve_times_def provenance_def Let_def split: option.splits)

text \<open>The Information Elements with a column of their own.\<close>

definition mapped_ies :: "u16 set" where
  "mapped_ies = {1, 2, 4, 5, 6, 7, 8, 9, 10, 11, 12, 13, 14, 15, 16, 17, 18, 21, 22, 23, 24, 27, 28,
     29, 30, 34, 61, 62, 63, 85, 86, 130, 131, 150, 151, 152, 153, 154, 155, 156, 157, 180, 181,
     182, 183, 195, 226, 305, 351, 352}"

definition kept_raw :: "field_spec \<Rightarrow> bool" where
  "kept_raw f \<longleftrightarrow> fs_enterprise_number f \<noteq> 0 \<or> fs_ie_id f \<notin> mapped_ies"


section \<open>The wire form of a record\<close>

text \<open>
  What an exporter writes for one field: the value itself, preceded by its length when the
  field is of variable length (one byte, or 255 and two bytes).
\<close>

definition varlen_prefix :: "nat \<Rightarrow> bytes" where
  "varlen_prefix n = (if n < 255 then [of_nat n] else 255 # to_be_bytes 2 (of_nat n :: u16))"

definition put_field :: "field_spec \<Rightarrow> bytes \<Rightarrow> bytes" where
  "put_field f v = (if is_variable f then varlen_prefix (length v) @ v else v)"

definition field_fits :: "field_spec \<Rightarrow> bytes \<Rightarrow> bool" where
  "field_fits f v \<longleftrightarrow>
     (if is_variable f then length v < 65536 else length v = unat (fs_length f))"

definition put_record :: "field_spec list \<Rightarrow> bytes list \<Rightarrow> bytes" where
  "put_record fs vs = concat (map2 put_field fs vs)"

text \<open>The row the fields of a record stand for.\<close>

definition map_fields :: "field_spec list \<Rightarrow> bytes list \<Rightarrow> field_state \<Rightarrow> field_state" where
  "map_fields fs vs st = fold (\<lambda>(f, v). map_field f v) (zip fs vs) st"

definition initial_state :: "ctx \<Rightarrow> field_state" where
  "initial_state cx = \<lparr>st_rec = base_record cx, st_start = None, st_end = None\<rparr>"

definition row_of :: "template_entry \<Rightarrow> ctx \<Rightarrow> bytes list \<Rightarrow> flow_record" where
  "row_of tpl cx vs =
     (let st = map_fields (te_fields tpl) vs (initial_state cx)
      in resolve_times cx (st_start st) (st_end st) (st_rec st))"

lemma put_record_simps [simp]:
  "put_record [] vs = []"
  "put_record (f # fs) (v # vs) = put_field f v @ put_record fs vs"
  by (simp_all add: put_record_def)

lemma map_fields_simps [simp]:
  "map_fields [] vs st = st"
  "map_fields (f # fs) (v # vs) st = map_fields fs vs (map_field f v st)"
  by (simp_all add: map_fields_def)

lemma read_varlen_prefix:
  assumes "n < 65536" and "cur_rest c = varlen_prefix n @ bs"
  shows "read_varlen c = Some (n, cur_advance (length (varlen_prefix n)) c)"
proof (cases "n < 255")
  case True
  have "to_be_bytes 1 (of_nat n :: u8) = [of_nat n]"
    using True by (simp add: to_be_bytes_def unat_of_nat)
  with True assms have "cur_rest c = to_be_bytes 1 (of_nat n :: u8) @ bs"
    by (simp add: varlen_prefix_def)
  from u8.read_written [OF this] True show ?thesis
    by (simp add: read_varlen_def varlen_prefix_def word_less_nat_alt unat_of_nat)
next
  case False
  have "to_be_bytes 1 (255 :: u8) = [255]" by (simp add: to_be_bytes_def)
  with False assms have c: "cur_rest c = to_be_bytes 1 (255 :: u8) @ to_be_bytes 2 (of_nat n :: u16) @ bs"
    by (simp add: varlen_prefix_def)
  note one = u8.read_written [OF c] and two = u16.read_written [OF u8.read_written(2) [OF c]]
  from False assms(1) one two show ?thesis
    by (simp add: read_varlen_def varlen_prefix_def unat_of_nat)
qed

lemma decode_fields_put:
  assumes "list_all2 field_fits fs vs" and "cur_rest c = put_record fs vs @ bs"
  shows "decode_fields fs st c = Some (map_fields fs vs st, cur_advance (length (put_record fs vs)) c)"
  using assms
proof (induction fs vs arbitrary: st c rule: list_all2_induct)
  case (Cons f fs v vs)
  let ?k = "length (put_field f v)"
  have rest: "cur_rest c = put_field f v @ put_record fs vs @ bs" using Cons.prems by simp
  then have next_field: "cur_rest (cur_advance ?k c) = put_record fs vs @ bs" by simp
  have "(do { (len, c) \<leftarrow> (if is_variable f then read_varlen c else Some (unat (fs_length f), c));
              cur_take len c }) = Some (v, cur_advance ?k c)"
  proof (cases "is_variable f")
    case True
    with rest have c: "cur_rest c = varlen_prefix (length v) @ v @ put_record fs vs @ bs"
      by (simp add: put_field_def)
    from arg_cong [OF c, where f = length]
    have "cur_remaining c =
        length (varlen_prefix (length v)) + length v + length (put_record fs vs) + length bs"
      by simp
    with read_varlen_prefix [OF _ c] c True Cons.hyps show ?thesis
      by (simp add: field_fits_def put_field_def cur_take_eq)
  next
    case False
    have "cur_remaining c = length v + length (put_record fs vs) + length bs"
      using arg_cong [OF rest, where f = length] False by (simp add: put_field_def)
    with False rest Cons.hyps show ?thesis
      by (simp add: field_fits_def put_field_def cur_take_eq)
  qed
  with Cons.IH [OF next_field] show ?case
    by (cases "is_variable f") (auto split: Option.bind_splits)
qed simp

lemma decode_one_record_put:
  assumes "list_all2 field_fits (te_fields tpl) vs"
    and "cur_rest c = put_record (te_fields tpl) vs @ bs"
  shows "decode_one_record tpl cx c =
    Some (row_of tpl cx vs, cur_advance (length (put_record (te_fields tpl) vs)) c)"
  using decode_fields_put [OF assms]
  by (simp add: decode_one_record_def row_of_def initial_state_def Let_def)

section \<open>Whole Data Sets\<close>

lemma put_record_min:
  "list_all2 field_fits fs vs \<Longrightarrow>
     sum_list (map (\<lambda>f. unat (fs_length f)) (filter (\<lambda>f. \<not> is_variable f) fs)) \<le>
       length (put_record fs vs)"
  by (induction fs vs rule: list_all2_induct) (auto simp: field_fits_def put_field_def)

text \<open>Decoding looks at what is left in the cursor only, not at where it is.\<close>

lemma same_rest_remaining: "cur_rest c = cur_rest d \<Longrightarrow> cur_remaining c = cur_remaining d"
  by (metis length_cur_rest)

lemma read_varlen_rest:
  assumes "cur_rest c = cur_rest d"
  shows "rel_option (\<lambda>(m, x) (n, y). m = n \<and> cur_rest x = cur_rest y) (read_varlen c) (read_varlen d)"
  using assms same_rest_remaining [OF assms] by (auto simp: read_varlen_def reader_simps)

lemma cur_take_rest:
  assumes "cur_rest c = cur_rest d"
  shows "rel_option (\<lambda>(a, x) (b, y). a = b \<and> cur_rest x = cur_rest y) (cur_take n c) (cur_take n d)"
  using assms same_rest_remaining [OF assms] by (simp add: cur_take_eq)

lemma decode_fields_rest:
  "cur_rest c = cur_rest d \<Longrightarrow>
   rel_option (\<lambda>(s, x) (t, y). s = t \<and> cur_rest x = cur_rest y) (decode_fields fs st c) (decode_fields fs st d)"
proof (induction fs arbitrary: st c d)
  case (Cons f fs)
  let ?rel = "\<lambda>(a, x) (b, y). a = b \<and> cur_rest x = cur_rest y"
  have len: "rel_option ?rel (if is_variable f then read_varlen c else Some (unat (fs_length f), c))
      (if is_variable f then read_varlen d else Some (unat (fs_length f), d))"
    using Cons.prems by (simp add: read_varlen_rest)
  have step: "rel_option ?rel (do { (bs, c) \<leftarrow> cur_take n c; decode_fields fs (map_field f bs st) c })
      (do { (bs, d) \<leftarrow> cur_take n d; decode_fields fs (map_field f bs st) d })"
    if "cur_rest c = cur_rest d" for n c d
    using cur_take_rest [OF that, of n] Cons.IH
    by (cases "cur_take n c"; cases "cur_take n d") auto
  show ?case
    using len step
    by (cases "if is_variable f then read_varlen c else Some (unat (fs_length f), c)";
        cases "if is_variable f then read_varlen d else Some (unat (fs_length f), d)") auto
qed simp

lemma decode_one_record_rest:
  assumes "cur_rest c = cur_rest d"
  shows "rel_option (\<lambda>(r, x) (s, y). r = s \<and> cur_rest x = cur_rest y)
    (decode_one_record tpl cx c) (decode_one_record tpl cx d)"
  using decode_fields_rest [OF assms, of "te_fields tpl" "\<lparr>st_rec = base_record cx, st_start = None, st_end = None\<rparr>"]
  by (auto simp: decode_one_record_def elim!: option.rel_cases)

lemma advances_stays: "advances c c' \<Longrightarrow> cur_position c' = cur_position c \<longleftrightarrow> cur_remaining c' = cur_remaining c"
  by (auto simp: advances_def)

lemma record_loop_rest: "cur_rest c = cur_rest d \<Longrightarrow> record_loop tpl cx c = record_loop tpl cx d"
proof (induction tpl cx c arbitrary: d rule: record_loop.induct)
  case (1 tpl cx c)
  note rem = same_rest_remaining [OF "1.prems"]
  show ?case
  proof (cases "cur_remaining c = 0 \<or> min_fixed tpl > 0 \<and> cur_remaining c < min_fixed tpl")
    case True
    then show ?thesis unfolding record_loop.simps [of tpl cx c] record_loop.simps [of tpl cx d]
      by (auto simp: rem Let_def)
  next
    case go: False
    from decode_one_record_rest [OF "1.prems", of tpl cx] show ?thesis
    proof (cases rule: option.rel_cases)
      case None
      with go rem show ?thesis
        unfolding record_loop.simps [of tpl cx c] record_loop.simps [of tpl cx d] by simp
    next
      case (Some x y)
      then obtain r c' d' where dec: "decode_one_record tpl cx c = Some (r, c')" "decode_one_record tpl cx d = Some (r, d')"
        and rest: "cur_rest c' = cur_rest d'" by (cases x; cases y) auto
      have stop: "cur_position c' = cur_position c \<longleftrightarrow> cur_position d' = cur_position d"
        using advances_stays [OF advances_record [OF dec(1)]] advances_stays [OF advances_record [OF dec(2)]]
          rem same_rest_remaining [OF rest] by simp
      have "record_loop tpl cx c' = record_loop tpl cx d'" if "cur_position c' \<noteq> cur_position c"
        using "1.IH" [OF refl _ _ dec(1) refl that rest] go by auto
      with go rem dec stop show ?thesis
        unfolding record_loop.simps [of tpl cx c] record_loop.simps [of tpl cx d] by simp
    qed
  qed
qed

lemma record_loop_written:
  assumes "\<forall>vs \<in> set recs. list_all2 field_fits (te_fields tpl) vs \<and> put_record (te_fields tpl) vs \<noteq> []"
    and "cur_rest c = concat (map (put_record (te_fields tpl)) recs) @ rest"
  shows "record_loop tpl cx c = map (row_of tpl cx) recs @ record_loop tpl cx (cursor_new rest)"
  using assms
proof (induction recs arbitrary: c)
  case Nil
  then show ?case by (simp add: record_loop_rest [of c "cursor_new rest"])
next
  case (Cons vs recs)
  let ?bs = "put_record (te_fields tpl) vs"
    and ?tail = "concat (map (put_record (te_fields tpl)) recs) @ rest"
  have c: "cur_rest c = ?bs @ ?tail" using Cons.prems(2) by simp
  then have "cur_remaining c = length ?bs + length ?tail"
    using length_cur_rest [of c] by (simp del: length_cur_rest)
  moreover have "min_fixed tpl \<le> length ?bs" "length ?bs > 0"
    using Cons.prems(1) by (auto simp: min_fixed_def intro: put_record_min)
  moreover have "record_loop tpl cx (cur_advance (length ?bs) c) =
      map (row_of tpl cx) recs @ record_loop tpl cx (cursor_new rest)"
    using Cons.prems c by (intro Cons.IH) auto
  moreover have "decode_one_record tpl cx c = Some (row_of tpl cx vs, cur_advance (length ?bs) c)"
    using Cons.prems c by (intro decode_one_record_put) auto
  ultimately show ?case by (subst record_loop.simps) simp
qed

lemma record_loop_padding:
  "length padding < min_fixed tpl \<or> padding = [] \<Longrightarrow> record_loop tpl cx (cursor_new padding) = []"
  by (subst record_loop.simps) (auto simp: Let_def)

text \<open>The shortest record: a variable-length field takes its length byte at least.\<close>

definition shortest_record :: "template_entry \<Rightarrow> nat" where
  "shortest_record tpl =
     sum_list (map (\<lambda>f. if is_variable f then 1 else unat (fs_length f)) (te_fields tpl))"

lemma decode_fields_shortest:
  "decode_fields fs st c = Some (st', d) \<Longrightarrow>
   cur_remaining d + sum_list (map (\<lambda>f. if is_variable f then 1 else unat (fs_length f)) fs) \<le> cur_remaining c"
proof (induction fs arbitrary: st c)
  case (Cons f fs)
  then obtain len e v e' where
    len: "(if is_variable f then read_varlen c else Some (unat (fs_length f), c)) = Some (len, e)"
    and v: "cur_take len e = Some (v, e')" and fs: "decode_fields fs (map_field f v st) e' = Some (st', d)"
    by (auto split: Option.bind_splits)
  from v have "cur_remaining e' + len = cur_remaining e" by (auto simp: cur_take_eq split: if_splits)
  moreover have "cur_remaining e + (if is_variable f then 1 else unat (fs_length f)) \<le>
      cur_remaining c + (if is_variable f then 0 else len)"
    using len by (auto simp: read_varlen_def reader_simps split: if_splits)
  ultimately show ?case using Cons.IH [OF fs] by (auto split: if_splits)
qed simp

lemma record_loop_half:
  assumes "min_fixed tpl \<le> length bs" and "bs \<noteq> []" and "length bs < shortest_record tpl"
  shows "record_loop tpl cx (cursor_new bs) = [truncated_row cx]"
proof -
  have "decode_fields (te_fields tpl) st (cursor_new bs) = None" for st
    using decode_fields_shortest [of "te_fields tpl" st "cursor_new bs"] assms(3)
    by (cases "decode_fields (te_fields tpl) st (cursor_new bs)") (auto simp: shortest_record_def)
  then show ?thesis using assms by (subst record_loop.simps) (simp add: decode_one_record_def Let_def)
qed

lemma record_loop_put:
  assumes "\<forall>vs \<in> set recs. list_all2 field_fits (te_fields tpl) vs \<and> put_record (te_fields tpl) vs \<noteq> []"
    and "length padding < min_fixed tpl \<or> padding = []"
    and "cur_rest c = concat (map (put_record (te_fields tpl)) recs) @ padding"
  shows "record_loop tpl cx c = map (row_of tpl cx) recs"
  using record_loop_written [OF assms(1,3)] record_loop_padding [OF assms(2)] by simp

text \<open>
  C3. Data Set round trip.  For any template, fixed or with variable-length fields, the
  records an exporter wrote with it come back as exactly one row each, in order, and the bytes
  after them are decoded as if they stood alone: to nothing when they are shorter than the
  fixed-length fields of the template together, which is all padding where every field has a fixed
  length.  With variable-length fields the shortest record is longer than that, and what is left
  between the two lengths comes out as one \<open>truncated\<close> row, padding or not.  In flows-only mode the
  records of an Options template are dropped, those of a Data template are not.
\<close>

theorem data_set_roundtrip:
  assumes "\<forall>vs \<in> set recs. list_all2 field_fits (te_fields tpl) vs \<and> put_record (te_fields tpl) vs \<noteq> []"
  shows "decode_data_set tpl (concat (map (put_record (te_fields tpl)) recs) @ rest) cx flows_only =
      (if flows_only \<and> te_kind tpl = TkOptions then []
       else map (row_of tpl cx) recs @ decode_data_set tpl rest cx flows_only) \<and>
    (length rest < min_fixed tpl \<or> rest = [] \<longrightarrow> decode_data_set tpl rest cx flows_only = []) \<and>
    (min_fixed tpl \<le> length rest \<and> rest \<noteq> [] \<and> length rest < shortest_record tpl \<longrightarrow>
       decode_data_set tpl rest cx flows_only =
         (if flows_only \<and> te_kind tpl = TkOptions then [] else [truncated_row cx]))"
  using record_loop_written [OF assms, of "cursor_new _"]
  by (auto simp: decode_data_set_def record_loop_padding record_loop_half)

text \<open>A template with a fixed and a variable-length field, and two records, for witnesses.\<close>

definition sample_template :: template_entry where
  "sample_template = \<lparr>te_kind = TkData,
     te_fields = [mk_field_spec 0 4 1, mk_field_spec 0 82 0xFFFF], te_scope_field_count = 0,
     te_first_seen = 10, te_last_seen = 10, te_use_count = 0\<rparr>"

definition sample_ctx :: ctx where
  "sample_ctx = \<lparr>cx_exporter = ''r'', cx_obs_domain = 7, cx_version = ''10'',
     cx_export_time = Some 1000, cx_sequence = Some 3, cx_sys_uptime_ms = None,
     cx_template_id = 256\<rparr>"

lemma sample_fields:
  "fs_length (mk_field_spec e i l) = l"
  by (simp add: mk_field_spec_def Let_def split: option.splits)

theorem data_set_roundtrip_witness:
  "decode_data_set sample_template [6, 2, 101, 49, 17, 0] sample_ctx False =
     map (row_of sample_template sample_ctx) [[[6], [101, 49]], [[17], []]]"
proof -
  have "concat (map (put_record (te_fields sample_template)) [[[6], [101, 49]], [[17], []]]) @ [] =
      [6, 2, 101, 49, 17, 0]"
    by (simp add: sample_template_def put_field_def is_variable_def sample_fields varlen_prefix_def)
  then show ?thesis
    using data_set_roundtrip [of "[[[6], [101, 49]], [[17], []]]" sample_template "[]" sample_ctx False]
    by (auto simp add: sample_template_def field_fits_def is_variable_def sample_fields put_field_def
        varlen_prefix_def)
qed

text \<open>One byte of padding after a record of two: half a record more, for the decoder.\<close>

lemma long_padding_reported:
  "decode_data_set sample_template [6, 2, 101, 49, 0] sample_ctx False =
     [row_of sample_template sample_ctx [[6], [101, 49]], truncated_row sample_ctx]"
proof -
  have "[6, 2, 101, 49, 0] = concat (map (put_record (te_fields sample_template)) [[[6], [101, 49]]]) @ [0]"
    by (simp add: sample_template_def put_field_def is_variable_def sample_fields varlen_prefix_def)
  then have "decode_data_set sample_template [6, 2, 101, 49, 0] sample_ctx False =
      row_of sample_template sample_ctx [[6], [101, 49]] # record_loop sample_template sample_ctx (cursor_new [0])"
    using record_loop_written [of "[[[6], [101, 49]]]" sample_template "cursor_new [6, 2, 101, 49, 0]" "[0]" sample_ctx]
    by (simp add: decode_data_set_def sample_template_def field_fits_def is_variable_def sample_fields put_field_def
        varlen_prefix_def)
  moreover have "record_loop sample_template sample_ctx (cursor_new [0]) = [truncated_row sample_ctx]"
    by (subst record_loop.simps) (simp add: sample_template_def min_fixed_def is_variable_def sample_fields
        decode_one_record_def cur_take_eq read_varlen_def reader_simps)
  ultimately show ?thesis by simp
qed

section \<open>Fixed-length templates\<close>

text \<open>Cutting a payload into equal chunks, and a chunk into its fields.\<close>

fun chunks :: "nat \<Rightarrow> bytes \<Rightarrow> bytes list" where
  "chunks n bs = (if n = 0 \<or> length bs < n then [] else take n bs # chunks n (drop n bs))"

declare chunks.simps [simp del]

fun cut_fields :: "field_spec list \<Rightarrow> bytes \<Rightarrow> bytes list" where
  "cut_fields [] bs = []"
| "cut_fields (f # fs) bs =
     take (unat (fs_length f)) bs # cut_fields fs (drop (unat (fs_length f)) bs)"

definition fixed_template :: "template_entry \<Rightarrow> bool" where
  "fixed_template tpl \<longleftrightarrow> list_all (\<lambda>f. \<not> is_variable f) (te_fields tpl) \<and> 0 < min_fixed tpl"

lemma cut_fields_put:
  assumes "list_all (\<lambda>f. \<not> is_variable f) fs"
    and "length bs = sum_list (map (\<lambda>f. unat (fs_length f)) (filter (\<lambda>f. \<not> is_variable f) fs))"
  shows "list_all2 field_fits fs (cut_fields fs bs) \<and> put_record fs (cut_fields fs bs) = bs"
  using assms by (induction fs bs rule: cut_fields.induct) (auto simp: field_fits_def put_field_def)

lemma chunks_concat:
  assumes "0 < n"
  shows "\<exists>padding. bs = concat (chunks n bs) @ padding \<and> length padding < n"
  using assms
proof (induction n bs rule: chunks.induct)
  case (1 n bs)
  show ?case
  proof (cases "n = 0 \<or> length bs < n")
    case False
    with 1 obtain p where p: "drop n bs = concat (chunks n (drop n bs)) @ p" "length p < n" by auto
    have "chunks n bs = take n bs # chunks n (drop n bs)" using False by (subst chunks.simps) simp
    then have "concat (chunks n bs) @ p = take n bs @ drop n bs" by (simp flip: p(1))
    with p(2) show ?thesis by (metis append_take_drop_id)
  next
    case True
    then have "chunks n bs = []" by (subst chunks.simps) simp
    with True 1 show ?thesis by auto
  qed
qed

lemma chunks_length: "ch \<in> set (chunks n bs) \<Longrightarrow> length ch = n \<and> 0 < n"
proof (induction n bs rule: chunks.induct)
  case (1 n bs)
  show ?case
  proof (cases "n = 0 \<or> length bs < n")
    case False
    then have "chunks n bs = take n bs # chunks n (drop n bs)" by (subst chunks.simps) simp
    with 1 False show ?thesis by auto
  next
    case True
    then have "chunks n bs = []" by (subst chunks.simps) simp
    with 1 show ?thesis by simp
  qed
qed

lemma length_chunks: "length (chunks n bs) = length bs div n"
proof (induction n bs rule: chunks.induct)
  case (1 n bs)
  then show ?case by (subst chunks.simps) (auto simp: le_div_geq)
qed

text \<open>
  C17. For a template of fixed-length fields the decoder is the map of the field
  extraction over the equal chunks of the payload, whatever the bytes are: as many rows as
  whole records fit, every one a data row, and no diagnostic row.
\<close>

theorem fixed_template_rows:
  assumes "fixed_template tpl"
  shows "decode_data_set tpl payload cx False =
           map (\<lambda>ch. row_of tpl cx (cut_fields (te_fields tpl) ch)) (chunks (min_fixed tpl) payload) \<and>
         length (decode_data_set tpl payload cx False) = length payload div min_fixed tpl"
proof -
  let ?fs = "te_fields tpl" and ?cs = "chunks (min_fixed tpl) payload"
  have pos: "0 < min_fixed tpl" and fixed: "list_all (\<lambda>f. \<not> is_variable f) ?fs"
    using assms by (simp_all add: fixed_template_def)
  obtain padding where p: "payload = concat ?cs @ padding" "length padding < min_fixed tpl"
    using chunks_concat [OF pos] by blast
  have cut: "list_all2 field_fits ?fs (cut_fields ?fs ch) \<and> put_record ?fs (cut_fields ?fs ch) = ch \<and> ch \<noteq> []"
    if "ch \<in> set ?cs" for ch
  proof -
    have "length ch = min_fixed tpl" "ch \<noteq> []" using chunks_length [OF that] by auto
    then show ?thesis using cut_fields_put [OF fixed, of ch] unfolding min_fixed_def by blast
  qed
  then have "map (put_record ?fs) (map (cut_fields ?fs) ?cs) = ?cs"
    by (simp add: map_idI)
  then have "decode_data_set tpl payload cx False = map (row_of tpl cx) (map (cut_fields ?fs) ?cs)"
    using record_loop_put [of "map (cut_fields ?fs) ?cs" tpl padding "cursor_new payload" cx] cut p
    by (simp add: decode_data_set_def)
  then show ?thesis by (simp add: length_chunks)
qed


definition sample_fixed :: template_entry where
  "sample_fixed = sample_template\<lparr>te_fields := [mk_field_spec 0 4 1, mk_field_spec 0 7 2]\<rparr>"

theorem fixed_template_rows_witness:
  "length (decode_data_set sample_fixed [6, 0, 80, 17, 0, 53, 9, 9] sample_ctx False) = 2"
proof -
  have fixed: "fixed_template sample_fixed" and n: "min_fixed sample_fixed = 3"
    by (simp_all add: sample_fixed_def sample_template_def fixed_template_def min_fixed_def
        is_variable_def sample_fields)
  have "length (decode_data_set sample_fixed [6, 0, 80, 17, 0, 53, 9, 9] sample_ctx False) =
      length [6, 0, 80, 17, 0, 53, 9, 9 :: u8] div min_fixed sample_fixed"
    using fixed_template_rows [OF fixed] by blast
  then show ?thesis by (simp add: n)
qed

section \<open>Any payload\<close>

lemma provenance_base [simp]:
  "provenance (base_record cx) = (cx_exporter cx, cx_version cx, cx_obs_domain cx,
     Some (cx_template_id cx), cx_export_time cx, cx_sequence cx)"
  by (simp add: base_record_def provenance_def)

lemma decode_fields_provenance:
  "decode_fields fs st c = Some (st', c') \<Longrightarrow> provenance (st_rec st') = provenance (st_rec st)"
  by (induction fs st c rule: decode_fields.induct) (auto split: Option.bind_splits if_splits)

lemma decode_one_record_provenance:
  "decode_one_record tpl cx c = Some (r, c') \<Longrightarrow> provenance r = provenance (base_record cx)"
  by (auto simp: decode_one_record_def dest!: decode_fields_provenance split: Option.bind_splits)

text \<open>The rows of any Data Set: data rows, then possibly one truncation row.\<close>

lemma record_loop_shape:
  "\<exists>rows tail. record_loop tpl cx c = rows @ tail \<and> (tail = [] \<or> tail = [truncated_row cx]) \<and>
     (\<forall>r \<in> set rows. provenance r = provenance (base_record cx)) \<and>
     length (rows @ tail) \<le> cur_remaining c"
proof (induction tpl cx c rule: record_loop.induct)
  case (1 tpl cx c)
  show ?case
  proof (cases "cur_remaining c = 0 \<or> min_fixed tpl > 0 \<and> cur_remaining c < min_fixed tpl")
    case True
    then have "record_loop tpl cx c = []" by (subst record_loop.simps) (auto simp: Let_def)
    then show ?thesis by simp
  next
    case go: False
    show ?thesis
    proof (cases "decode_one_record tpl cx c")
      case None
      with go have "record_loop tpl cx c = [] @ [truncated_row cx]"
        by (subst record_loop.simps) (auto simp: Let_def)
      moreover have "1 \<le> cur_remaining c" using go by simp
      ultimately show ?thesis
        by (metis One_nat_def append_Nil empty_iff empty_set list.size(3,4) add.commute plus_1_eq_Suc)
    next
      case (Some p)
      then obtain r c' where dec: "decode_one_record tpl cx c = Some (r, c')" by (cases p) auto
      note prov = decode_one_record_provenance [OF dec] and adv = advances_record [OF dec]
      show ?thesis
      proof (cases "cur_position c' = cur_position c")
        case True
        with go dec have "record_loop tpl cx c = [r] @ []"
          by (subst record_loop.simps) (auto simp: Let_def)
        with go prov show ?thesis by (intro exI [of _ "[r]"] exI [of _ "[]"]) auto
      next
        case False
        with go dec have step: "record_loop tpl cx c = r # record_loop tpl cx c'"
          by (subst record_loop.simps) (auto simp: Let_def)
        from 1 [of "cur_remaining c" "(r, c')" r c'] go dec False
        obtain rows tail where "record_loop tpl cx c' = rows @ tail"
          "tail = [] \<or> tail = [truncated_row cx]"
          "\<forall>r \<in> set rows. provenance r = provenance (base_record cx)"
          "length (rows @ tail) \<le> cur_remaining c'" by auto
        moreover have "cur_remaining c' < cur_remaining c"
          using go False adv by (intro advances_less) auto
        ultimately show ?thesis
          using prov by (intro exI [of _ "r # rows"] exI [of _ tail]) (auto simp: step)
      qed
    qed
  qed
qed

text \<open>
  C18. Decoding any payload with any template ends, with at most one row per payload byte;
  every row but possibly the last is a data row that carries the exporter, version, domain,
  template id, export time and sequence of its datagram, and the last may instead be the
  one \<open>truncated\<close> diagnostic of the same exporter and domain.
\<close>

theorem data_set_shape:
  "length (decode_data_set tpl payload cx flows_only) \<le> length payload \<and>
   (\<exists>rows tail. decode_data_set tpl payload cx flows_only = rows @ tail \<and>
      (tail = [] \<or>
       tail = [diagnostic (cx_exporter cx) (cx_version cx) (cx_obs_domain cx) (cx_export_time cx)
                 (cx_sequence cx) ''truncated'']) \<and>
      list_all (\<lambda>r. provenance r = (cx_exporter cx, cx_version cx, cx_obs_domain cx,
         Some (cx_template_id cx), cx_export_time cx, cx_sequence cx)) rows)"
proof (cases "flows_only \<and> te_kind tpl = TkOptions")
  case True
  then show ?thesis by (intro conjI exI [of _ "[]"]) (simp_all add: decode_data_set_def)
next
  case False
  then have d: "decode_data_set tpl payload cx flows_only = record_loop tpl cx (cursor_new payload)"
    unfolding decode_data_set_def by (rule if_not_P)
  from record_loop_shape [of tpl cx "cursor_new payload"]
  obtain rows tail where r: "record_loop tpl cx (cursor_new payload) = rows @ tail"
    "tail = [] \<or> tail = [truncated_row cx]"
    "\<forall>r \<in> set rows. provenance r = provenance (base_record cx)"
    "length (rows @ tail) \<le> length payload" by auto
  then have "length (decode_data_set tpl payload cx flows_only) \<le> length payload"
    by (simp add: d)
  moreover have "list_all (\<lambda>r. provenance r = (cx_exporter cx, cx_version cx, cx_obs_domain cx,
      Some (cx_template_id cx), cx_export_time cx, cx_sequence cx)) rows"
    using r(3) by (simp add: list_all_iff)
  ultimately show ?thesis
    using r(1,2) unfolding d truncated_row_def by blast
qed


section \<open>What a row keeps\<close>


lemma resolve_times_raw [simp]:
  "fr_raw_fields (resolve_times cx s e rec) = fr_raw_fields rec"
  "fr_bytes (resolve_times cx s e rec) = fr_bytes rec"
  by (simp_all add: resolve_times_def Let_def split: option.splits)

text \<open>
  What may be on the wire for the values of a record, whoever wrote it: a fixed-length field as it
  is, a variable-length one after its length, which the short form gives in a byte and the long form
  in three.
\<close>

inductive on_wire :: "field_spec list \<Rightarrow> bytes list \<Rightarrow> bytes \<Rightarrow> bool" where
  No_Field: "on_wire [] [] []"
| Fixed: "\<lbrakk> \<not> is_variable f; length v = unat (fs_length f); on_wire fs vs bs \<rbrakk> \<Longrightarrow>
    on_wire (f # fs) (v # vs) (v @ bs)"
| Short: "\<lbrakk> is_variable f; length v < 255; on_wire fs vs bs \<rbrakk> \<Longrightarrow>
    on_wire (f # fs) (v # vs) (of_nat (length v) # v @ bs)"
| Long: "\<lbrakk> is_variable f; length v < 65536; on_wire fs vs bs \<rbrakk> \<Longrightarrow>
    on_wire (f # fs) (v # vs) (255 # to_be_bytes 2 (of_nat (length v) :: u16) @ v @ bs)"

inductive_simps on_wire_simps [simp]:
  "on_wire [] vs bs" "on_wire (f # fs) vs bs"





text \<open>The columns of a record in the making: all but the raw fields and the diagnostics.\<close>

definition columns :: "field_state \<Rightarrow> field_state" where
  "columns st = st\<lparr>st_rec := (st_rec st)\<lparr>fr_raw_fields := [], fr_diagnostics := None\<rparr>\<rparr>"


lemma columns_note [simp]: "columns (st\<lparr>st_rec := note_diag m (st_rec st)\<rparr>) = columns st"
  by (simp add: columns_def note_diag_def split: option.splits)







text \<open>The byte counter: which elements feed it.\<close>

definition byte_ies :: "u16 set" where
  "byte_ies = {1, 23, 85, 351, 352}"

definition feeds_bytes :: "field_spec \<Rightarrow> bool" where
  "feeds_bytes f \<longleftrightarrow> fs_enterprise_number f = 0 \<and> fs_ie_id f \<in> byte_ies"

lemma map_field_bytes:
  "fr_bytes (st_rec (map_field f v st)) =
     (if feeds_bytes f \<and> (fr_bytes (st_rec st) = None \<or> fs_ie_id f = 1) then Some (be_uint v)
      else fr_bytes (st_rec st))"
proof (cases "feeds_bytes f")
  case True
  then show ?thesis
    unfolding feeds_bytes_def byte_ies_def
    by (elim conjE insertE emptyE) (simp_all add: map_field_def Let_def)
next
  case False
  show ?thesis
  proof (cases "kept_raw f \<or> fs_enterprise_number f \<noteq> 0")
    case True
    show ?thesis
    proof (cases "fs_enterprise_number f = 0")
      case True
      with \<open>kept_raw f \<or> _\<close> have "fs_ie_id f \<notin> mapped_ies" by (simp add: kept_raw_def)
      with True False show ?thesis by (simp add: mapped_ies_def map_field_def Let_def)
    qed (use False in \<open>simp add: map_field_def Let_def\<close>)
  next
    case mapped: False
    with False have "fs_ie_id f \<in> mapped_ies - byte_ies" "fs_enterprise_number f = 0"
      by (auto simp: kept_raw_def feeds_bytes_def)
    with False show ?thesis
      unfolding mapped_ies_def byte_ies_def
      by (elim DiffE insertE emptyE) (simp_all add: map_field_def Let_def)
  qed
qed

text \<open>The byte counter as a specification: the last \<open>octetDeltaCount\<close>, else the first other.\<close>

definition byte_count :: "(field_spec \<times> bytes) list \<Rightarrow> u64 option" where
  "byte_count fvs =
     (let fed = filter (\<lambda>(f, v). feeds_bytes f) fvs;
          delta = filter (\<lambda>(f, v). fs_ie_id f = 1) fed
      in if delta \<noteq> [] then Some (be_uint (snd (last delta)))
         else if fed \<noteq> [] then Some (be_uint (snd (hd fed))) else None)"

lemma byte_count_snoc:
  "byte_count (fvs @ [(f, v)]) =
     (if feeds_bytes f \<and> (byte_count fvs = None \<or> fs_ie_id f = 1) then Some (be_uint v)
      else byte_count fvs)"
  by (auto simp: byte_count_def Let_def hd_append)

lemma fold_bytes:
  "fr_bytes (st_rec st) = None \<Longrightarrow>
     fr_bytes (st_rec (fold (\<lambda>(f, v). map_field f v) fvs st)) = byte_count fvs"
proof (induction fvs rule: rev_induct)
  case Nil
  then show ?case by (simp add: byte_count_def)
next
  case (snoc p fvs)
  then show ?case by (cases p) (auto simp: map_field_bytes byte_count_snoc)
qed

text \<open>
  Counter precedence: the byte counter of a row is the last \<open>octetDeltaCount\<close> of the
  record when it has one, whatever the order of the fields, and otherwise the first of the
  total, out and layer-2 counters.
\<close>

theorem byte_counter_precedence:
  "fr_bytes (row_of tpl cx vs) = byte_count (zip (te_fields tpl) vs)"
  by (simp add: row_of_def Let_def map_fields_def fold_bytes initial_state_def base_record_def
      default_record_def)

section \<open>Flow times\<close>

lemma sint_small: "unat (w :: i64) < 2 ^ 63 \<Longrightarrow> sint w = int (unat w)"
proof -
  obtain n where n: "n = unat w" by simp
  then have "uint w = int n" by simp
  moreover assume "unat w < 2 ^ 63"
  ultimately show ?thesis by (simp add: sint_uint_cases n [symmetric])
qed

lemma sint_mult_exact_iff:
  "sint (w * k :: i64) = int (unat w * unat k) \<longleftrightarrow> unat w * unat k < 2 ^ 63"
proof
  assume "sint (w * k) = int (unat w * unat k)"
  moreover have "sint (w * k) < 2 ^ 63" using sint_lt [of "w * k"] by simp
  ultimately have "int (unat w * unat k) < 2 ^ 63" by (simp only:)
  then show "unat w * unat k < 2 ^ 63" by (metis of_nat_less_numeral_power_cancel_iff)
next
  assume less: "unat w * unat k < 2 ^ 63"
  then have "unat (w * k) = unat w * unat k"
    by (simp add: unat_word_ariths)
  with less show "sint (w * k) = int (unat w * unat k)"
    using sint_small [of "w * k"] by (simp only:)
qed

text \<open>
  C35. The absolute times of a record (elements 150 to 153, seconds or milliseconds) are
  exact in microseconds exactly when the product fits an \<open>i64\<close>; a larger value wraps.
  The product of a four-byte encoding always fits.
\<close>

theorem absolute_times_exact_iff:
  assumes "fs_enterprise_number f = 0" and "u = be_nat (take 8 bs)"
  shows "(fs_ie_id f = 150 \<longrightarrow> (\<exists>t. fr_flow_start (st_rec (map_field f bs st)) = Some t \<and>
            (sint t = int (u * 1000000) \<longleftrightarrow> u * 1000000 < 2 ^ 63))) \<and>
         (fs_ie_id f = 151 \<longrightarrow> (\<exists>t. fr_flow_end (st_rec (map_field f bs st)) = Some t \<and>
            (sint t = int (u * 1000000) \<longleftrightarrow> u * 1000000 < 2 ^ 63))) \<and>
         (fs_ie_id f = 152 \<longrightarrow> (\<exists>t. fr_flow_start (st_rec (map_field f bs st)) = Some t \<and>
            (sint t = int (u * 1000) \<longleftrightarrow> u * 1000 < 2 ^ 63))) \<and>
         (fs_ie_id f = 153 \<longrightarrow> (\<exists>t. fr_flow_end (st_rec (map_field f bs st)) = Some t \<and>
            (sint t = int (u * 1000) \<longleftrightarrow> u * 1000 < 2 ^ 63))) \<and>
         (length bs \<le> 4 \<longrightarrow> u * 1000000 < 2 ^ 63)"
proof -
  have short: "u * 1000000 < 2 ^ 63" if "length bs \<le> 4"
  proof -
    have "u < 256 ^ length bs" using be_nat_bound [of bs] that by (simp add: assms(2))
    also have "\<dots> \<le> 256 ^ 4" using that by (intro power_increasing) simp_all
    finally show ?thesis by simp
  qed
  have u: "u = unat (be_uint bs)" by (simp add: assms(2) be_uint_eq unat_from_be)
  have k: "unat (1000000 :: u64) = 1000000" "unat (1000 :: u64) = 1000" by simp_all
  have "sint (be_uint bs * 1000000) = int (u * 1000000) \<longleftrightarrow> u * 1000000 < 2 ^ 63"
    "sint (be_uint bs * 1000) = int (u * 1000) \<longleftrightarrow> u * 1000 < 2 ^ 63"
    using sint_mult_exact_iff [of "be_uint bs" 1000000] sint_mult_exact_iff [of "be_uint bs" 1000]
    by (simp_all only: u k)
  with assms(1) short show ?thesis
    by (simp add: map_field_def Let_def del: of_nat_mult)
qed

text \<open>An eight-byte \<open>flowStartMilliseconds\<close> too large for the conversion.\<close>

definition huge_millis :: bytes where
  "huge_millis = [0x40, 0, 0, 0, 0, 0, 0, 0]"

theorem absolute_times_exact_iff_witness:
  "\<exists>t. fr_flow_start (st_rec (map_field (mk_field_spec 0 152 8) huge_millis (initial_state sample_ctx))) =
      Some t \<and> sint t \<noteq> int (2 ^ 62 * 1000)"
proof -
  have "fs_enterprise_number (mk_field_spec 0 152 8) = 0" "fs_ie_id (mk_field_spec 0 152 8) = 152"
    by (simp_all add: mk_field_spec_def Let_def split: option.splits)
  moreover have "2 ^ 62 = be_nat (take 8 huge_millis)" by (simp add: huge_millis_def be_nat_Cons)
  ultimately show ?thesis
    using absolute_times_exact_iff [of "mk_field_spec 0 152 8" "2 ^ 62" huge_millis
        "initial_state sample_ctx"]
    by auto
qed

definition boot_offset :: "i64 \<Rightarrow> u32 \<Rightarrow> u32 \<Rightarrow> int" where
  "boot_offset export uptime s = sint export - int (unat uptime) * 1000 + int (unat s) * 1000"

lemma boot_offset_exact:
  assumes "0 \<le> sint export" and "sint export < 2 ^ 62"
  shows "sint (export - ucast (uptime :: u32) * 1000 + ucast (s :: u32) * 1000 :: i64) =
    boot_offset export uptime s"
proof -
  have fits: "i64_fits (a * 1000)" "i64_fits (x - a * 1000)" "i64_fits (x - a * 1000 + b * 1000)"
    if "0 \<le> a" "a < 2 ^ 32" "0 \<le> b" "b < 2 ^ 32" "0 \<le> x" "x < 2 ^ 62" for a b x :: int
    using that by (simp_all add: i64_fits_def)
  have bound: "0 \<le> int (unat w)" "int (unat w) < 2 ^ 32" for w :: u32
    using uint_bounded [of w] by simp_all
  note f = fits [OF bound [of uptime] bound [of s] assms]
  have k: "sint (1000 :: i64) = 1000" by simp
  have m: "sint (ucast w * 1000 :: i64) = int (unat w) * 1000" for w :: u32
    using fits(1) [OF bound [of w] bound [of w] assms]
    by (subst i64_mult) (simp_all only: i64_of_u32 k)
  have d: "sint (export - ucast uptime * 1000) = sint export - int (unat uptime) * 1000"
    using f(2) by (subst i64_sub) (simp_all only: m)
  show ?thesis
    using f(3) by (subst i64_add) (simp_all only: m d boot_offset_def)
qed

text \<open>
  Relative flow times (elements 22 and 21) are resolved against the boot time of the
  exporter without any wrap: whenever the export time is within the range of a 32-bit clock,
  a flow start that the record did not give as an absolute time is the export time minus the
  header uptime plus the element's milliseconds, and an absolute time already there stays.
\<close>

theorem relative_times_exact:
  assumes "cx_export_time cx = Some export" and "0 \<le> sint export" and "sint export < 2 ^ 62"
    and "cx_sys_uptime_ms cx = Some (ucast uptime)"
  shows "(case fr_flow_start rec of
            None \<Rightarrow> map_option sint (fr_flow_start (resolve_times cx (Some s) (Some e) rec)) =
                     Some (boot_offset export uptime s)
          | Some t \<Rightarrow> fr_flow_start (resolve_times cx (Some s) (Some e) rec) = Some t) \<and>
         (case fr_flow_end rec of
            None \<Rightarrow> map_option sint (fr_flow_end (resolve_times cx (Some s) (Some e) rec)) =
                     Some (boot_offset export uptime e)
          | Some t \<Rightarrow> fr_flow_end (resolve_times cx (Some s) (Some e) rec) = Some t)"
  using assms
  by (simp add: resolve_times_def Let_def boot_offset_exact split: option.splits)

theorem relative_times_exact_witness:
  "map_option sint (fr_flow_start (resolve_times
      (sample_ctx\<lparr>cx_export_time := Some 5000000, cx_sys_uptime_ms := Some (ucast (3000 :: u32))\<rparr>)
      (Some 1000) (Some 2000) default_record)) = Some 3000000"
  using relative_times_exact [of "sample_ctx\<lparr>cx_export_time := Some 5000000,
      cx_sys_uptime_ms := Some (ucast (3000 :: u32))\<rparr>" 5000000 3000 1000 2000 default_record]
  by (simp add: boot_offset_def default_record_def)

lemma ntp_fraction:
  "sint (drop_bit 32 (ucast (f :: u32) * 1000000) :: i64) = int (unat f * 1000000 div 2 ^ 32) \<and>
   unat f * 1000000 div 2 ^ 32 < 1000000"
proof -
  obtain n where n: "n = unat f" by simp
  have b: "n < 2 ^ 32" using unsigned_less [where w = f and 'a = nat] n by simp
  have "unat (ucast f * 1000000 :: u64) = n * 1000000"
    using b by (simp add: unat_word_ariths unat_ucast_u32 n [symmetric])
  then have u: "unat (drop_bit 32 (ucast f * 1000000 :: u64)) = n * 1000000 div 2 ^ 32"
    by (subst unat_drop_bit_eq) (simp only: drop_bit_eq_div)
  have l: "n * 1000000 div 2 ^ 32 < 1000000" using b by (intro less_mult_imp_div_less) simp
  with u sint_small [of "drop_bit 32 (ucast f * 1000000 :: u64)"] show ?thesis
    unfolding n [symmetric] by simp
qed

lemma ntp_exact:
  "sint ((ucast (s :: u32) - 2208988800) * 1000000 + drop_bit 32 (ucast (f :: u32) * 1000000) :: i64) =
     (int (unat s) - 2208988800) * 1000000 + int (unat f * 1000000 div 2 ^ 32)"
proof -
  obtain q where q: "q = unat f * 1000000 div 2 ^ 32" by simp
  have fr: "sint (drop_bit 32 (ucast f * 1000000) :: i64) = int q" "int q < 1000000" "0 \<le> int q"
    using ntp_fraction [of f] by (simp_all only: q, simp_all)
  have fits: "i64_fits (a - 2208988800)" "i64_fits ((a - 2208988800) * 1000000)"
    "i64_fits ((a - 2208988800) * 1000000 + b)"
    if "0 \<le> a" "a < 2 ^ 32" "b < 1000000" "0 \<le> b" for a b :: int
    using that by (simp_all add: i64_fits_def)
  have s: "0 \<le> int (unat s)" "int (unat s) < 2 ^ 32" using uint_bounded [of s] by simp_all
  note f = fits [OF s fr(2,3)]
  have k: "sint (1000000 :: i64) = 1000000" "sint (2208988800 :: i64) = 2208988800" by simp_all
  have "sint (ucast s - 2208988800 :: i64) = int (unat s) - 2208988800"
    using f(1) by (subst i64_sub) (simp_all only: i64_of_u32 k)
  then have "sint ((ucast s - 2208988800) * 1000000 :: i64) = (int (unat s) - 2208988800) * 1000000"
    using f(2) by (subst i64_mult) (simp_all only: k)
  then show ?thesis
    using f(3) by (subst i64_add) (simp_all only: fr q)
qed

text \<open>
  NTP times (elements 154 to 157) are exact: eight bytes, seconds since 1900 and a
  32-bit fraction, become the microseconds since 1970, the fraction rounded down, before
  1970 included; any other length is rejected.
\<close>

theorem ntp_micros_exact:
  "map_option sint (ntp_micros bs) =
     (if length bs = 8
      then Some ((int (be_nat (take 4 bs)) - 2208988800) * 1000000 +
                 int (be_nat (drop 4 bs) * 1000000 div 2 ^ 32))
      else None)"
proof (cases "length bs = 8")
  case True
  obtain s f where s: "s = (from_be (take 4 bs) :: u32)" and f: "f = (from_be (drop 4 bs) :: u32)"
    by simp
  have nths: "[bs ! 0, bs ! 1, bs ! 2, bs ! 3] = take 4 bs" "[bs ! 4, bs ! 5, bs ! 6, bs ! 7] = drop 4 bs"
    using True by (auto intro!: nth_equalityI simp: less_Suc_eq eval_nat_numeral nth_Cons')
  have vs: "be_nat (take 4 bs) = unat s" and vf: "be_nat (drop 4 bs) = unat f"
    using True by (simp_all add: s f unat_from_be)
  have "ntp_micros bs =
      Some ((ucast s - 2208988800) * 1000000 + drop_bit 32 (ucast f * 1000000))"
    using True by (simp add: ntp_micros_def nths Let_def s [symmetric] f [symmetric] del: One_nat_def)
  then show ?thesis
    by (simp only: True ntp_exact vs vf option.map if_True simp_thms)
qed (simp add: ntp_micros_def)


section \<open>Enterprise fields\<close>

lemma ie_type_name_octet: "ie_type_name t = ''octetArray'' \<longleftrightarrow> t = OctetArray"
  by (cases t) simp_all

lemma vendor_names:
  "list_all (\<lambda>d. \<not> (take 1 (def_name d) = ''e'' \<and> def_ty d = OctetArray)) (VMWARE @ NOKIA)"
  by (simp add: VMWARE_def NOKIA_def)

lemma enterprise_lookup_in: "enterprise_lookup pen ie = Some d \<Longrightarrow> d \<in> set (VMWARE @ NOKIA)"
  by (auto simp: enterprise_lookup_def find_Some_iff split: if_splits)

text \<open>
  Vendor fields never reach the normalized columns: such a field is appended to the raw
  fields, and the row is noted \<open>enterprise-unmapped\<close> exactly when the bundled vendor
  tables do not know the element.
\<close>

theorem enterprise_field_raw:
  assumes "pen \<noteq> 0"
  shows "map_field (mk_field_spec pen ie len) bs st =
    st\<lparr>st_rec := put_raw (fs_name (mk_field_spec pen ie len)) bs
      (case enterprise_lookup pen ie of
         None \<Rightarrow> note_diag ''enterprise-unmapped'' (st_rec st)
       | Some _ \<Rightarrow> st_rec st)\<rparr>"
proof (cases "enterprise_lookup pen ie")
  case None
  with assms show ?thesis
    by (simp add: map_field_def mk_field_spec_def resolve_def Let_def)
next
  case (Some d)
  with enterprise_lookup_in [OF Some] vendor_names
  have "\<not> (take 1 (def_name d) = ''e'' \<and> ie_type_name (def_ty d) = ''octetArray'')"
    by (auto simp: ie_type_name_octet list_all_iff)
  with Some assms show ?thesis
    by (auto simp: map_field_def mk_field_spec_def resolve_def Let_def)
qed

theorem enterprise_field_raw_witness:
  "fr_raw_fields (st_rec (map_field (mk_field_spec 999 1 2) [1, 2] (initial_state sample_ctx))) =
     [(''e999id1'', [1, 2])]"
proof -
  have "enterprise_lookup 999 1 = None" by (simp add: enterprise_lookup_def PEN_VMWARE_def PEN_NOKIA_def)
  moreover have "fs_name (mk_field_spec 999 1 2) = ''e999id1''"
    using \<open>enterprise_lookup 999 1 = None\<close>
    by (simp add: mk_field_spec_def resolve_def Let_def dec_of_word_def dec_of_nat.simps char_of_def bit_0)
  ultimately show ?thesis
    using enterprise_field_raw [of 999 1 2 "[1, 2]" "initial_state sample_ctx"]
    by (simp add: initial_state_def base_record_def default_record_def)
qed

end
