(* ===== verification/V5.thy ===== *)
theory V5
  imports Header Normalize Data_Set
begin

text \<open>
  \<open>decode/v5.rs\<close>: NetFlow v5, a fixed header and fixed 48-byte records, without state.
\<close>

definition V5_RECORD_LEN :: nat where "V5_RECORD_LEN = 48"

definition v5_decode_record ::
  "bytes \<Rightarrow> string \<Rightarrow> u32 \<Rightarrow> export_header \<Rightarrow> i64 option \<Rightarrow> flow_record" where
  "v5_decode_record b exporter obs_domain hdr boot_micros =
     (let (src, c) = read_or (cur_take 4) [] (cursor_new b);
          (dst, c) = read_or (cur_take 4) [] c;
          (nexthop, c) = read_or (cur_take 4) [] c;
          (input, c) = read_or cur_u16 0 c;
          (output, c) = read_or cur_u16 0 c;
          (dpkts, c) = read_or cur_u32 0 c;
          (doctets, c) = read_or cur_u32 0 c;
          (first, c) = read_or cur_u32 0 c;
          (last_ms, c) = read_or cur_u32 0 c;
          (srcport, c) = read_or cur_u16 0 c;
          (dstport, c) = read_or cur_u16 0 c;
          (pad1, c) = try_read cur_u8 c;
          (tcp_flags, c) = read_or cur_u8 0 c;
          (prot, c) = read_or cur_u8 0 c;
          (tos, c) = read_or cur_u8 0 c;
          (src_as, c) = read_or cur_u16 0 c;
          (dst_as, c) = read_or cur_u16 0 c;
          (src_mask, c) = read_or cur_u8 0 c;
          (dst_mask, c) = read_or cur_u8 0 c;
          (flow_start, flow_end) =
            (case boot_micros of
               Some boot \<Rightarrow> (Some (boot + ucast first * 1000), Some (boot + ucast last_ms * 1000))
             | None \<Rightarrow> (None, None))
      in \<lparr>fr_exporter = exporter, fr_flow_version = ''5'', fr_obs_domain = obs_domain,
          fr_template_id = None, fr_export_time = eh_export_time hdr,
          fr_sequence = eh_sequence hdr, fr_src_addr = inet4 src, fr_dst_addr = inet4 dst,
          fr_src_port = Some srcport, fr_dst_port = Some dstport, fr_protocol = Some prot,
          fr_tcp_flags = Some tcp_flags, fr_bytes = Some (ucast doctets),
          fr_packets = Some (ucast dpkts), fr_flow_start = flow_start, fr_flow_end = flow_end,
          fr_src_as = Some (ucast src_as), fr_dst_as = Some (ucast dst_as),
          fr_input_snmp = Some (ucast input), fr_output_snmp = Some (ucast output),
          fr_next_hop = inet4 nexthop, fr_tos = Some tos, fr_src_mask = Some src_mask,
          fr_dst_mask = Some dst_mask, fr_sampling_rate = None, fr_direction = None,
          fr_raw_fields = [], fr_diagnostics = None\<rparr>)"

fun v5_loop ::
  "nat \<Rightarrow> cursor \<Rightarrow> string \<Rightarrow> u32 \<Rightarrow> export_header \<Rightarrow> i64 option \<Rightarrow> flow_record list" where
  "v5_loop 0 cur exporter obs_domain hdr boot_micros = []"
| "v5_loop (Suc n) cur exporter obs_domain hdr boot_micros =
     (case cur_take V5_RECORD_LEN cur of
        None \<Rightarrow> [diagnostic exporter ''5'' obs_domain (eh_export_time hdr) (eh_sequence hdr)
                  ''truncated'']
      | Some (b, cur) \<Rightarrow>
          v5_decode_record b exporter obs_domain hdr boot_micros #
          v5_loop n cur exporter obs_domain hdr boot_micros)"

definition v5_boot :: "export_header \<Rightarrow> i64 option" where
  "v5_boot hdr =
     (case (eh_export_time hdr, eh_sys_uptime hdr) of
        (Some e, Some u) \<Rightarrow> Some (e - ucast u * 1000)
      | _ \<Rightarrow> None)"

definition v5_decode :: "bytes \<Rightarrow> string \<Rightarrow> flow_record list" where
  "v5_decode data exporter =
     (case parse_header data of
        None \<Rightarrow> [diagnostic exporter ''5'' 0 None None ''decode-error:bad-v5-header'']
      | Some hdr \<Rightarrow>
          let count = unat (unwrap_or (eh_count hdr) 0);
              obs_domain = unwrap_or (eh_obs_domain hdr) 0;
              boot_micros = v5_boot hdr;
              (_, cur) = cur_skip 24 (cursor_new data)
          in v5_loop count cur exporter obs_domain hdr boot_micros)"

section \<open>The loop as a map\<close>

lemma v5_loop_eq:
  "v5_loop n cur ex d hdr boot =
     map (\<lambda>b. v5_decode_record b ex d hdr boot) (take n (chunks 48 (cur_rest cur))) @
     (if cur_remaining cur div 48 < n
      then [diagnostic ex ''5'' d (eh_export_time hdr) (eh_sequence hdr) ''truncated''] else [])"
proof (induction n arbitrary: cur)
  case (Suc n)
  show ?case
  proof (cases "48 \<le> cur_remaining cur")
    case True
    then have "chunks 48 (cur_rest cur) = take 48 (cur_rest cur) # chunks 48 (drop 48 (cur_rest cur))"
      by (subst chunks.simps) simp
    with True Suc [of "cur_advance 48 cur"] show ?thesis
      by (simp add: V5_RECORD_LEN_def cur_take_eq le_div_geq)
  next
    case False
    then have "chunks 48 (cur_rest cur) = []" by (subst chunks.simps) simp
    with False show ?thesis by (simp add: V5_RECORD_LEN_def cur_take_eq)
  qed
qed simp

text \<open>
  C26. A NetFlow v5 datagram with a whole header yields one row for each of the first
  \<open>count\<close> 48-byte records present, in order, each computed from its own 48 bytes and the
  header alone; when fewer are present than the header announces there is exactly one
  more row, the \<open>truncated\<close> diagnostic.
\<close>

theorem v5_rows:
  assumes "parse_header data = Some hdr" and "eh_count hdr = Some count"
    and "eh_obs_domain hdr = Some domain" and "24 \<le> length data"
  shows "v5_decode data ex =
    map (\<lambda>b. v5_decode_record b ex domain hdr (v5_boot hdr))
      (take (unat count) (chunks 48 (drop 24 data))) @
    (if (length data - 24) div 48 < unat count
     then [diagnostic ex ''5'' domain (eh_export_time hdr) (eh_sequence hdr) ''truncated'']
     else [])"
  using assms by (simp add: v5_decode_def cur_skip_eq v5_loop_eq)

definition v5_sample :: bytes where
  "v5_sample = v5_header 2 1000 1700000000 0 7 0 3 0 @ replicate 60 1"

theorem v5_rows_witness: "length (v5_decode v5_sample ''r'') = 2"
proof -
  have "length (chunks 48 (drop 24 v5_sample)) = 1"
    by (simp add: length_chunks v5_sample_def v5_header_def)
  moreover have "length v5_sample = 84" by (simp add: v5_sample_def v5_header_def)
  ultimately show ?thesis
    using v5_rows [OF parse_v5_header [of 2 1000 1700000000 0 7 0 3 0 "replicate 60 1",
        folded v5_sample_def], of 2 3 "''r''"]
    by simp
qed

section \<open>Record round trip\<close>

text \<open>A v5 record as an exporter writes it.\<close>

record v5_flow =
  vf_src :: bytes
  vf_dst :: bytes
  vf_nexthop :: bytes
  vf_input :: u16
  vf_output :: u16
  vf_packets :: u32
  vf_octets :: u32
  vf_first :: u32
  vf_last :: u32
  vf_srcport :: u16
  vf_dstport :: u16
  vf_flags :: u8
  vf_prot :: u8
  vf_tos :: u8
  vf_src_as :: u16
  vf_dst_as :: u16
  vf_src_mask :: u8
  vf_dst_mask :: u8

definition put_v5 :: "v5_flow \<Rightarrow> bytes" where
  "put_v5 f = vf_src f @ vf_dst f @ vf_nexthop f @ to_be_bytes 2 (vf_input f) @
     to_be_bytes 2 (vf_output f) @ to_be_bytes 4 (vf_packets f) @ to_be_bytes 4 (vf_octets f) @
     to_be_bytes 4 (vf_first f) @ to_be_bytes 4 (vf_last f) @ to_be_bytes 2 (vf_srcport f) @
     to_be_bytes 2 (vf_dstport f) @ [0] @ to_be_bytes 1 (vf_flags f) @ to_be_bytes 1 (vf_prot f) @
     to_be_bytes 1 (vf_tos f) @ to_be_bytes 2 (vf_src_as f) @ to_be_bytes 2 (vf_dst_as f) @
     to_be_bytes 1 (vf_src_mask f) @ to_be_bytes 1 (vf_dst_mask f) @ [0, 0]"

definition v5_flow_ok :: "v5_flow \<Rightarrow> bool" where
  "v5_flow_ok f \<longleftrightarrow> length (vf_src f) = 4 \<and> length (vf_dst f) = 4 \<and> length (vf_nexthop f) = 4"

lemma length_put_v5: "v5_flow_ok f \<Longrightarrow> length (put_v5 f) = 48"
  by (simp add: v5_flow_ok_def put_v5_def)

lemma chunks_of_records:
  assumes "\<forall>x \<in> set xs. length x = n" and "0 < n"
  shows "chunks n (concat xs) = xs"
  using assms by (induction xs) (simp_all add: chunks.simps)

lemma put_v5_read:
  assumes "v5_flow_ok f"
  shows "v5_decode_record (put_v5 f) ex domain hdr (Some boot) =
     default_record\<lparr>fr_exporter := ex, fr_flow_version := ''5'', fr_obs_domain := domain,
       fr_export_time := eh_export_time hdr, fr_sequence := eh_sequence hdr,
       fr_src_addr := inet4 (vf_src f), fr_dst_addr := inet4 (vf_dst f),
       fr_next_hop := inet4 (vf_nexthop f),
       fr_src_port := Some (vf_srcport f), fr_dst_port := Some (vf_dstport f),
       fr_protocol := Some (vf_prot f), fr_tcp_flags := Some (vf_flags f), fr_tos := Some (vf_tos f),
       fr_bytes := Some (ucast (vf_octets f)), fr_packets := Some (ucast (vf_packets f)),
       fr_src_as := Some (ucast (vf_src_as f)), fr_dst_as := Some (ucast (vf_dst_as f)),
       fr_input_snmp := Some (ucast (vf_input f)), fr_output_snmp := Some (ucast (vf_output f)),
       fr_src_mask := Some (vf_src_mask f), fr_dst_mask := Some (vf_dst_mask f),
       fr_flow_start := Some (boot + ucast (vf_first f) * 1000),
       fr_flow_end := Some (boot + ucast (vf_last f) * 1000)\<rparr>"
  using assms
  by (simp add: v5_flow_ok_def v5_decode_record_def put_v5_def reader_simps read_or_def from_be_to_be Let_def
      default_record_def)

text \<open>
  C27. Record round trip: from a datagram as an exporter writes it, header and records, the decoder
  reads one row per record, in order and no diagnostic, whose columns are the fields the exporter
  wrote, each in its place, under the export time, sequence number and engine of the header; and the
  flow times are exact, with no wrap for any values: the export time of the header (its seconds and
  nanoseconds), minus its uptime, plus the record's milliseconds.
\<close>

theorem v5_record_roundtrip:
  assumes "list_all v5_flow_ok fs" and "length fs < 65536"
  shows "list_all2 (\<lambda>f r. \<exists>t0 t1 t2.
       r = default_record\<lparr>fr_exporter := ex, fr_flow_version := ''5'', fr_obs_domain := ucast engine,
         fr_export_time := Some t0, fr_sequence := Some (ucast q),
         fr_src_addr := inet4 (vf_src f), fr_dst_addr := inet4 (vf_dst f),
         fr_next_hop := inet4 (vf_nexthop f),
         fr_src_port := Some (vf_srcport f), fr_dst_port := Some (vf_dstport f),
         fr_protocol := Some (vf_prot f), fr_tcp_flags := Some (vf_flags f), fr_tos := Some (vf_tos f),
         fr_bytes := Some (ucast (vf_octets f)), fr_packets := Some (ucast (vf_packets f)),
         fr_src_as := Some (ucast (vf_src_as f)), fr_dst_as := Some (ucast (vf_dst_as f)),
         fr_input_snmp := Some (ucast (vf_input f)), fr_output_snmp := Some (ucast (vf_output f)),
         fr_src_mask := Some (vf_src_mask f), fr_dst_mask := Some (vf_dst_mask f),
         fr_flow_start := Some t1, fr_flow_end := Some t2\<rparr> \<and>
       sint t0 = int (unat secs) * 1000000 + int (unat nsecs) div 1000 \<and>
       sint t1 = sint t0 - int (unat uptime) * 1000 + int (unat (vf_first f)) * 1000 \<and>
       sint t2 = sint t0 - int (unat uptime) * 1000 + int (unat (vf_last f)) * 1000)
    fs (v5_decode (v5_header (of_nat (length fs)) uptime secs nsecs q etype engine sampling @
      concat (map put_v5 fs)) ex)"
proof -
  let ?t0 = "ucast secs * 1000000 + i64_div (ucast nsecs) 1000 :: i64"
  let ?hdr = "\<lparr>eh_version = 5, eh_count = Some (of_nat (length fs)), eh_sys_uptime = Some uptime,
    eh_export_time = Some ?t0, eh_sequence = Some (ucast q), eh_obs_domain = Some (ucast engine)\<rparr>"
  have chunks: "chunks 48 (concat (map put_v5 fs)) = map put_v5 fs"
    using assms(1) by (intro chunks_of_records) (auto simp: list_all_iff length_put_v5)
  have len: "length (concat (map put_v5 fs)) = 48 * length fs"
    using assms(1) by (induction fs) (simp_all add: length_put_v5)
  have head: "drop 24 (v5_header n u s ns q e i m @ rest) = rest" "length (v5_header n u s ns q e i m) = 24"
    for n u s ns q e i m rest by (simp_all add: v5_header_def)
  have rows: "v5_decode (v5_header (of_nat (length fs)) uptime secs nsecs q etype engine sampling @ concat (map put_v5 fs)) ex =
      map (\<lambda>f. v5_decode_record (put_v5 f) ex (ucast engine) ?hdr (v5_boot ?hdr)) fs"
    using assms(2) by (simp add: v5_decode_def parse_v5_header cur_skip_eq v5_loop_eq head chunks len unat_of_nat
        comp_def Let_def del: concat.simps length_concat drop_append)
  have hdr: "v5_boot ?hdr = Some (?t0 - ucast uptime * 1000)" by (simp add: v5_boot_def)
  have micros: "sint ?t0 = int (unat secs) * 1000000 + int (unat nsecs) div 1000" by (rule export_micros(2))
  have "int (unat nsecs div 1000) \<le> int (unat nsecs)" by (simp only: of_nat_le_iff div_le_dividend)
  then have "int (unat nsecs) div 1000 \<le> int (unat nsecs)" by (simp only: of_nat_div of_nat_numeral)
  moreover have "0 \<le> int (unat nsecs) div 1000" by (simp add: pos_imp_zdiv_nonneg_iff)
  moreover have "0 \<le> int (unat secs)" "int (unat secs) < 2 ^ 32" "int (unat nsecs) < 2 ^ 32"
    using uint_bounded [of secs] uint_bounded [of nsecs] by simp_all
  ultimately have "0 \<le> sint ?t0 \<and> sint ?t0 < 2 ^ 32 * 1000000 + 2 ^ 32" unfolding micros by linarith
  then have range: "0 \<le> sint ?t0" "sint ?t0 < 2 ^ 62" by simp_all
  note boot = boot_offset_exact [OF range, unfolded boot_offset_def]
  show ?thesis
    unfolding rows hdr
    unfolding list_all2_map2 list_all2_same
    by (intro ballI exI conjI, rule trans [OF put_v5_read], use assms(1) in \<open>simp add: list_all_iff\<close>,
        simp only: export_header.simps, rule micros, (rule boot)+)
qed

definition v5_sample_flow :: v5_flow where
  "v5_sample_flow = \<lparr>vf_src = [10, 0, 0, 1], vf_dst = [10, 0, 0, 2], vf_nexthop = [0, 0, 0, 0],
     vf_input = 1, vf_output = 2, vf_packets = 10, vf_octets = 1200, vf_first = 500, vf_last = 900,
     vf_srcport = 443, vf_dstport = 51000, vf_flags = 24, vf_prot = 6, vf_tos = 0, vf_src_as = 0,
     vf_dst_as = 0, vf_src_mask = 24, vf_dst_mask = 16\<rparr>"

theorem v5_record_roundtrip_witness:
  "map fr_bytes (v5_decode (v5_header 1 1000 1700000000 0 7 0 3 0 @ put_v5 v5_sample_flow) ''r'') = [Some 1200]"
  using v5_record_roundtrip [where fs = "[v5_sample_flow]" and ex = "''r''" and engine = 3 and q = 7
      and secs = 1700000000 and nsecs = 0 and uptime = 1000 and etype = 0 and sampling = 0]
  by (auto simp: v5_sample_flow_def v5_flow_ok_def list_all2_Cons1)

end
