(* ===== verification/Sets.thy ===== *)
theory Sets
  imports Header Data_Set
begin

text \<open>
  What NetFlow v9 and IPFIX share: both are a header followed by Sets, both learn layouts
  into the cache in a first pass and decode, buffer or report Data Sets in a second.  The
  code has the two passes twice (\<open>v9.rs\<close>, \<open>ipfix.rs\<close>); their contracts are stated here
  once, as locales that the two theories interpret on their own functions.
\<close>

section \<open>Sets on the wire\<close>

record flow_set =
  set_id :: u16
  set_body :: bytes

definition put_set :: "flow_set \<Rightarrow> bytes" where
  "put_set s = to_be_bytes 2 (set_id s) @ to_be_bytes 2 (of_nat (length (set_body s) + 4) :: u16) @
     set_body s"

definition set_fits :: "flow_set \<Rightarrow> bool" where
  "set_fits s \<longleftrightarrow> length (set_body s) + 4 < 65536"

lemma unat_of_nat_u16: "k < 65536 \<Longrightarrow> unat (of_nat k :: u16) = k"
  by (simp add: unat_of_nat)

text \<open>The splitters of the two decoders differ in their error string only.\<close>

locale set_splitter =
  fixes split :: "bytes \<Rightarrow> string + flow_set list" and err :: string
  assumes split_short: "length region < 4 \<Longrightarrow> split region = Inr []"
    and split_bad: "4 \<le> length region \<Longrightarrow> be_nat (take 2 (drop 2 region)) < 4 \<or>
        length region < be_nat (take 2 (drop 2 region)) \<Longrightarrow> split region = Inl err"
    and split_good: "4 \<le> be_nat (take 2 (drop 2 region)) \<Longrightarrow>
        be_nat (take 2 (drop 2 region)) \<le> length region \<Longrightarrow>
        split region =
          (case split (drop (be_nat (take 2 (drop 2 region))) region) of
             Inl e \<Rightarrow> Inl e
           | Inr sets \<Rightarrow> Inr (\<lparr>set_id = from_be (take 2 region),
               set_body = drop 4 (take (be_nat (take 2 (drop 2 region))) region)\<rparr> # sets))"
begin

lemma split_put_set:
  assumes "set_fits s"
  shows "split (put_set s @ bs) = (case split bs of Inl e \<Rightarrow> Inl e | Inr sets \<Rightarrow> Inr (s # sets))"
proof -
  let ?n = "length (set_body s) + 4" and ?r = "put_set s @ bs"
  have n: "?n < 65536" using assms by (simp add: set_fits_def)
  then have u: "unat (of_nat ?n :: u16) = ?n" by (rule unat_of_nat_u16)
  have len: "be_nat (take 2 (drop 2 ?r)) = ?n"
    using n by (simp add: put_set_def to_be_bytes_def be_nat_be_bytes u del: of_nat_add)
  have parts: "take ?n ?r = put_set s" "drop ?n ?r = bs" "from_be (take 2 ?r) = set_id s"
    "drop 4 (put_set s) = set_body s"
    by (simp_all add: put_set_def from_be_to_be)
  have "split ?r = (case split (drop ?n ?r) of Inl e \<Rightarrow> Inl e
      | Inr sets \<Rightarrow> Inr (\<lparr>set_id = from_be (take 2 ?r), set_body = drop 4 (take ?n ?r)\<rparr> # sets))"
    by (rule split_good [of ?r, unfolded len]) (simp_all add: put_set_def)
  then show ?thesis
    unfolding parts by (simp split: sum.splits)
qed

lemma split_put_sets:
  "\<forall>s \<in> set sets. set_fits s \<Longrightarrow> length padding < 4 \<Longrightarrow>
     split (concat (map put_set sets) @ padding) = Inr sets"
  by (induction sets) (simp_all add: split_put_set split_short)

text \<open>Conversely, an accepted region is the image of the sets it is split into.\<close>

lemma split_sound:
  "split region = Inr sets \<Longrightarrow>
     \<exists>padding. region = concat (map put_set sets) @ padding \<and> length padding < 4 \<and>
       (\<forall>s \<in> set sets. set_fits s)"
proof (induction "length region" arbitrary: region sets rule: less_induct)
  case less
  let ?n = "be_nat (take 2 (drop 2 region))"
  show ?case
  proof (cases "length region < 4")
    case True
    with less.prems show ?thesis by (simp add: split_short)
  next
    case False
    with less.prems have n: "4 \<le> ?n" "?n \<le> length region"
      using split_bad [of region] by fastforce+
    let ?s = "\<lparr>set_id = from_be (take 2 region), set_body = drop 4 (take ?n region)\<rparr>"
    from less.prems split_good [OF n] obtain rest
      where rest: "split (drop ?n region) = Inr rest" and sets: "sets = ?s # rest"
      by (auto split: sum.splits)
    have "length (drop ?n region) < length region" using n by simp
    from less.hyps [OF this rest] obtain padding
      where p: "drop ?n region = concat (map put_set rest) @ padding" "length padding < 4"
        "\<forall>s \<in> set rest. set_fits s" by blast
    have small: "?n < 65536" using be_nat_bound [of "take 2 (drop 2 region)"] False by simp
    then have u: "unat (of_nat ?n :: u16) = ?n" by (rule unat_of_nat_u16)
    have "to_be_bytes 2 (from_be (take 2 region) :: u16) = take 2 region"
      using False be_bytes_be_nat [of "take 2 region"] by (simp add: to_be_bytes_def unat_from_be)
    moreover have "to_be_bytes 2 (of_nat ?n :: u16) = take 2 (drop 2 region)"
      using False be_bytes_be_nat [of "take 2 (drop 2 region)"] by (simp add: to_be_bytes_def u)
    moreover have "length (set_body ?s) + 4 = ?n" using n by simp
    ultimately have "put_set ?s = take 2 region @ take 2 (drop 2 region) @ drop 4 (take ?n region)"
      unfolding put_set_def by simp
    also have "\<dots> = take ?n region"
    proof -
      have "take 2 region @ take 2 (drop 2 region) = take 4 region"
        using take_add [of 2 2 region] by simp
      moreover have "take 4 region = take 4 (take ?n region)" using n by (simp add: min_def)
      moreover have "take 4 (take ?n region) @ drop 4 (take ?n region) = take ?n region"
        by (rule append_take_drop_id)
      ultimately show ?thesis by (simp only: append.assoc [symmetric])
    qed
    finally have first: "put_set ?s = take ?n region" .
    have "region = take ?n region @ drop ?n region" by simp
    also have "\<dots> = put_set ?s @ concat (map put_set rest) @ padding"
      unfolding first p(1) [symmetric] ..
    finally have "region = concat (map put_set sets) @ padding" by (simp add: sets)
    moreover have "set_fits ?s" using n small by (simp add: set_fits_def)
    ultimately show ?thesis using p sets by auto
  qed
qed

lemma split_error: "split region = Inl e \<Longrightarrow> e = err"
proof (induction "length region" arbitrary: region rule: less_induct)
  case less
  let ?n = "be_nat (take 2 (drop 2 region))"
  consider "length region < 4" | "4 \<le> length region" "?n < 4 \<or> length region < ?n"
    | "4 \<le> ?n" "?n \<le> length region" by linarith
  then show ?case
  proof cases
    case 3
    then have "split (drop ?n region) = Inl e" "length (drop ?n region) < length region"
      using less.prems by (auto simp: split_good split: sum.splits)
    then show ?thesis using less.hyps by blast
  qed (use less.prems split_short split_bad in auto)
qed

end

section \<open>Learning layouts\<close>

text \<open>A run of template definitions of one exporter and domain, applied to the cache.\<close>

definition learn_all ::
  "string \<Rightarrow> u32 \<Rightarrow> (u16 \<times> template_entry) list \<Rightarrow> template_cache \<Rightarrow> template_cache" where
  "learn_all ex dm ts c = fold (\<lambda>(tid, e). upsert (TemplateKey ex dm tid) e) ts c"

lemma learn_all_simps [simp]:
  "learn_all ex dm [] c = c"
  "learn_all ex dm ((tid, e) # ts) c = learn_all ex dm ts (upsert (TemplateKey ex dm tid) e c)"
  by (simp_all add: learn_all_def)

lemma learn_all_append:
  "learn_all ex dm (ts @ us) c = learn_all ex dm us (learn_all ex dm ts c)"
  by (simp add: learn_all_def)

lemma learn_all_frame [simp]:
  "tc_pending (learn_all ex dm ts c) = tc_pending c"
  "tc_cap_entries (learn_all ex dm ts c) = tc_cap_entries c"
  "tc_cap_pending_bytes (learn_all ex dm ts c) = tc_cap_pending_bytes c"
  "tc_pending_bytes (learn_all ex dm ts c) = tc_pending_bytes c"
  by (induction ts arbitrary: c) auto

lemma cache_ok_learn_all [cache_inv]: "cache_ok c \<Longrightarrow> cache_ok (learn_all ex dm ts c)"
  by (induction ts arbitrary: c) (auto simp: cache_inv)

text \<open>Isolation: a layout of another exporter or domain is never redefined (only evicted).\<close>

lemma learn_all_isolated:
  assumes "cache_ok c" and "tk_exporter k \<noteq> ex \<or> tk_obs_domain k \<noteq> dm"
  shows "cache_peek (learn_all ex dm ts c) k \<in> {None, cache_peek c k}"
  using assms(1)
proof (induction ts arbitrary: c)
  case (Cons t ts)
  obtain tid e where t: "t = (tid, e)" by (cases t)
  have "k \<noteq> TemplateKey ex dm tid" using assms(2) by auto
  with upsert_peek_other [OF Cons.prems this, of e]
    Cons.IH [OF cache_ok_upsert [OF Cons.prems, of "TemplateKey ex dm tid" e]]
  show ?case by (auto simp: t)
qed simp

text \<open>With room for the definitions nothing is evicted and the last definition of an id holds.\<close>

lemma upsert_room:
  assumes "cache_ok c" and "length (tc_entries c) < unat (tc_cap_entries c)"
  shows "cache_peek (upsert key e c) = (cache_peek c)(key \<mapsto> merged_entry c key e)"
    and "length (tc_entries (upsert key e c)) \<le> Suc (length (tc_entries c))"
proof -
  let ?m = "bt_insert key (merged_entry c key e) (tc_entries c)"
  have ok: "bt_ok (tc_entries c)" using assms(1) by (simp add: cache_ok_def)
  have "length ?m \<le> unat (tc_cap_entries c)" using assms(2) ok by (simp add: length_bt_insert)
  then have u: "tc_entries (upsert key e c) = ?m" by (simp add: upsert_eq evict_entries_fits)
  show "cache_peek (upsert key e c) = (cache_peek c)(key \<mapsto> merged_entry c key e)"
    by (simp add: cache_peek_def u fun_eq_iff bt_get_insert)
  show "length (tc_entries (upsert key e c)) \<le> Suc (length (tc_entries c))"
    using ok by (simp add: u length_bt_insert)
qed

definition same_layout :: "template_entry \<Rightarrow> template_entry \<Rightarrow> bool" where
  "same_layout a b \<longleftrightarrow> te_kind a = te_kind b \<and> te_fields a = te_fields b \<and>
     te_scope_field_count a = te_scope_field_count b"

lemma same_layout_refl [simp]: "same_layout a a"
  by (simp add: same_layout_def)

lemma same_layout_merged [simp]: "same_layout (merged_entry c key e) e"
  by (simp add: same_layout_def merged_entry_def split: option.splits)

lemma learn_all_room:
  assumes "cache_ok c" and "length (tc_entries c) + length ts \<le> unat (tc_cap_entries c)"
  shows "if tk_exporter k = ex \<and> tk_obs_domain k = dm \<and> tk_template_id k \<in> fst ` set ts
         then \<exists>e. cache_peek (learn_all ex dm ts c) k = Some e \<and>
                  same_layout e (the (map_of (rev ts) (tk_template_id k)))
         else cache_peek (learn_all ex dm ts c) k = cache_peek c k"
  using assms
proof (induction ts rule: rev_induct)
  case (snoc t ts)
  obtain tid e where t: "t = (tid, e)" by (cases t)
  have len: "length (tc_entries (learn_all ex dm ts c)) \<le> length (tc_entries c) + length ts"
    using snoc.prems
  proof (induction ts arbitrary: c)
    case (Cons u us)
    obtain j f where u: "u = (j, f)" by (cases u)
    have l: "length (tc_entries (upsert (TemplateKey ex dm j) f c)) \<le> Suc (length (tc_entries c))"
      using Cons.prems by (intro upsert_room(2)) auto
    with Cons.prems Cons.IH [of "upsert (TemplateKey ex dm j) f c"]
    show ?case by (auto simp: u cache_inv)
  qed simp
  have ok: "cache_ok (learn_all ex dm ts c)" using snoc.prems(1) by (rule cache_ok_learn_all)
  have "length (tc_entries (learn_all ex dm ts c)) < unat (tc_cap_entries (learn_all ex dm ts c))"
    using len snoc.prems(2) by simp
  note room = upsert_room(1) [OF ok this, of "TemplateKey ex dm tid" e]
  show ?case
  proof (cases "k = TemplateKey ex dm tid")
    case True
    then show ?thesis by (auto simp: t learn_all_append room)
  next
    case False
    then have "\<not> (tk_exporter k = ex \<and> tk_obs_domain k = dm \<and> tk_template_id k = tid)"
      by (cases k) auto
    with False snoc.IH snoc.prems show ?thesis
      by (auto simp: t learn_all_append room split: if_splits)
  qed
qed simp

text \<open>
  The contract of a template parser: what it does to the cache is to apply, in order, the
  definitions it reads from the body, each freshly stamped and with a usable id.
\<close>

locale template_learner =
  fixes learn :: "bytes \<Rightarrow> string \<Rightarrow> u32 \<Rightarrow> i64 \<Rightarrow> template_cache \<Rightarrow> template_cache"
    and parse :: "bytes \<Rightarrow> i64 \<Rightarrow> (u16 \<times> template_entry) list"
  assumes learn_parse: "learn body ex dm now c = learn_all ex dm (parse body now) c"
    and parse_fresh: "(tid, e) \<in> set (parse body now) \<Longrightarrow>
      tid \<noteq> 0 \<and> te_first_seen e = now \<and> te_last_seen e = now \<and> te_use_count e = 0"
begin

lemma learn_ok: "cache_ok c \<Longrightarrow> cache_ok (learn body ex dm now c)"
  by (simp add: learn_parse cache_ok_learn_all)

lemma learn_pending: "tc_pending (learn body ex dm now c) = tc_pending c"
  by (simp add: learn_parse)

lemma learn_isolated:
  "cache_ok c \<Longrightarrow> tk_exporter k \<noteq> ex \<or> tk_obs_domain k \<noteq> dm \<Longrightarrow>
     cache_peek (learn body ex dm now c) k \<in> {None, cache_peek c k}"
  by (simp only: learn_parse learn_all_isolated)

end

section \<open>Decoding Data Sets\<close>

text \<open>The rows of a Data Set depend on the layout only, not on the statistics.\<close>

lemma record_loop_cong:
  "te_fields a = te_fields b \<Longrightarrow> record_loop a cx c = record_loop b cx c"
proof (induction a cx c rule: record_loop.induct)
  case (1 a cx c)
  have m: "min_fixed a = min_fixed b" using 1 by (simp add: min_fixed_def)
  have d: "decode_one_record a cx c = decode_one_record b cx c" for c
    using 1 by (simp add: decode_one_record_def)
  from 1 show ?case
    by (subst (1 2) record_loop.simps) (auto simp: m d Let_def split: option.splits)
qed

lemma decode_data_set_cong:
  "same_layout a b \<Longrightarrow> decode_data_set a bs cx fo = decode_data_set b bs cx fo"
  using record_loop_cong [of a b] by (simp add: decode_data_set_def same_layout_def)

lemma same_layout_touch [simp]: "same_layout (touch now e) e"
  by (simp add: same_layout_def touch_def)

definition set_key :: "string \<Rightarrow> u32 \<Rightarrow> flow_set \<Rightarrow> template_key" where
  "set_key ex dm s = TemplateKey ex dm (set_id s)"

definition set_ctx ::
  "string \<Rightarrow> u64 option \<Rightarrow> string \<Rightarrow> u32 \<Rightarrow> export_header \<Rightarrow> flow_set \<Rightarrow> ctx" where
  "set_ctx version uptime ex dm hdr s =
     \<lparr>cx_exporter = ex, cx_obs_domain = dm, cx_version = version,
      cx_export_time = eh_export_time hdr, cx_sequence = eh_sequence hdr,
      cx_sys_uptime_ms = uptime, cx_template_id = set_id s\<rparr>"

definition set_pending ::
  "string \<Rightarrow> u64 option \<Rightarrow> export_header \<Rightarrow> flow_set \<Rightarrow> pending_record" where
  "set_pending version uptime hdr s =
     \<lparr>pr_export_time = eh_export_time hdr, pr_sequence = eh_sequence hdr, pr_version = version,
      pr_sys_uptime_ms = uptime, pr_bytes = set_body s\<rparr>"

definition missing_template :: "u32 \<Rightarrow> u16 \<Rightarrow> string" where
  "missing_template dm tid = ''missing-template:'' @ dec_of_word dm @ ''/'' @ dec_of_word tid"

definition missing_row :: "string \<Rightarrow> string \<Rightarrow> u32 \<Rightarrow> export_header \<Rightarrow> flow_set \<Rightarrow> flow_record" where
  "missing_row version ex dm hdr s =
     diagnostic ex version dm (eh_export_time hdr) (eh_sequence hdr)
       (missing_template dm (set_id s))"

text \<open>
  What can become of a Data Set: decoded with the layout of its key, kept for a later
  datagram, or reported in a row of its own.
\<close>

datatype fate = Decoded "flow_record list" | Buffered template_key pending_record
  | Reported flow_record

fun fate_rows :: "fate \<Rightarrow> flow_record list" where
  "fate_rows (Decoded rows) = rows"
| "fate_rows (Buffered key rec) = []"
| "fate_rows (Reported row) = [row]"

fun fate_buffered :: "template_key \<Rightarrow> fate \<Rightarrow> pending_record list" where
  "fate_buffered key (Buffered k rec) = (if k = key then [rec] else [])"
| "fate_buffered key _ = []"

definition fate_ok ::
  "string \<Rightarrow> u64 option \<Rightarrow> string \<Rightarrow> u32 \<Rightarrow> export_header \<Rightarrow> bool \<Rightarrow>
   template_cache \<Rightarrow> template_cache \<Rightarrow> flow_set \<Rightarrow> fate \<Rightarrow> bool" where
  "fate_ok version uptime ex dm hdr fo c c' s f =
     (case cache_peek c (set_key ex dm s) of
        Some e \<Rightarrow> f = Decoded (decode_data_set e (set_body s) (set_ctx version uptime ex dm hdr s) fo)
      | None \<Rightarrow>
          f = Buffered (set_key ex dm s) (set_pending version uptime hdr s) \<or>
          f = Reported (missing_row version ex dm hdr s) \<and>
          unat (tc_cap_pending_bytes c') < pending_total c' + length (set_body s))"

text \<open>One step of the second pass.\<close>

definition data_set_step ::
  "string \<Rightarrow> u64 option \<Rightarrow> string \<Rightarrow> u32 \<Rightarrow> export_header \<Rightarrow> i64 \<Rightarrow> bool \<Rightarrow> flow_set \<Rightarrow>
   template_cache \<Rightarrow> flow_record list \<times> template_cache" where
  "data_set_step version uptime ex dm hdr now fo s c =
     (case use_template (set_key ex dm s) now c of
        (Some tpl, c) \<Rightarrow> (decode_data_set tpl (set_body s) (set_ctx version uptime ex dm hdr s) fo, c)
      | (None, c) \<Rightarrow>
          (case push_pending (set_key ex dm s) (set_pending version uptime hdr s) c of
             (True, c) \<Rightarrow> ([], c)
           | (False, c) \<Rightarrow> ([missing_row version ex dm hdr s], c)))"

text \<open>What the second pass keeps of the cache: layouts, caps, and every buffered record.\<close>

definition layout_kept :: "template_cache \<Rightarrow> template_cache \<Rightarrow> bool" where
  "layout_kept c c' \<longleftrightarrow> (\<forall>k. rel_option same_layout (cache_peek c' k) (cache_peek c k))"

definition pass_frame :: "template_cache \<Rightarrow> template_cache \<Rightarrow> bool" where
  "pass_frame c c' \<longleftrightarrow> cache_ok c' \<and> layout_kept c c' \<and>
     tc_cap_entries c' = tc_cap_entries c \<and> tc_cap_pending_bytes c' = tc_cap_pending_bytes c \<and>
     pending_total c \<le> pending_total c'"

lemma layout_kept_refl [simp]: "layout_kept c c"
  by (simp add: layout_kept_def option.rel_refl)

lemma same_layout_trans: "same_layout a b \<Longrightarrow> same_layout b d \<Longrightarrow> same_layout a d"
  by (simp add: same_layout_def)

lemma layout_kept_trans: "layout_kept a b \<Longrightarrow> layout_kept b d \<Longrightarrow> layout_kept a d"
  unfolding layout_kept_def
  by (rule allI, erule_tac x = k in allE, erule_tac x = k in allE)
    (auto elim!: option.rel_cases dest: same_layout_trans)

lemma pass_frame_refl: "cache_ok c \<Longrightarrow> pass_frame c c"
  by (simp add: pass_frame_def)

lemma pass_frame_trans: "pass_frame a b \<Longrightarrow> pass_frame b d \<Longrightarrow> pass_frame a d"
  by (auto simp: pass_frame_def intro: layout_kept_trans)

lemma pass_frame_use: "cache_ok c \<Longrightarrow> pass_frame c (snd (use_template key now c))"
  by (auto simp: pass_frame_def layout_kept_def cache_ok_use use_template_peek option.rel_refl
      pending_total_def option.rel_map)

lemma pass_frame_push:
  assumes "cache_ok c" and "length (pr_bytes rec) < 2 ^ 32"
  shows "pass_frame c (snd (push_pending key rec c))"
proof -
  have "cache_peek (snd (push_pending key rec c)) = cache_peek c"
    by (simp add: cache_peek_def fun_eq_iff)
  moreover have "pending_total c \<le> pending_total (snd (push_pending key rec c))"
    using pending_total_insert [OF assms(1)] by (simp add: push_pending_eq [OF assms])
  ultimately show ?thesis
    using assms by (simp add: pass_frame_def layout_kept_def cache_ok_push option.rel_refl)
qed

lemma data_set_step_fate:
  assumes ok: "cache_ok c" and len: "length (set_body s) < 2 ^ 32"
    and step: "data_set_step version uptime ex dm hdr now fo s c = (rows, c')"
  shows "\<exists>f. fate_ok version uptime ex dm hdr fo c c' s f \<and> rows = fate_rows f \<and>
    (\<forall>key. pending_of c' key = pending_of c key @ fate_buffered key f) \<and> pass_frame c c'"
proof (cases "cache_peek c (set_key ex dm s)")
  case (Some e)
  let ?f = "Decoded (decode_data_set e (set_body s) (set_ctx version uptime ex dm hdr s) fo)"
  from Some step have c': "c' = snd (use_template (set_key ex dm s) now c)" and "rows = fate_rows ?f"
    by (auto simp: data_set_step_def use_template_eq intro: decode_data_set_cong)
  moreover have "pending_of c' key = pending_of c key" for key
    by (simp add: c' pending_of_def)
  ultimately show ?thesis
    using Some pass_frame_use [OF ok] by (intro exI [of _ ?f]) (simp add: fate_ok_def)
next
  case None
  let ?rec = "set_pending version uptime hdr s" and ?key = "set_key ex dm s"
  have len': "length (pr_bytes ?rec) < 2 ^ 32" using len by (simp add: set_pending_def)
  have body: "pr_bytes ?rec = set_body s" by (simp add: set_pending_def)
  note frame = pass_frame_push [OF ok len', of ?key]
  have use: "use_template ?key now c = (None, c)" using None by (simp add: use_template_eq)
  show ?thesis
  proof (cases "pending_total c + length (set_body s) \<le> unat (tc_cap_pending_bytes c)")
    case True
    with step have "rows = []" "c' = snd (push_pending ?key ?rec c)"
      by (auto simp: data_set_step_def use push_pending_eq [OF ok len'] body)
    moreover have "pending_of (snd (push_pending ?key ?rec c)) key =
        pending_of c key @ (if ?key = key then [?rec] else [])" for key
      using True by (auto simp: push_pending_eq [OF ok len'] body bt_get_insert pending_of_def [of c])
    ultimately show ?thesis
      using None frame by (intro exI [of _ "Buffered ?key ?rec"]) (simp add: fate_ok_def)
  next
    case False
    with step have "rows = [missing_row version ex dm hdr s]" "c' = c"
      by (auto simp: data_set_step_def use push_pending_eq [OF ok len'] body)
    with False None ok show ?thesis
      by (intro exI [of _ "Reported (missing_row version ex dm hdr s)"])
        (simp add: fate_ok_def pass_frame_refl)
  qed
qed

lemma fate_ok_later:
  assumes "fate_ok version uptime ex dm hdr fo c c1 s f" and "pass_frame c1 c'"
  shows "fate_ok version uptime ex dm hdr fo c c' s f"
  using assms by (auto simp: fate_ok_def pass_frame_def split: option.splits)

lemma fate_ok_earlier:
  assumes "fate_ok version uptime ex dm hdr fo c1 c' s f" and "layout_kept c c1"
  shows "fate_ok version uptime ex dm hdr fo c c' s f"
proof -
  have "rel_option same_layout (cache_peek c1 (set_key ex dm s)) (cache_peek c (set_key ex dm s))"
    using assms(2) by (simp add: layout_kept_def)
  then show ?thesis
    using assms(1)
    by (cases rule: option.rel_cases) (auto simp: fate_ok_def dest: decode_data_set_cong)
qed

text \<open>
  The contract of a second pass: template sets are skipped, Data Sets are stepped through
  in order.  Its consequence is that no Data Set is dropped: each has exactly one fate.
\<close>

locale data_pass =
  fixes pass :: "string \<Rightarrow> u32 \<Rightarrow> export_header \<Rightarrow> i64 \<Rightarrow> bool \<Rightarrow> flow_set list \<Rightarrow>
      template_cache \<Rightarrow> flow_record list \<times> template_cache"
    and version :: string and uptime :: "export_header \<Rightarrow> u64 option"
  assumes pass_Nil: "pass ex dm hdr now fo [] c = ([], c)"
    and pass_skip: "set_id s < 256 \<Longrightarrow> pass ex dm hdr now fo (s # ss) c = pass ex dm hdr now fo ss c"
    and pass_step: "\<not> set_id s < 256 \<Longrightarrow> pass ex dm hdr now fo (s # ss) c =
      (let (rows, c) = data_set_step version (uptime hdr) ex dm hdr now fo s c;
           (rest, c) = pass ex dm hdr now fo ss c
       in (rows @ rest, c))"
begin

lemma pass_fates:
  assumes "cache_ok c" and "\<forall>s \<in> set ss. length (set_body s) < 2 ^ 32"
    and "pass ex dm hdr now fo ss c = (rows, c')"
  shows "\<exists>fates. list_all2 (fate_ok version (uptime hdr) ex dm hdr fo c c')
           (filter (\<lambda>s. \<not> set_id s < 256) ss) fates \<and>
         rows = concat (map fate_rows fates) \<and>
         (\<forall>key. pending_of c' key = pending_of c key @ concat (map (fate_buffered key) fates)) \<and>
         pass_frame c c'"
  using assms
proof (induction ss arbitrary: c rows)
  case Nil
  then show ?case by (simp add: pass_Nil pass_frame_refl)
next
  case (Cons s ss)
  show ?case
  proof (cases "set_id s < 256")
    case True
    with Cons show ?thesis by (simp add: pass_skip)
  next
    case False
    obtain rows1 c1 where step: "data_set_step version (uptime hdr) ex dm hdr now fo s c = (rows1, c1)"
      by (cases "data_set_step version (uptime hdr) ex dm hdr now fo s c")
    obtain rows2 where rest: "pass ex dm hdr now fo ss c1 = (rows2, c')" and rows: "rows = rows1 @ rows2"
      using Cons.prems(3) False
      by (cases "pass ex dm hdr now fo ss c1") (simp add: pass_step step)
    from data_set_step_fate [OF Cons.prems(1) _ step] Cons.prems(2)
    obtain f where f: "fate_ok version (uptime hdr) ex dm hdr fo c c1 s f" "rows1 = fate_rows f"
      "\<forall>key. pending_of c1 key = pending_of c key @ fate_buffered key f" "pass_frame c c1" by auto
    then have ok1: "cache_ok c1" and kept: "layout_kept c c1" by (simp_all add: pass_frame_def)
    from Cons.IH [OF ok1 _ rest] Cons.prems(2)
    obtain fs where fs: "list_all2 (fate_ok version (uptime hdr) ex dm hdr fo c1 c')
        (filter (\<lambda>s. \<not> set_id s < 256) ss) fs"
      "rows2 = concat (map fate_rows fs)"
      "\<forall>key. pending_of c' key = pending_of c1 key @ concat (map (fate_buffered key) fs)"
      "pass_frame c1 c'" by auto
    have "list_all2 (fate_ok version (uptime hdr) ex dm hdr fo c c')
        (filter (\<lambda>s. \<not> set_id s < 256) ss) fs"
      using fs(1) by (rule list_all2_mono) (rule fate_ok_earlier [OF _ kept])
    moreover have "fate_ok version (uptime hdr) ex dm hdr fo c c' s f"
      using f(1) fs(4) by (rule fate_ok_later)
    ultimately show ?thesis
      using f fs rows False
      by (intro exI [of _ "f # fs"]) (auto intro: pass_frame_trans)
  qed
qed

text \<open>A pass over sets whose layouts are all known touches no buffer.\<close>

lemma pass_known:
  assumes "cache_ok c" and "\<forall>s \<in> set ss. length (set_body s) < 2 ^ 32"
    and "\<forall>s \<in> set ss. \<not> set_id s < 256 \<longrightarrow> cache_peek c (set_key ex dm s) \<noteq> None"
  shows "fst (pass ex dm hdr now fo ss c) =
    concat (map (\<lambda>s. decode_data_set (the (cache_peek c (set_key ex dm s))) (set_body s)
        (set_ctx version (uptime hdr) ex dm hdr s) fo) (filter (\<lambda>s. \<not> set_id s < 256) ss))"
proof -
  obtain rows c' where p: "pass ex dm hdr now fo ss c = (rows, c')"
    by (cases "pass ex dm hdr now fo ss c")
  from pass_fates [OF assms(1,2) p] obtain fates
    where fates: "list_all2 (fate_ok version (uptime hdr) ex dm hdr fo c c')
      (filter (\<lambda>s. \<not> set_id s < 256) ss) fates" "rows = concat (map fate_rows fates)" by blast
  let ?dec = "\<lambda>s. decode_data_set (the (cache_peek c (set_key ex dm s))) (set_body s)
        (set_ctx version (uptime hdr) ex dm hdr s) fo"
  have known: "\<forall>s \<in> set (filter (\<lambda>s. \<not> set_id s < 256) ss). cache_peek c (set_key ex dm s) \<noteq> None"
    using assms(3) by auto
  from fates(1) known
  have "map fate_rows fates = map ?dec (filter (\<lambda>s. \<not> set_id s < 256) ss)"
    by (induction rule: list_all2_induct) (auto simp: fate_ok_def)
  with fates(2) p show ?thesis by simp
qed

end

end
