(* ===== verification/V9.thy ===== *)
theory V9
  imports Sets
begin

text \<open>
  \<open>decode/v9.rs\<close>: NetFlow v9.  The loops over cursors and regions are recursive
  functions, the cache is threaded through; \<open>let Some(..) else break\<close> is a case split.
\<close>

definition SCOPE_PEN :: u32 where "SCOPE_PEN = 0xFFFFFFFF"

section \<open>FlowSets\<close>

function v9_split_flowsets :: "bytes \<Rightarrow> string + flow_set list" where
  "v9_split_flowsets region =
     (if length region \<ge> 4 then
        let ident = (from_be [region ! 0, region ! 1] :: u16);
            len = unat (from_be [region ! 2, region ! 3] :: u16)
        in if len < 4 then Inl ''set-length-overrun''
           else if len > length region then Inl ''set-length-overrun''
           else (case v9_split_flowsets (drop len region) of
                   Inl e \<Rightarrow> Inl e
                 | Inr out \<Rightarrow> Inr (\<lparr>set_id = ident, set_body = slice region 4 len\<rparr> # out))
      else Inr [])"
  by pat_completeness auto
termination
  by (relation "measure length") auto

declare v9_split_flowsets.simps [simp del]

lemma region_header:
  assumes "4 \<le> length region"
  shows "[region ! 0, region ! 1] = take 2 region"
    and "[region ! 2, region ! 3] = take 2 (drop 2 region)"
  using assms by (auto intro!: nth_equalityI simp: less_Suc_eq eval_nat_numeral nth_Cons')

lemma set_length_field:
  "4 \<le> length region \<Longrightarrow>
     unat (from_be [region ! 2, region ! 3] :: u16) = be_nat (take 2 (drop 2 region))"
  by (simp add: region_header unat_from_be del: One_nat_def)

interpretation v9_sets: set_splitter v9_split_flowsets "''set-length-overrun''"
proof
  fix region :: bytes
  let ?n = "be_nat (take 2 (drop 2 region))"
  show "length region < 4 \<Longrightarrow> v9_split_flowsets region = Inr []"
    by (subst v9_split_flowsets.simps) simp
  show "4 \<le> length region \<Longrightarrow> ?n < 4 \<or> length region < ?n \<Longrightarrow>
      v9_split_flowsets region = Inl ''set-length-overrun''"
    by (subst v9_split_flowsets.simps) (auto simp: set_length_field Let_def)
  show "4 \<le> ?n \<Longrightarrow> ?n \<le> length region \<Longrightarrow> v9_split_flowsets region =
      (case v9_split_flowsets (drop ?n region) of Inl e \<Rightarrow> Inl e
       | Inr sets \<Rightarrow> Inr (\<lparr>set_id = from_be (take 2 region),
           set_body = drop 4 (take ?n region)\<rparr> # sets))"
    by (subst v9_split_flowsets.simps)
      (auto simp: set_length_field region_header unat_from_be slice_def drop_take Let_def
        simp del: One_nat_def split: sum.splits)
qed

section \<open>Template FlowSets\<close>

text \<open>
  The field loop: both halves of a pair are read before either is examined.  \<open>None\<close>
  stands for \<open>ok = false\<close>, after which the cursor is not used again.
\<close>

fun v9_read_fields :: "nat \<Rightarrow> cursor \<Rightarrow> (field_spec list \<times> cursor) option" where
  "v9_read_fields 0 c = Some ([], c)"
| "v9_read_fields (Suc n) c =
     (let (ty, c) = try_read cur_u16 c; (len, c) = try_read cur_u16 c
      in case (ty, len) of
           (Some ty, Some len) \<Rightarrow>
             map_option (\<lambda>(fs, c). (mk_field_spec 0 ty len # fs, c)) (v9_read_fields n c)
         | _ \<Rightarrow> None)"

lemma v9_read_fields_remaining:
  "v9_read_fields n c = Some (fs, c') \<Longrightarrow> cur_remaining c' \<le> cur_remaining c"
  by (induction n arbitrary: c fs)
    (fastforce simp: u16.try_read_eq split: if_splits)+

definition v9_entry :: "template_kind \<Rightarrow> field_spec list \<Rightarrow> u16 \<Rightarrow> i64 \<Rightarrow> template_entry" where
  "v9_entry kind flds scope now =
     \<lparr>te_kind = kind, te_fields = flds, te_scope_field_count = scope, te_first_seen = now,
      te_last_seen = now, te_use_count = 0\<rparr>"

function v9_templates_loop ::
  "cursor \<Rightarrow> string \<Rightarrow> u32 \<Rightarrow> i64 \<Rightarrow> template_cache \<Rightarrow> template_cache" where
  "v9_templates_loop c exporter obs_domain now cache =
     (if cur_remaining c < 4 then cache else
      case cur_u16 c of None \<Rightarrow> cache | Some (template_id, c) \<Rightarrow>
      case cur_u16 c of None \<Rightarrow> cache | Some (field_count, c) \<Rightarrow>
      case v9_read_fields (unat field_count) c of None \<Rightarrow> cache | Some (flds, c) \<Rightarrow>
      if template_id = 0 then cache
      else v9_templates_loop c exporter obs_domain now
             (upsert (TemplateKey exporter obs_domain template_id)
               (v9_entry TkData flds 0 now) cache))"
  by pat_completeness auto
termination
  by (relation "measure (\<lambda>(c, _). cur_remaining c)")
    (auto simp: u16.read_eq split: if_splits dest: v9_read_fields_remaining)

declare v9_templates_loop.simps [simp del]

definition v9_parse_templates ::
  "bytes \<Rightarrow> string \<Rightarrow> u32 \<Rightarrow> i64 \<Rightarrow> template_cache \<Rightarrow> template_cache" where
  "v9_parse_templates body exporter obs_domain now cache =
     v9_templates_loop (cursor_new body) exporter obs_domain now cache"

section \<open>Options Template FlowSets\<close>

definition scope_name :: "u16 \<Rightarrow> string" where
  "scope_name ty =
     (if ty = 1 then ''system'' else if ty = 2 then ''interface'' else if ty = 3 then ''linecard''
      else if ty = 4 then ''cache'' else if ty = 5 then ''template'' else ''other'')"

definition scope_field :: "u16 \<Rightarrow> u16 \<Rightarrow> field_spec" where
  "scope_field ty len =
     \<lparr>fs_ie_id = ty, fs_enterprise_number = SCOPE_PEN, fs_length = len,
      fs_name = ''scope_'' @ scope_name ty, fs_ie_type = ''octetArray''\<rparr>"

fun v9_read_scope :: "nat \<Rightarrow> cursor \<Rightarrow> (field_spec list \<times> cursor) option" where
  "v9_read_scope 0 c = Some ([], c)"
| "v9_read_scope (Suc n) c =
     (let (ty, c) = try_read cur_u16 c; (len, c) = try_read cur_u16 c
      in case (ty, len) of
           (Some ty, Some len) \<Rightarrow>
             map_option (\<lambda>(fs, c). (scope_field ty len # fs, c)) (v9_read_scope n c)
         | _ \<Rightarrow> None)"

lemma v9_read_scope_remaining:
  "v9_read_scope n c = Some (fs, c') \<Longrightarrow> cur_remaining c' \<le> cur_remaining c"
  by (induction n arbitrary: c fs)
    (fastforce simp: u16.try_read_eq split: if_splits)+

function v9_options_loop ::
  "cursor \<Rightarrow> string \<Rightarrow> u32 \<Rightarrow> i64 \<Rightarrow> template_cache \<Rightarrow> template_cache" where
  "v9_options_loop c exporter obs_domain now cache =
     (if cur_remaining c < 6 then cache else
      case cur_u16 c of None \<Rightarrow> cache | Some (template_id, c) \<Rightarrow>
      case cur_u16 c of None \<Rightarrow> cache | Some (scope_len, c) \<Rightarrow>
      case cur_u16 c of None \<Rightarrow> cache | Some (option_len, c) \<Rightarrow>
      (let scope_count = unat (scope_len div 4); option_count = unat (option_len div 4) in
       case v9_read_scope scope_count c of None \<Rightarrow> cache | Some (scope, c) \<Rightarrow>
       case v9_read_fields option_count c of None \<Rightarrow> cache | Some (options, c) \<Rightarrow>
       if template_id = 0 then cache
       else
         let cache = upsert (TemplateKey exporter obs_domain template_id)
               (v9_entry TkOptions (scope @ options) (of_nat scope_count) now) cache
         in if cur_peek 2 c = Some [0, 0] then cache
            else v9_options_loop c exporter obs_domain now cache))"
  by pat_completeness auto
termination
  by (relation "measure (\<lambda>(c, _). cur_remaining c)")
    (auto simp: u16.read_eq split: if_splits
      dest!: v9_read_fields_remaining v9_read_scope_remaining)

declare v9_options_loop.simps [simp del]

definition v9_parse_options_templates ::
  "bytes \<Rightarrow> string \<Rightarrow> u32 \<Rightarrow> i64 \<Rightarrow> template_cache \<Rightarrow> template_cache" where
  "v9_parse_options_templates body exporter obs_domain now cache =
     v9_options_loop (cursor_new body) exporter obs_domain now cache"

section \<open>The decoder\<close>

fun v9_learn_pass ::
  "string \<Rightarrow> u32 \<Rightarrow> i64 \<Rightarrow> flow_set list \<Rightarrow> template_cache \<Rightarrow> template_cache" where
  "v9_learn_pass exporter obs_domain now [] cache = cache"
| "v9_learn_pass exporter obs_domain now (fs # flowsets) cache =
     (let cache =
        (if set_id fs = 0 then v9_parse_templates (set_body fs) exporter obs_domain now cache
         else if set_id fs = 1
         then v9_parse_options_templates (set_body fs) exporter obs_domain now cache
         else cache)
      in v9_learn_pass exporter obs_domain now flowsets cache)"

definition v9_ctx_base :: "string \<Rightarrow> u32 \<Rightarrow> export_header \<Rightarrow> ctx" where
  "v9_ctx_base exporter obs_domain hdr =
     \<lparr>cx_exporter = exporter, cx_obs_domain = obs_domain, cx_version = ''9'',
      cx_export_time = eh_export_time hdr, cx_sequence = eh_sequence hdr,
      cx_sys_uptime_ms = map_option ucast (eh_sys_uptime hdr), cx_template_id = 0\<rparr>"

fun v9_data_pass ::
  "string \<Rightarrow> u32 \<Rightarrow> export_header \<Rightarrow> i64 \<Rightarrow> bool \<Rightarrow> flow_set list \<Rightarrow> template_cache \<Rightarrow>
   flow_record list \<times> template_cache" where
  "v9_data_pass exporter obs_domain hdr now flows_only [] cache = ([], cache)"
| "v9_data_pass exporter obs_domain hdr now flows_only (fs # flowsets) cache =
     (if set_id fs < 256 then v9_data_pass exporter obs_domain hdr now flows_only flowsets cache
      else
        let key = TemplateKey exporter obs_domain (set_id fs);
            (rows, cache) =
              (case use_template key now cache of
                 (Some tpl, cache) \<Rightarrow>
                   let cx = (v9_ctx_base exporter obs_domain hdr)\<lparr>cx_template_id := set_id fs\<rparr>
                   in (decode_data_set tpl (set_body fs) cx flows_only, cache)
               | (None, cache) \<Rightarrow>
                   let rec = \<lparr>pr_export_time = eh_export_time hdr, pr_sequence = eh_sequence hdr,
                              pr_version = ''9'',
                              pr_sys_uptime_ms = map_option ucast (eh_sys_uptime hdr),
                              pr_bytes = set_body fs\<rparr>
                   in case push_pending key rec cache of
                        (True, cache) \<Rightarrow> ([], cache)
                      | (False, cache) \<Rightarrow>
                          ([diagnostic exporter ''9'' obs_domain (eh_export_time hdr)
                              (eh_sequence hdr)
                              (''missing-template:'' @ dec_of_word obs_domain @ ''/'' @
                               dec_of_word (set_id fs))], cache));
            (rest, cache) = v9_data_pass exporter obs_domain hdr now flows_only flowsets cache
        in (rows @ rest, cache))"

definition v9_decode ::
  "bytes \<Rightarrow> string \<Rightarrow> u32 option \<Rightarrow> template_cache \<Rightarrow> i64 \<Rightarrow> bool \<Rightarrow>
   flow_record list \<times> template_cache" where
  "v9_decode data exporter obs_override cache now flows_only =
     (case parse_header data of
        None \<Rightarrow> ([diagnostic exporter ''9'' 0 None None ''decode-error:bad-v9-header''], cache)
      | Some hdr \<Rightarrow>
          let obs_domain = unwrap_or obs_override (unwrap_or (eh_obs_domain hdr) 0)
          in case v9_split_flowsets (drop (min 20 (length data)) data) of
               Inl diag \<Rightarrow> ([diagnostic exporter ''9'' obs_domain (eh_export_time hdr)
                              (eh_sequence hdr) diag], cache)
             | Inr flowsets \<Rightarrow>
                 let cache = v9_learn_pass exporter obs_domain now flowsets cache
                 in v9_data_pass exporter obs_domain hdr now flows_only flowsets cache)"

interpretation v9_pass: data_pass v9_data_pass "''9''" "\<lambda>hdr. map_option ucast (eh_sys_uptime hdr)"
proof
  fix ex dm hdr now fo and s :: flow_set and ss c
  show "v9_data_pass ex dm hdr now fo [] c = ([], c)" by simp
  show "set_id s < 256 \<Longrightarrow>
      v9_data_pass ex dm hdr now fo (s # ss) c = v9_data_pass ex dm hdr now fo ss c" by simp
  show "\<not> set_id s < 256 \<Longrightarrow> v9_data_pass ex dm hdr now fo (s # ss) c =
      (let (rows, c) = data_set_step ''9'' (map_option ucast (eh_sys_uptime hdr)) ex dm hdr now fo s c;
           (rest, c) = v9_data_pass ex dm hdr now fo ss c
       in (rows @ rest, c))"
    by (simp add: data_set_step_def set_key_def set_ctx_def set_pending_def missing_row_def
        missing_template_def v9_ctx_base_def Let_def split: prod.splits option.splits bool.splits)
qed

section \<open>What the template loops learn\<close>

function v9_template_defs :: "cursor \<Rightarrow> i64 \<Rightarrow> (u16 \<times> template_entry) list" where
  "v9_template_defs c now =
     (if cur_remaining c < 4 then [] else
      case cur_u16 c of None \<Rightarrow> [] | Some (template_id, c) \<Rightarrow>
      case cur_u16 c of None \<Rightarrow> [] | Some (field_count, c) \<Rightarrow>
      case v9_read_fields (unat field_count) c of None \<Rightarrow> [] | Some (flds, c) \<Rightarrow>
      if template_id = 0 then []
      else (template_id, v9_entry TkData flds 0 now) # v9_template_defs c now)"
  by pat_completeness auto
termination
  by (relation "measure (\<lambda>(c, _). cur_remaining c)")
    (auto simp: u16.read_eq split: if_splits dest: v9_read_fields_remaining)

declare v9_template_defs.simps [simp del]

function v9_options_defs :: "cursor \<Rightarrow> i64 \<Rightarrow> (u16 \<times> template_entry) list" where
  "v9_options_defs c now =
     (if cur_remaining c < 6 then [] else
      case cur_u16 c of None \<Rightarrow> [] | Some (template_id, c) \<Rightarrow>
      case cur_u16 c of None \<Rightarrow> [] | Some (scope_len, c) \<Rightarrow>
      case cur_u16 c of None \<Rightarrow> [] | Some (option_len, c) \<Rightarrow>
      (case v9_read_scope (unat (scope_len div 4)) c of None \<Rightarrow> [] | Some (scope, c) \<Rightarrow>
       case v9_read_fields (unat (option_len div 4)) c of None \<Rightarrow> [] | Some (options, c) \<Rightarrow>
       if template_id = 0 then []
       else (template_id,
             v9_entry TkOptions (scope @ options) (of_nat (unat (scope_len div 4))) now) #
            (if cur_peek 2 c = Some [0, 0] then [] else v9_options_defs c now)))"
  by pat_completeness auto
termination
  by (relation "measure (\<lambda>(c, _). cur_remaining c)")
    (auto simp: u16.read_eq split: if_splits
      dest!: v9_read_fields_remaining v9_read_scope_remaining)

declare v9_options_defs.simps [simp del]

lemma v9_templates_loop_eq:
  "v9_templates_loop c ex dm now cache = learn_all ex dm (v9_template_defs c now) cache"
proof (induction c now arbitrary: cache rule: v9_template_defs.induct)
  case (1 c now)
  then show ?case
    by (subst v9_templates_loop.simps, subst v9_template_defs.simps) (auto split: option.splits)
qed

lemma v9_options_loop_eq:
  "v9_options_loop c ex dm now cache = learn_all ex dm (v9_options_defs c now) cache"
proof (induction c now arbitrary: cache rule: v9_options_defs.induct)
  case (1 c now)
  then show ?case
    by (subst v9_options_loop.simps, subst v9_options_defs.simps)
      (auto simp: Let_def split: option.splits)
qed

definition fresh_def :: "i64 \<Rightarrow> u16 \<times> template_entry \<Rightarrow> bool" where
  "fresh_def now d \<longleftrightarrow> fst d \<noteq> 0 \<and> te_first_seen (snd d) = now \<and> te_last_seen (snd d) = now \<and>
     te_use_count (snd d) = 0"

lemma fresh_v9_entry [simp]: "fresh_def now (tid, v9_entry k f s now) \<longleftrightarrow> tid \<noteq> 0"
  by (simp add: fresh_def_def v9_entry_def)

lemma v9_template_defs_fresh: "list_all (fresh_def now) (v9_template_defs c now)"
proof (induction c now rule: v9_template_defs.induct)
  case (1 c now)
  then show ?case by (subst v9_template_defs.simps) (auto split: option.splits)
qed

lemma v9_options_defs_fresh: "list_all (fresh_def now) (v9_options_defs c now)"
proof (induction c now rule: v9_options_defs.induct)
  case (1 c now)
  then show ?case by (subst v9_options_defs.simps) (auto split: option.splits)
qed

interpretation v9_templates: template_learner v9_parse_templates
  "\<lambda>body now. v9_template_defs (cursor_new body) now"
proof
  show "v9_parse_templates body ex dm now c =
      learn_all ex dm (v9_template_defs (cursor_new body) now) c" for body ex dm now c
    by (simp add: v9_parse_templates_def v9_templates_loop_eq)
qed (use v9_template_defs_fresh in \<open>force simp: list_all_iff fresh_def_def\<close>)

interpretation v9_options: template_learner v9_parse_options_templates
  "\<lambda>body now. v9_options_defs (cursor_new body) now"
proof
  show "v9_parse_options_templates body ex dm now c =
      learn_all ex dm (v9_options_defs (cursor_new body) now) c" for body ex dm now c
    by (simp add: v9_parse_options_templates_def v9_options_loop_eq)
qed (use v9_options_defs_fresh in \<open>force simp: list_all_iff fresh_def_def\<close>)

text \<open>The definitions a list of FlowSets contributes, in the order of the first pass.\<close>

definition v9_set_defs :: "i64 \<Rightarrow> flow_set \<Rightarrow> (u16 \<times> template_entry) list" where
  "v9_set_defs now fs =
     (if set_id fs = 0 then v9_template_defs (cursor_new (set_body fs)) now
      else if set_id fs = 1 then v9_options_defs (cursor_new (set_body fs)) now else [])"

lemma v9_learn_pass_eq:
  "v9_learn_pass ex dm now fss c = learn_all ex dm (concat (map (v9_set_defs now) fss)) c"
  by (induction fss arbitrary: c)
    (simp_all add: v9_set_defs_def v9_templates.learn_parse v9_options.learn_parse learn_all_append
      Let_def)

section \<open>Template round trips\<close>

definition put_pairs :: "(u16 \<times> u16) list \<Rightarrow> bytes" where
  "put_pairs ps = concat (map (\<lambda>(ty, len). to_be_bytes 2 ty @ to_be_bytes 2 len) ps)"

definition put_v9_template :: "u16 \<times> (u16 \<times> u16) list \<Rightarrow> bytes" where
  "put_v9_template t =
     to_be_bytes 2 (fst t) @ to_be_bytes 2 (of_nat (length (snd t)) :: u16) @ put_pairs (snd t)"

definition put_v9_options :: "u16 \<times> (u16 \<times> u16) list \<times> (u16 \<times> u16) list \<Rightarrow> bytes" where
  "put_v9_options t =
     (let (tid, scope, options) = t in
      to_be_bytes 2 tid @ to_be_bytes 2 (of_nat (4 * length scope) :: u16) @
      to_be_bytes 2 (of_nat (4 * length options) :: u16) @ put_pairs scope @ put_pairs options)"

lemma put_pairs_simps [simp]:
  "put_pairs [] = []"
  "put_pairs ((ty, len) # ps) = to_be_bytes 2 ty @ to_be_bytes 2 len @ put_pairs ps"
  by (simp_all add: put_pairs_def)

lemma length_put_pairs [simp]: "length (put_pairs ps) = 4 * length ps"
  by (induction ps) auto

lemma u16_written:
  "cur_rest c = to_be_bytes 2 (v :: u16) @ bs \<Longrightarrow>
     cur_u16 c = Some (v, cur_advance 2 c) \<and> try_read cur_u16 c = (Some v, cur_advance 2 c) \<and>
     cur_rest (cur_advance 2 c) = bs"
  using u16.read_written [of c v bs] by (simp add: try_read_def)

lemma v9_read_fields_put:
  "cur_rest c = put_pairs ps @ bs \<Longrightarrow>
     v9_read_fields (length ps) c =
       Some (map (\<lambda>(ty, len). mk_field_spec 0 ty len) ps, cur_advance (4 * length ps) c)"
proof (induction ps arbitrary: c)
  case (Cons p ps)
  obtain ty len where p: "p = (ty, len)" by (cases p)
  from Cons.prems p have "cur_rest c = to_be_bytes 2 ty @ to_be_bytes 2 len @ put_pairs ps @ bs"
    by simp
  note one = u16_written [OF this] and two = u16_written [OF u16_written [OF this, THEN conjunct2, THEN conjunct2]]
  from Cons.IH [of "cur_advance 4 c"] one two show ?case by (simp add: p del: cur_rest_advance)
qed simp

lemma v9_read_scope_put:
  "cur_rest c = put_pairs ps @ bs \<Longrightarrow>
     v9_read_scope (length ps) c =
       Some (map (\<lambda>(ty, len). scope_field ty len) ps, cur_advance (4 * length ps) c)"
proof (induction ps arbitrary: c)
  case (Cons p ps)
  obtain ty len where p: "p = (ty, len)" by (cases p)
  from Cons.prems p have "cur_rest c = to_be_bytes 2 ty @ to_be_bytes 2 len @ put_pairs ps @ bs"
    by simp
  note one = u16_written [OF this] and two = u16_written [OF u16_written [OF this, THEN conjunct2, THEN conjunct2]]
  from Cons.IH [of "cur_advance 4 c"] one two show ?case by (simp add: p del: cur_rest_advance)
qed simp

definition v9_template_ok :: "u16 \<times> (u16 \<times> u16) list \<Rightarrow> bool" where
  "v9_template_ok t \<longleftrightarrow> fst t \<noteq> 0 \<and> length (snd t) < 65536"

definition v9_template_def :: "i64 \<Rightarrow> u16 \<times> (u16 \<times> u16) list \<Rightarrow> u16 \<times> template_entry" where
  "v9_template_def now t =
     (fst t, v9_entry TkData (map (\<lambda>(ty, len). mk_field_spec 0 ty len) (snd t)) 0 now)"

definition v9_options_ok :: "u16 \<times> (u16 \<times> u16) list \<times> (u16 \<times> u16) list \<Rightarrow> bool" where
  "v9_options_ok t \<longleftrightarrow> fst t \<noteq> 0 \<and> 4 * length (fst (snd t)) < 65536 \<and> 4 * length (snd (snd t)) < 65536"

definition v9_options_def ::
  "i64 \<Rightarrow> u16 \<times> (u16 \<times> u16) list \<times> (u16 \<times> u16) list \<Rightarrow> u16 \<times> template_entry" where
  "v9_options_def now t =
     (fst t, v9_entry TkOptions
        (map (\<lambda>(ty, len). scope_field ty len) (fst (snd t)) @
         map (\<lambda>(ty, len). mk_field_spec 0 ty len) (snd (snd t)))
        (of_nat (length (fst (snd t)))) now)"

lemma length_put_v9_template: "length (put_v9_template t) = 4 + 4 * length (snd t)"
  by (simp add: put_v9_template_def)

lemma length_put_v9_options:
  "length (put_v9_options t) = 6 + 4 * length (fst (snd t)) + 4 * length (snd (snd t))"
  by (simp add: put_v9_options_def Let_def split: prod.splits)

text \<open>Zero padding ends a template loop: it reads as the unusable template id 0.\<close>

lemma zeros_u16: "cur_rest c = replicate k 0 \<Longrightarrow> 2 \<le> k \<Longrightarrow>
  cur_u16 c = Some (0, cur_advance 2 c) \<and> cur_rest (cur_advance 2 c) = replicate (k - 2) 0"
proof -
  assume c: "cur_rest c = replicate k 0" and k: "2 \<le> k"
  have z: "to_be_bytes 2 (0 :: u16) = [0, 0]" using to_be_bytes_u16 [of 0] by simp
  obtain j where "k = Suc (Suc j)" using k by (metis Suc_le_D numeral_2_eq_2 Suc_le_mono)
  with c z have "cur_rest c = to_be_bytes 2 (0 :: u16) @ replicate (k - 2) 0" by simp
  from u16_written [OF this] show ?thesis by simp
qed

lemma v9_template_defs_zeros:
  assumes "cur_rest c = replicate k 0"
  shows "v9_template_defs c now = []"
proof (cases "k < 4")
  case True
  with cur_rest_remaining [OF assms] show ?thesis by (subst v9_template_defs.simps) simp
next
  case False
  with zeros_u16 [OF assms] zeros_u16 [of "cur_advance 2 c" "k - 2"]
  show ?thesis by (subst v9_template_defs.simps) simp
qed

lemma v9_template_defs_put:
  assumes "v9_template_ok t" and "cur_rest c = put_v9_template t @ bs"
  shows "v9_template_defs c now =
    v9_template_def now t # v9_template_defs (cur_advance (length (put_v9_template t)) c) now"
    and "cur_rest (cur_advance (length (put_v9_template t)) c) = bs"
proof -
  obtain tid ps where t: "t = (tid, ps)" by (cases t)
  have c: "cur_rest c = to_be_bytes 2 tid @ to_be_bytes 2 (of_nat (length ps) :: u16) @ put_pairs ps @ bs"
    using assms(2) by (simp add: t put_v9_template_def)
  note one = u16_written [OF c]
  note two = u16_written [OF one [THEN conjunct2, THEN conjunct2]]
  have u: "unat (of_nat (length ps) :: u16) = length ps"
    using assms(1) by (simp add: v9_template_ok_def t unat_of_nat_u16)
  have rest: "cur_rest (cur_advance 4 c) = put_pairs ps @ bs" using two by simp
  have "4 \<le> cur_remaining c" using cur_rest_remaining [OF c] by simp
  then show "v9_template_defs c now =
      v9_template_def now t # v9_template_defs (cur_advance (length (put_v9_template t)) c) now"
    using assms(1) one two v9_read_fields_put [OF rest]
    by (subst v9_template_defs.simps)
      (simp add: u t length_put_v9_template v9_template_ok_def v9_template_def_def
        del: cur_rest_advance)
  show "cur_rest (cur_advance (length (put_v9_template t)) c) = bs"
    using assms(2) by simp
qed

lemma v9_template_defs_puts:
  "list_all v9_template_ok ts \<Longrightarrow> cur_rest c = concat (map put_v9_template ts) @ replicate k 0 \<Longrightarrow>
     v9_template_defs c now = map (v9_template_def now) ts"
proof (induction ts arbitrary: c)
  case (Cons t ts)
  then have c: "cur_rest c = put_v9_template t @ concat (map put_v9_template ts) @ replicate k 0" by simp
  from Cons v9_template_defs_put [OF _ c] show ?case by (simp del: cur_rest_advance)
qed (simp add: v9_template_defs_zeros)

lemma v9_options_defs_zeros:
  assumes "cur_rest c = replicate k 0"
  shows "v9_options_defs c now = []"
proof (cases "k < 6")
  case True
  with cur_rest_remaining [OF assms] show ?thesis by (subst v9_options_defs.simps) simp
next
  case False
  with zeros_u16 [OF assms] zeros_u16 [of "cur_advance 2 c" "k - 2"]
    zeros_u16 [of "cur_advance 4 c" "k - 4"]
  show ?thesis by (subst v9_options_defs.simps) (simp add: Let_def)
qed

lemma v9_options_defs_put:
  assumes "v9_options_ok t" and "cur_rest c = put_v9_options t @ bs"
  shows "v9_options_defs c now =
    v9_options_def now t # (if take 2 bs = [0, 0] then []
      else v9_options_defs (cur_advance (length (put_v9_options t)) c) now)"
    and "cur_rest (cur_advance (length (put_v9_options t)) c) = bs"
proof -
  obtain tid ss os where t: "t = (tid, ss, os)" by (cases t)
  have c: "cur_rest c = to_be_bytes 2 tid @ to_be_bytes 2 (of_nat (4 * length ss) :: u16) @
      to_be_bytes 2 (of_nat (4 * length os) :: u16) @ put_pairs ss @ put_pairs os @ bs"
    using assms(2) by (simp add: t put_v9_options_def)
  note one = u16_written [OF c]
  note two = u16_written [OF one [THEN conjunct2, THEN conjunct2]]
  note three = u16_written [OF two [THEN conjunct2, THEN conjunct2]]
  have div: "unat ((of_nat (4 * n) :: u16) div 4) = n" if "4 * n < 65536" for n
    using that by (simp add: unat_div unat_of_nat_u16 del: of_nat_mult)
  have u: "unat ((of_nat (4 * length ss) :: u16) div 4) = length ss"
    "unat ((of_nat (4 * length os) :: u16) div 4) = length os"
    using assms(1) by (simp_all add: v9_options_ok_def t div del: of_nat_mult)
  have scope: "cur_rest (cur_advance 6 c) = put_pairs ss @ put_pairs os @ bs" using three by simp
  then have options: "cur_rest (cur_advance (6 + 4 * length ss) c) = put_pairs os @ bs"
    by (simp add: c)
  have peek: "cur_peek 2 (cur_advance (length (put_v9_options t)) c) = Some [0, 0] \<longleftrightarrow>
      take 2 bs = [0, 0]"
    using assms(2) cur_rest_remaining [OF assms(2)]
    by (auto simp: cur_peek_eq dest: arg_cong [where f = length])
  have "6 \<le> cur_remaining c" using cur_rest_remaining [OF c] by simp
  then show "v9_options_defs c now =
      v9_options_def now t # (if take 2 bs = [0, 0] then []
        else v9_options_defs (cur_advance (length (put_v9_options t)) c) now)"
    using assms(1) one two three v9_read_scope_put [OF scope] v9_read_fields_put [OF options] peek
    by (subst v9_options_defs.simps)
      (simp add: u t length_put_v9_options v9_options_ok_def v9_options_def_def Let_def
        del: cur_rest_advance of_nat_mult)
  show "cur_rest (cur_advance (length (put_v9_options t)) c) = bs"
    using assms(2) by simp
qed


lemma v9_options_defs_puts:
  assumes "list_all v9_options_ok ts"
  shows "cur_rest c = concat (map put_v9_options ts) @ replicate k 0 \<Longrightarrow>
     v9_options_defs c now = map (v9_options_def now) ts"
  using assms
proof (induction ts arbitrary: c)
  case (Cons t ts)
  let ?bs = "concat (map put_v9_options ts) @ replicate k 0"
  from Cons.prems have c: "cur_rest c = put_v9_options t @ ?bs" and ok: "v9_options_ok t" by simp_all
  note first = v9_options_defs_put [OF ok c]
  show ?case
  proof (cases ts)
    case Nil
    with first show ?thesis by (simp add: v9_options_defs_zeros del: cur_rest_advance)
  next
    case (Cons u us)
    with Cons.prems have "fst u \<noteq> 0" by (simp add: v9_options_ok_def)
    then have "to_be_bytes 2 (fst u) \<noteq> [0, 0]"
      using to_be_bytes_u16 [of 0] u16.enc_inject [of "fst u" 0] by auto
    moreover have "take 2 ?bs = to_be_bytes 2 (fst u)"
      by (simp add: Cons put_v9_options_def Let_def split: prod.splits)
    ultimately show ?thesis using first Cons.IH Cons.prems by (simp del: cur_rest_advance)
  qed
qed (simp add: v9_options_defs_zeros)


text \<open>
  C23. Template round trip for NetFlow v9: the layouts an exporter writes into a Template
  FlowSet or an Options Template FlowSet are exactly the layouts learnt from it, each under
  its id, field by field (scope fields first and marked as such), in order; zero padding of
  any length after them defines nothing.
\<close>

theorem v9_template_roundtrip:
  assumes "list_all v9_template_ok ts" and "list_all v9_options_ok os"
  shows "v9_parse_templates (concat (map put_v9_template ts) @ replicate k 0) ex dm now c =
           learn_all ex dm (map (v9_template_def now) ts) c \<and>
         v9_parse_options_templates (concat (map put_v9_options os) @ replicate k 0) ex dm now c =
           learn_all ex dm (map (v9_options_def now) os) c"
  using v9_template_defs_puts [OF assms(1), of "cursor_new _" k now]
    v9_options_defs_puts [OF assms(2), of "cursor_new _" k now]
  by (simp add: v9_templates.learn_parse v9_options.learn_parse)

theorem v9_template_roundtrip_witness:
  "v9_parse_templates (concat (map put_v9_template [(256, [(8, 4), (7, 2)])]) @ replicate 3 0)
     ''r'' 0 10 cache_new =
   learn_all ''r'' 0 (map (v9_template_def 10) [(256, [(8, 4), (7, 2)])]) cache_new \<and>
   v9_parse_options_templates (concat (map put_v9_options [(257, [(1, 4)], [(34, 4)])]) @ replicate 3 0)
     ''r'' 0 10 cache_new =
   learn_all ''r'' 0 (map (v9_options_def 10) [(257, [(1, 4)], [(34, 4)])]) cache_new"
  by (rule v9_template_roundtrip) (simp_all add: v9_template_ok_def v9_options_ok_def)

section \<open>Whole datagrams\<close>

lemma drop_v9_header: "drop (min 20 (length (v9_header n u s q d @ bs))) (v9_header n u s q d @ bs) = bs"
  by (simp add: v9_header_def)

lemma set_fits_length: "set_fits s \<Longrightarrow> length (set_body s) < 2 ^ 32"
  by (simp add: set_fits_def)

definition v9_hdr :: "u16 \<Rightarrow> u32 \<Rightarrow> u32 \<Rightarrow> u32 \<Rightarrow> u32 \<Rightarrow> export_header" where
  "v9_hdr n u s q d = \<lparr>eh_version = 9, eh_count = Some n, eh_sys_uptime = Some u,
     eh_export_time = Some (ucast s * 1000000), eh_sequence = Some (ucast q), eh_obs_domain = Some d\<rparr>"

lemma v9_decode_written:
  assumes "\<forall>s \<in> set sets. set_fits s" and "length padding < 4"
  shows "v9_decode (v9_header n u s q d @ concat (map put_set sets) @ padding) ex ov c now fo =
    (let dm = unwrap_or ov d
     in v9_data_pass ex dm (v9_hdr n u s q d) now fo sets
          (learn_all ex dm (concat (map (v9_set_defs now) sets)) c))"
  using v9_sets.split_put_sets [OF assms]
  by (simp add: v9_decode_def parse_v9_header drop_v9_header v9_learn_pass_eq v9_hdr_def Let_def
      del: drop_append length_append)

text \<open>
  A NetFlow v9 datagram that defines the layouts it uses is decoded completely on
  arrival, wherever its templates stand among its Data Sets: every Data Set yields the rows
  of its body under the last definition of its id, in datagram order, with the header's
  times, and nothing else comes out.
\<close>

theorem v9_self_contained:
  assumes "cache_ok c" and "\<forall>s \<in> set sets. set_fits s" and "length padding < 4"
    and "defs = concat (map (v9_set_defs now) sets)"
    and "length (tc_entries c) + length defs \<le> unat (tc_cap_entries c)"
    and "\<forall>s \<in> set sets. \<not> set_id s < 256 \<longrightarrow> set_id s \<in> fst ` set defs"
  shows "fst (v9_decode (v9_header n u secs q src @ concat (map put_set sets) @ padding) ex None c now fo) =
    concat (map (\<lambda>s. decode_data_set (the (map_of (rev defs) (set_id s))) (set_body s)
        (set_ctx ''9'' (Some (ucast u)) ex src (v9_hdr n u secs q src) s) fo)
      (filter (\<lambda>s. \<not> set_id s < 256) sets))"
proof -
  let ?c = "learn_all ex src defs c"
  have room: "\<exists>e. cache_peek ?c (set_key ex src s) = Some e \<and>
      same_layout e (the (map_of (rev defs) (set_id s)))"
    if "s \<in> set sets" "\<not> set_id s < 256" for s
    using learn_all_room [OF assms(1,5), of "set_key ex src s" ex src] assms(6) that
    by (simp add: set_key_def)
  have bodies: "\<forall>s \<in> set sets. length (set_body s) < 2 ^ 32"
    using assms(2) set_fits_length by blast
  have known: "\<forall>s \<in> set sets. \<not> set_id s < 256 \<longrightarrow> cache_peek ?c (set_key ex src s) \<noteq> None"
    using room by blast
  have up: "map_option ucast (eh_sys_uptime (v9_hdr n u secs q src)) = Some (ucast u)"
    by (simp add: v9_hdr_def)
  have "fst (v9_data_pass ex src (v9_hdr n u secs q src) now fo sets ?c) =
    concat (map (\<lambda>s. decode_data_set (the (cache_peek ?c (set_key ex src s))) (set_body s)
        (set_ctx ''9'' (Some (ucast u)) ex src (v9_hdr n u secs q src) s) fo)
      (filter (\<lambda>s. \<not> set_id s < 256) sets))"
    unfolding v9_pass.pass_known [OF cache_ok_learn_all [OF assms(1)] bodies known] up ..
  also have "\<dots> = concat (map (\<lambda>s. decode_data_set (the (map_of (rev defs) (set_id s))) (set_body s)
        (set_ctx ''9'' (Some (ucast u)) ex src (v9_hdr n u secs q src) s) fo)
      (filter (\<lambda>s. \<not> set_id s < 256) sets))"
    using room by (intro arg_cong [where f = concat] map_cong refl) (force intro: decode_data_set_cong)
  finally show ?thesis
    using assms(4) by (simp add: v9_decode_written [OF assms(2,3)])
qed

text \<open>A datagram whose Data Set stands before its template.\<close>

definition v9_sample_sets :: "flow_set list" where
  "v9_sample_sets =
     [\<lparr>set_id = 256, set_body = [10, 0, 0, 1, 0, 80]\<rparr>,
      \<lparr>set_id = 0, set_body = put_v9_template (256, [(8, 4), (7, 2)])\<rparr>]"

lemma v9_sample_defs:
  "concat (map (v9_set_defs now) v9_sample_sets) = [v9_template_def now (256, [(8, 4), (7, 2)])]"
  using v9_template_defs_puts [of "[(256, [(8, 4), (7, 2)])]"
      "cursor_new (put_v9_template (256, [(8, 4), (7, 2)]))" 0 now]
  by (simp add: v9_sample_sets_def v9_set_defs_def v9_template_ok_def)

theorem v9_self_contained_witness:
  "fst (v9_decode (v9_header 2 1000 1700000000 7 3 @ concat (map put_set v9_sample_sets)) ''r'' None
      cache_new 10 False) =
   decode_data_set (snd (v9_template_def 10 (256, [(8, 4), (7, 2)]))) [10, 0, 0, 1, 0, 80]
     (set_ctx ''9'' (Some 1000) ''r'' 3 (v9_hdr 2 1000 1700000000 7 3)
        \<lparr>set_id = 256, set_body = [10, 0, 0, 1, 0, 80]\<rparr>) False"
proof -
  have d: "map_of (rev [v9_template_def 10 (256, [(8, 4), (7, 2)])]) 256 =
      Some (snd (v9_template_def 10 (256, [(8, 4), (7, 2)])))"
    by (simp add: v9_template_def_def)
  show ?thesis
    using v9_self_contained [OF cache_ok_new, of v9_sample_sets "[]" _ 10 2 1000 1700000000 7 3 "''r''" False,
        OF _ _ v9_sample_defs [symmetric]] d
    by (simp add: v9_sample_sets_def set_fits_def length_put_v9_template cache_new_def
        DEFAULT_CAP_ENTRIES_def v9_template_def_def)
qed

end
