(* ===== verification/Ipfix.thy ===== *)
theory Ipfix
  imports V9
begin

text \<open>
  \<open>decode/ipfix.rs\<close>: IPFIX.  Its two passes have the contracts of \<open>Sets\<close>; its
  template fields may carry an enterprise number.  (The byte-level lemmas on writing
  pairs and padding come from \<open>V9\<close>.)
\<close>

section \<open>Sets\<close>

function ipfix_split_sets :: "bytes \<Rightarrow> string + flow_set list" where
  "ipfix_split_sets region =
     (if length region \<ge> 4 then
        let ident = (from_be [region ! 0, region ! 1] :: u16);
            len = unat (from_be [region ! 2, region ! 3] :: u16)
        in if len < 4 \<or> len > length region then Inl ''bad-ipfix-set''
           else (case ipfix_split_sets (drop len region) of
                   Inl e \<Rightarrow> Inl e
                 | Inr out \<Rightarrow> Inr (\<lparr>set_id = ident, set_body = slice region 4 len\<rparr> # out))
      else Inr [])"
  by pat_completeness auto
termination
  by (relation "measure length") auto

declare ipfix_split_sets.simps [simp del]

interpretation ipfix_sets: set_splitter ipfix_split_sets "''bad-ipfix-set''"
proof
  fix region :: bytes
  let ?n = "be_nat (take 2 (drop 2 region))"
  show "length region < 4 \<Longrightarrow> ipfix_split_sets region = Inr []"
    by (subst ipfix_split_sets.simps) simp
  show "4 \<le> length region \<Longrightarrow> ?n < 4 \<or> length region < ?n \<Longrightarrow>
      ipfix_split_sets region = Inl ''bad-ipfix-set''"
    by (subst ipfix_split_sets.simps) (auto simp: set_length_field Let_def)
  show "4 \<le> ?n \<Longrightarrow> ?n \<le> length region \<Longrightarrow> ipfix_split_sets region =
      (case ipfix_split_sets (drop ?n region) of Inl e \<Rightarrow> Inl e
       | Inr sets \<Rightarrow> Inr (\<lparr>set_id = from_be (take 2 region),
           set_body = drop 4 (take ?n region)\<rparr> # sets))"
    by (subst ipfix_split_sets.simps)
      (auto simp: set_length_field region_header unat_from_be slice_def drop_take Let_def
        simp del: One_nat_def split: sum.splits)
qed

section \<open>Template Sets\<close>

text \<open>The field loop; \<open>None\<close> stands for \<open>ok = false\<close>.\<close>

fun ipfix_read_fields :: "nat \<Rightarrow> cursor \<Rightarrow> (field_spec list \<times> cursor) option" where
  "ipfix_read_fields 0 c = Some ([], c)"
| "ipfix_read_fields (Suc n) c = do {
     (raw_id, c) \<leftarrow> cur_u16 c;
     (len, c) \<leftarrow> cur_u16 c;
     (spec, c) \<leftarrow>
       (if raw_id AND 0x8000 \<noteq> 0
        then do { (pen, c) \<leftarrow> cur_u32 c; Some (mk_field_spec pen (raw_id AND 0x7fff) len, c) }
        else Some (mk_field_spec 0 raw_id len, c));
     (specs, c) \<leftarrow> ipfix_read_fields n c;
     Some (spec # specs, c)
   }"

lemma ipfix_read_fields_remaining:
  "ipfix_read_fields n c = Some (fs, c') \<Longrightarrow> cur_remaining c' \<le> cur_remaining c"
  by (induction n arbitrary: c fs)
    (fastforce simp: u16.read_eq u32.read_eq split: if_splits Option.bind_splits)+

function ipfix_templates_loop ::
  "cursor \<Rightarrow> string \<Rightarrow> u32 \<Rightarrow> i64 \<Rightarrow> bool \<Rightarrow> template_cache \<Rightarrow> template_cache" where
  "ipfix_templates_loop c exporter obs_domain now options cache =
     (if cur_remaining c < 4 then cache else
      case cur_u16 c of None \<Rightarrow> cache | Some (template_id, c) \<Rightarrow>
      case cur_u16 c of None \<Rightarrow> cache | Some (field_count, c) \<Rightarrow>
      if template_id = 0 \<or> field_count = 0 then cache else
      case (if options then cur_u16 c else Some (0, c)) of None \<Rightarrow> cache
      | Some (scope_field_count, c) \<Rightarrow>
      case ipfix_read_fields (unat field_count) c of None \<Rightarrow> cache | Some (specs, c) \<Rightarrow>
      (let cache = upsert (TemplateKey exporter obs_domain template_id)
             \<lparr>te_kind = (if options then TkOptions else TkData), te_fields = specs,
              te_scope_field_count = scope_field_count, te_first_seen = now,
              te_last_seen = now, te_use_count = 0\<rparr> cache
       in if cur_peek 2 c = Some [0, 0] then cache
          else ipfix_templates_loop c exporter obs_domain now options cache))"
  by pat_completeness auto
termination
  by (relation "measure (\<lambda>(c, _). cur_remaining c)")
    (auto simp: u16.read_eq split: if_splits dest!: ipfix_read_fields_remaining)

declare ipfix_templates_loop.simps [simp del]

definition ipfix_parse_templates ::
  "bytes \<Rightarrow> string \<Rightarrow> u32 \<Rightarrow> i64 \<Rightarrow> bool \<Rightarrow> template_cache \<Rightarrow> template_cache" where
  "ipfix_parse_templates body exporter obs_domain now options cache =
     ipfix_templates_loop (cursor_new body) exporter obs_domain now options cache"

section \<open>The decoder\<close>

fun ipfix_learn_pass ::
  "string \<Rightarrow> u32 \<Rightarrow> i64 \<Rightarrow> flow_set list \<Rightarrow> template_cache \<Rightarrow> template_cache" where
  "ipfix_learn_pass exporter obs_domain now [] cache = cache"
| "ipfix_learn_pass exporter obs_domain now (s # sets) cache =
     (let cache =
        (if set_id s = 2 then ipfix_parse_templates (set_body s) exporter obs_domain now False cache
         else if set_id s = 3
         then ipfix_parse_templates (set_body s) exporter obs_domain now True cache
         else cache)
      in ipfix_learn_pass exporter obs_domain now sets cache)"

definition ipfix_ctx_base :: "string \<Rightarrow> u32 \<Rightarrow> export_header \<Rightarrow> ctx" where
  "ipfix_ctx_base exporter obs_domain hdr =
     \<lparr>cx_exporter = exporter, cx_obs_domain = obs_domain, cx_version = ''10'',
      cx_export_time = eh_export_time hdr, cx_sequence = eh_sequence hdr,
      cx_sys_uptime_ms = None, cx_template_id = 0\<rparr>"

fun ipfix_data_pass ::
  "string \<Rightarrow> u32 \<Rightarrow> export_header \<Rightarrow> i64 \<Rightarrow> bool \<Rightarrow> flow_set list \<Rightarrow> template_cache \<Rightarrow>
   flow_record list \<times> template_cache" where
  "ipfix_data_pass exporter obs_domain hdr now flows_only [] cache = ([], cache)"
| "ipfix_data_pass exporter obs_domain hdr now flows_only (s # sets) cache =
     (if set_id s < 256 then ipfix_data_pass exporter obs_domain hdr now flows_only sets cache
      else
        let key = TemplateKey exporter obs_domain (set_id s);
            (rows, cache) =
              (case use_template key now cache of
                 (Some tpl, cache) \<Rightarrow>
                   let cx = (ipfix_ctx_base exporter obs_domain hdr)\<lparr>cx_template_id := set_id s\<rparr>
                   in (decode_data_set tpl (set_body s) cx flows_only, cache)
               | (None, cache) \<Rightarrow>
                   let rec = \<lparr>pr_export_time = eh_export_time hdr, pr_sequence = eh_sequence hdr,
                              pr_version = ''10'', pr_sys_uptime_ms = None,
                              pr_bytes = set_body s\<rparr>
                   in case push_pending key rec cache of
                        (True, cache) \<Rightarrow> ([], cache)
                      | (False, cache) \<Rightarrow>
                          ([diagnostic exporter ''10'' obs_domain (eh_export_time hdr)
                              (eh_sequence hdr)
                              (''missing-template:'' @ dec_of_word obs_domain @ ''/'' @
                               dec_of_word (set_id s))], cache));
            (rest, cache) = ipfix_data_pass exporter obs_domain hdr now flows_only sets cache
        in (rows @ rest, cache))"

definition ipfix_decode ::
  "bytes \<Rightarrow> string \<Rightarrow> u32 option \<Rightarrow> template_cache \<Rightarrow> i64 \<Rightarrow> bool \<Rightarrow>
   flow_record list \<times> template_cache" where
  "ipfix_decode data exporter obs_override cache now flows_only =
     (case parse_header data of
        None \<Rightarrow> ([diagnostic exporter ''10'' 0 None None ''decode-error:bad-ipfix-header''], cache)
      | Some hdr \<Rightarrow>
          let obs_domain = unwrap_or obs_override (unwrap_or (eh_obs_domain hdr) 0)
          in case ipfix_split_sets (drop (min 16 (length data)) data) of
               Inl diag \<Rightarrow> ([diagnostic exporter ''10'' obs_domain (eh_export_time hdr)
                              (eh_sequence hdr) diag], cache)
             | Inr sets \<Rightarrow>
                 let cache = ipfix_learn_pass exporter obs_domain now sets cache
                 in ipfix_data_pass exporter obs_domain hdr now flows_only sets cache)"

interpretation ipfix_pass: data_pass ipfix_data_pass "''10''" "\<lambda>hdr. None"
proof
  fix ex dm hdr now fo and s :: flow_set and ss c
  show "ipfix_data_pass ex dm hdr now fo [] c = ([], c)" by simp
  show "set_id s < 256 \<Longrightarrow>
      ipfix_data_pass ex dm hdr now fo (s # ss) c = ipfix_data_pass ex dm hdr now fo ss c" by simp
  show "\<not> set_id s < 256 \<Longrightarrow> ipfix_data_pass ex dm hdr now fo (s # ss) c =
      (let (rows, c) = data_set_step ''10'' None ex dm hdr now fo s c;
           (rest, c) = ipfix_data_pass ex dm hdr now fo ss c
       in (rows @ rest, c))"
    by (simp add: data_set_step_def set_key_def set_ctx_def set_pending_def missing_row_def
        missing_template_def ipfix_ctx_base_def Let_def split: prod.splits option.splits bool.splits)
qed

section \<open>What the template loop learns\<close>

definition ipfix_entry :: "bool \<Rightarrow> field_spec list \<Rightarrow> u16 \<Rightarrow> i64 \<Rightarrow> template_entry" where
  "ipfix_entry options specs scope now =
     v9_entry (if options then TkOptions else TkData) specs scope now"

function ipfix_template_defs :: "cursor \<Rightarrow> i64 \<Rightarrow> bool \<Rightarrow> (u16 \<times> template_entry) list" where
  "ipfix_template_defs c now options =
     (if cur_remaining c < 4 then [] else
      case cur_u16 c of None \<Rightarrow> [] | Some (template_id, c) \<Rightarrow>
      case cur_u16 c of None \<Rightarrow> [] | Some (field_count, c) \<Rightarrow>
      if template_id = 0 \<or> field_count = 0 then [] else
      case (if options then cur_u16 c else Some (0, c)) of None \<Rightarrow> []
      | Some (scope_field_count, c) \<Rightarrow>
      case ipfix_read_fields (unat field_count) c of None \<Rightarrow> [] | Some (specs, c) \<Rightarrow>
      (template_id, ipfix_entry options specs scope_field_count now) #
      (if cur_peek 2 c = Some [0, 0] then [] else ipfix_template_defs c now options))"
  by pat_completeness auto
termination
  by (relation "measure (\<lambda>(c, _). cur_remaining c)")
    (auto simp: u16.read_eq split: if_splits dest!: ipfix_read_fields_remaining)

declare ipfix_template_defs.simps [simp del]

lemma ipfix_templates_loop_eq:
  "ipfix_templates_loop c ex dm now options cache =
     learn_all ex dm (ipfix_template_defs c now options) cache"
proof (induction c now options arbitrary: cache rule: ipfix_template_defs.induct)
  case (1 c now options)
  then show ?case
    by (subst ipfix_templates_loop.simps, subst ipfix_template_defs.simps)
      (auto simp: Let_def ipfix_entry_def v9_entry_def split: option.splits)
qed

lemma ipfix_template_defs_fresh: "list_all (fresh_def now) (ipfix_template_defs c now options)"
proof (induction c now options rule: ipfix_template_defs.induct)
  case (1 c now options)
  then show ?case
    by (subst ipfix_template_defs.simps) (auto simp: ipfix_entry_def split: option.splits)
qed

interpretation ipfix_data_templates: template_learner
  "\<lambda>body ex dm now c. ipfix_parse_templates body ex dm now False c"
  "\<lambda>body now. ipfix_template_defs (cursor_new body) now False"
  by unfold_locales
    (use ipfix_template_defs_fresh in
      \<open>force simp: ipfix_parse_templates_def ipfix_templates_loop_eq list_all_iff fresh_def_def\<close>)+

interpretation ipfix_options_templates: template_learner
  "\<lambda>body ex dm now c. ipfix_parse_templates body ex dm now True c"
  "\<lambda>body now. ipfix_template_defs (cursor_new body) now True"
  by unfold_locales
    (use ipfix_template_defs_fresh in
      \<open>force simp: ipfix_parse_templates_def ipfix_templates_loop_eq list_all_iff fresh_def_def\<close>)+

definition ipfix_set_defs :: "i64 \<Rightarrow> flow_set \<Rightarrow> (u16 \<times> template_entry) list" where
  "ipfix_set_defs now s =
     (if set_id s = 2 then ipfix_template_defs (cursor_new (set_body s)) now False
      else if set_id s = 3 then ipfix_template_defs (cursor_new (set_body s)) now True else [])"

lemma ipfix_learn_pass_eq:
  "ipfix_learn_pass ex dm now sets c = learn_all ex dm (concat (map (ipfix_set_defs now) sets)) c"
  by (induction sets arbitrary: c)
    (simp_all add: ipfix_set_defs_def ipfix_data_templates.learn_parse
      ipfix_options_templates.learn_parse learn_all_append Let_def)

section \<open>Template round trip\<close>

text \<open>A field as written: enterprise number (0 for IANA), element id, length.\<close>

definition ipfix_field_ok :: "u32 \<times> u16 \<times> u16 \<Rightarrow> bool" where
  "ipfix_field_ok f \<longleftrightarrow> fst (snd f) AND 0x8000 = 0"

definition put_ipfix_field :: "u32 \<times> u16 \<times> u16 \<Rightarrow> bytes" where
  "put_ipfix_field f =
     (let (pen, ident, len) = f in
      if pen = 0 then to_be_bytes 2 ident @ to_be_bytes 2 len
      else to_be_bytes 2 (ident OR 0x8000) @ to_be_bytes 2 len @ to_be_bytes 4 pen)"

definition put_ipfix_fields :: "(u32 \<times> u16 \<times> u16) list \<Rightarrow> bytes" where
  "put_ipfix_fields fs = concat (map put_ipfix_field fs)"

lemma put_ipfix_fields_simps [simp]:
  "put_ipfix_fields [] = []"
  "put_ipfix_fields (f # fs) = put_ipfix_field f @ put_ipfix_fields fs"
  by (simp_all add: put_ipfix_fields_def)

lemma enterprise_bit:
  assumes "(ident :: u16) AND 0x8000 = 0"
  shows "(ident OR 0x8000) AND 0x8000 \<noteq> 0" and "(ident OR 0x8000) AND 0x7fff = ident"
proof -
  have "(ident OR 0x8000) AND 0x8000 = (ident AND 0x8000) OR (0x8000 AND 0x8000)"
    by (rule bit.conj_disj_distrib2)
  with assms show "(ident OR 0x8000) AND 0x8000 \<noteq> 0" by simp
  have "(0x7fff OR 0x8000 :: u16) = - 1" by simp
  then have "ident = ident AND (0x7fff OR 0x8000)" by (simp only: bit.conj_one_right)
  also have "\<dots> = (ident AND 0x7fff) OR (ident AND 0x8000)" by (rule bit.conj_disj_distrib)
  finally have id7: "ident AND 0x7fff = ident" using assms by simp
  have "(ident OR 0x8000) AND 0x7fff = (ident AND 0x7fff) OR (0x8000 AND 0x7fff)"
    by (rule bit.conj_disj_distrib2)
  with id7 show "(ident OR 0x8000) AND 0x7fff = ident" by simp
qed

lemma ipfix_read_fields_put:
  "list_all ipfix_field_ok fs \<Longrightarrow> cur_rest c = put_ipfix_fields fs @ bs \<Longrightarrow>
     ipfix_read_fields (length fs) c =
       Some (map (\<lambda>(pen, ident, len). mk_field_spec pen ident len) fs,
             cur_advance (length (put_ipfix_fields fs)) c)"
proof (induction fs arbitrary: c)
  case (Cons f fs)
  obtain pen ident len where f: "f = (pen, ident, len)" by (cases f) auto
  let ?rest = "put_ipfix_fields fs @ bs"
  have c: "cur_rest c = put_ipfix_field f @ ?rest" using Cons.prems by simp
  have ok: "ident AND 0x8000 = 0" using Cons.prems by (simp add: ipfix_field_ok_def f)
  have rest: "cur_rest (cur_advance (length (put_ipfix_field f)) c) = ?rest" using c by simp
  note IH = Cons.IH [OF _ rest]
  show ?case
  proof (cases "pen = 0")
    case True
    with c have c': "cur_rest c = to_be_bytes 2 ident @ to_be_bytes 2 len @ ?rest"
      by (simp add: f put_ipfix_field_def)
    note one = u16_written [OF c'] and two = u16_written [OF u16_written [OF c', THEN conjunct2, THEN conjunct2]]
    have "length (put_ipfix_field f) = 4" using True by (simp add: f put_ipfix_field_def)
    with True ok one two IH Cons.prems show ?thesis by (simp add: f del: cur_rest_advance)
  next
    case False
    with c have c': "cur_rest c = to_be_bytes 2 (ident OR 0x8000) @ to_be_bytes 2 len @ to_be_bytes 4 pen @ ?rest"
      by (simp add: f put_ipfix_field_def)
    note one = u16_written [OF c'] and two = u16_written [OF u16_written [OF c', THEN conjunct2, THEN conjunct2]]
    note three = u32.read_written [OF two [THEN conjunct2, THEN conjunct2]]
    have "length (put_ipfix_field f) = 8" using False by (simp add: f put_ipfix_field_def)
    with False enterprise_bit [OF ok] one two three IH Cons.prems show ?thesis
      by (simp add: f del: cur_rest_advance)
  qed
qed simp

text \<open>A template as written: id, scope field count (Options only), fields.\<close>

definition put_ipfix_template :: "bool \<Rightarrow> u16 \<times> u16 \<times> (u32 \<times> u16 \<times> u16) list \<Rightarrow> bytes" where
  "put_ipfix_template options t =
     (let (tid, scope, fs) = t in
      to_be_bytes 2 tid @ to_be_bytes 2 (of_nat (length fs) :: u16) @
      (if options then to_be_bytes 2 scope else []) @ put_ipfix_fields fs)"

definition ipfix_template_ok :: "bool \<Rightarrow> u16 \<times> u16 \<times> (u32 \<times> u16 \<times> u16) list \<Rightarrow> bool" where
  "ipfix_template_ok options t \<longleftrightarrow>
     (let (tid, scope, fs) = t in
      tid \<noteq> 0 \<and> fs \<noteq> [] \<and> length fs < 65536 \<and> list_all ipfix_field_ok fs \<and> (options \<or> scope = 0))"

definition ipfix_template_def ::
  "i64 \<Rightarrow> bool \<Rightarrow> u16 \<times> u16 \<times> (u32 \<times> u16 \<times> u16) list \<Rightarrow> u16 \<times> template_entry" where
  "ipfix_template_def now options t =
     (let (tid, scope, fs) = t in
      (tid, ipfix_entry options (map (\<lambda>(pen, ident, len). mk_field_spec pen ident len) fs) scope now))"

lemma ipfix_template_defs_zeros:
  assumes "cur_rest c = replicate k 0"
  shows "ipfix_template_defs c now options = []"
proof (cases "k < 4")
  case True
  with cur_rest_remaining [OF assms] show ?thesis by (subst ipfix_template_defs.simps) simp
next
  case False
  with zeros_u16 [OF assms] zeros_u16 [of "cur_advance 2 c" "k - 2"]
  show ?thesis by (subst ipfix_template_defs.simps) simp
qed

lemma ipfix_template_defs_put:
  assumes "ipfix_template_ok options t" and "cur_rest c = put_ipfix_template options t @ bs"
  shows "ipfix_template_defs c now options =
    ipfix_template_def now options t # (if take 2 bs = [0, 0] then []
      else ipfix_template_defs (cur_advance (length (put_ipfix_template options t)) c) now options)"
    and "cur_rest (cur_advance (length (put_ipfix_template options t)) c) = bs"
proof -
  obtain tid scope fs where t: "t = (tid, scope, fs)" by (cases t) auto
  obtain sb where sb: "sb = (if options then to_be_bytes 2 scope else [])" by simp
  have ok: "tid \<noteq> 0" "fs \<noteq> []" "length fs < 65536" "list_all ipfix_field_ok fs" "options \<or> scope = 0"
    using assms(1) by (simp_all add: ipfix_template_ok_def t)
  have c: "cur_rest c = to_be_bytes 2 tid @ to_be_bytes 2 (of_nat (length fs) :: u16) @ sb @
      put_ipfix_fields fs @ bs"
    using assms(2) by (simp add: t put_ipfix_template_def sb)
  note one = u16_written [OF c]
  note two = u16_written [OF one [THEN conjunct2, THEN conjunct2]]
  have u: "unat (of_nat (length fs) :: u16) = length fs" using ok by (simp add: unat_of_nat_u16)
  then have nz: "(of_nat (length fs) :: u16) \<noteq> 0" using ok(2) by (metis length_0_conv unat_0)
  have scope: "(if options then cur_u16 (cur_advance 4 c) else Some (0, cur_advance 4 c)) =
      Some (scope, cur_advance (4 + length sb) c)"
  proof (cases options)
    case True
    from two have "cur_rest (cur_advance 4 c) = sb @ put_ipfix_fields fs @ bs" by simp
    with True have "cur_rest (cur_advance 4 c) = to_be_bytes 2 scope @ put_ipfix_fields fs @ bs"
      by (simp add: sb)
    from u16_written [OF this] True show ?thesis by (simp add: sb)
  qed (use ok in \<open>simp add: sb\<close>)
  have flds: "cur_rest (cur_advance (4 + length sb) c) = put_ipfix_fields fs @ bs"
    using c by simp
  have len: "length (put_ipfix_template options t) = 4 + length sb + length (put_ipfix_fields fs)"
    by (simp add: put_ipfix_template_def t sb)
  have peek: "cur_peek 2 (cur_advance (length (put_ipfix_template options t)) c) = Some [0, 0] \<longleftrightarrow>
      take 2 bs = [0, 0]"
    using assms(2) cur_rest_remaining [OF assms(2)]
    by (auto simp: cur_peek_eq dest: arg_cong [where f = length])
  have "4 \<le> cur_remaining c" using cur_rest_remaining [OF c] by simp
  then show "ipfix_template_defs c now options =
      ipfix_template_def now options t # (if take 2 bs = [0, 0] then []
        else ipfix_template_defs (cur_advance (length (put_ipfix_template options t)) c) now options)"
    unfolding len
    using ok one two nz scope ipfix_read_fields_put [OF ok(4) flds] peek [unfolded len]
    by (subst ipfix_template_defs.simps)
      (simp add: u t ipfix_template_def_def del: cur_rest_advance split del: if_split)
  show "cur_rest (cur_advance (length (put_ipfix_template options t)) c) = bs"
    using assms(2) by simp
qed


lemma ipfix_template_defs_puts:
  assumes "list_all (ipfix_template_ok options) ts"
  shows "cur_rest c = concat (map (put_ipfix_template options) ts) @ replicate k 0 \<Longrightarrow>
     ipfix_template_defs c now options = map (ipfix_template_def now options) ts"
  using assms
proof (induction ts arbitrary: c)
  case (Cons t ts)
  let ?bs = "concat (map (put_ipfix_template options) ts) @ replicate k 0"
  from Cons.prems have c: "cur_rest c = put_ipfix_template options t @ ?bs"
    and ok: "ipfix_template_ok options t" by simp_all
  note first = ipfix_template_defs_put [OF ok c]
  show ?case
  proof (cases ts)
    case Nil
    with first show ?thesis by (simp add: ipfix_template_defs_zeros del: cur_rest_advance)
  next
    case (Cons u us)
    with Cons.prems have "fst u \<noteq> 0" by (auto simp: ipfix_template_ok_def)
    then have "to_be_bytes 2 (fst u) \<noteq> [0, 0]"
      using to_be_bytes_u16 [of 0] u16.enc_inject [of "fst u" 0] by auto
    moreover have "take 2 ?bs = to_be_bytes 2 (fst u)"
      by (simp add: Cons put_ipfix_template_def Let_def split: prod.splits)
    ultimately show ?thesis using first Cons.IH Cons.prems by (simp del: cur_rest_advance)
  qed
qed (simp add: ipfix_template_defs_zeros)

text \<open>
  C24. Template round trip for IPFIX: the layouts written into a Template or an Options
  Template Set, with IANA and enterprise elements in any order, are exactly the layouts
  learnt from it, the enterprise number of each field recovered from its flag bit.
\<close>

theorem ipfix_template_roundtrip:
  assumes "list_all (ipfix_template_ok options) ts"
  shows "ipfix_parse_templates (concat (map (put_ipfix_template options) ts) @ replicate k 0)
      ex dm now options c =
    learn_all ex dm (map (ipfix_template_def now options) ts) c"
  using ipfix_template_defs_puts [OF assms, of "cursor_new _" k now]
  by (simp add: ipfix_parse_templates_def ipfix_templates_loop_eq)

theorem ipfix_template_roundtrip_witness:
  "ipfix_parse_templates (concat (map (put_ipfix_template False)
       [(256, 0, [(0, 8, 4), (6876, 880, 0xFFFF)]), (257, 0, [(0, 7, 2)])]) @ replicate 2 0)
     ''r'' 0 10 False cache_new =
   learn_all ''r'' 0 (map (ipfix_template_def 10 False)
       [(256, 0, [(0, 8, 4), (6876, 880, 0xFFFF)]), (257, 0, [(0, 7, 2)])]) cache_new"
  by (rule ipfix_template_roundtrip) (simp add: ipfix_template_ok_def ipfix_field_ok_def)

section \<open>Whole datagrams\<close>

text \<open>
  C25. Splitting is the exact inverse of writing sets, for both decoders: a region is split
  into a list of sets just when it is the concatenation of their wire forms and at most
  three bytes; otherwise each decoder reports its own error, the same for every cause, and they
  reject the same regions.
\<close>

theorem split_exact:
  "(v9_split_flowsets region = Inr sets \<longleftrightarrow>
      (\<exists>padding. region = concat (map put_set sets) @ padding \<and> length padding < 4 \<and>
         list_all set_fits sets)) \<and>
   ipfix_split_sets region =
     (case v9_split_flowsets region of Inl _ \<Rightarrow> Inl ''bad-ipfix-set'' | Inr ss \<Rightarrow> Inr ss) \<and>
   v9_split_flowsets region =
     (case ipfix_split_sets region of Inl _ \<Rightarrow> Inl ''set-length-overrun'' | Inr ss \<Rightarrow> Inr ss)"
proof (intro conjI)
  show "v9_split_flowsets region = Inr sets \<longleftrightarrow>
      (\<exists>padding. region = concat (map put_set sets) @ padding \<and> length padding < 4 \<and>
         list_all set_fits sets)"
    unfolding list_all_iff
    using v9_sets.split_sound [of region sets] v9_sets.split_put_sets [of sets] by blast
  show "ipfix_split_sets region =
     (case v9_split_flowsets region of Inl _ \<Rightarrow> Inl ''bad-ipfix-set'' | Inr ss \<Rightarrow> Inr ss)"
  proof (cases "v9_split_flowsets region")
    case (Inr ss)
    from v9_sets.split_sound [OF this] ipfix_sets.split_put_sets [of ss] Inr
    show ?thesis by auto
  next
    case (Inl e)
    show ?thesis
    proof (cases "ipfix_split_sets region")
      case (Inr ss)
      from ipfix_sets.split_sound [OF this] v9_sets.split_put_sets [of ss] Inl
      show ?thesis by auto
    next
      case (Inl e')
      with ipfix_sets.split_error [OF Inl] \<open>v9_split_flowsets region = Inl e\<close> show ?thesis by simp
    qed
  qed
  then show "v9_split_flowsets region =
     (case ipfix_split_sets region of Inl _ \<Rightarrow> Inl ''set-length-overrun'' | Inr ss \<Rightarrow> Inr ss)"
    using v9_sets.split_error [of region] by (cases "v9_split_flowsets region") simp_all
qed

lemma drop_ipfix_header:
  "drop (min 16 (length (ipfix_header l s q d @ bs))) (ipfix_header l s q d @ bs) = bs"
  by (simp add: ipfix_header_def)

definition ipfix_hdr :: "u32 \<Rightarrow> u32 \<Rightarrow> u32 \<Rightarrow> export_header" where
  "ipfix_hdr s q d = \<lparr>eh_version = 10, eh_count = None, eh_sys_uptime = None,
     eh_export_time = Some (ucast s * 1000000), eh_sequence = Some (ucast q), eh_obs_domain = Some d\<rparr>"

lemma ipfix_decode_written:
  assumes "\<forall>s \<in> set sets. set_fits s" and "length padding < 4"
  shows "ipfix_decode (ipfix_header l s q d @ concat (map put_set sets) @ padding) ex ov c now fo =
    (let dm = unwrap_or ov d
     in ipfix_data_pass ex dm (ipfix_hdr s q d) now fo sets
          (learn_all ex dm (concat (map (ipfix_set_defs now) sets)) c))"
  using ipfix_sets.split_put_sets [OF assms]
  by (simp add: ipfix_decode_def parse_ipfix_header drop_ipfix_header ipfix_learn_pass_eq ipfix_hdr_def
      Let_def del: drop_append length_append)

text \<open>
  C8. An IPFIX message that defines the layouts it uses is decoded completely on arrival,
  under the observation domain of its header or the one the caller forces, wherever its
  templates stand among its Data Sets, provided the cache has room for the layouts it defines.
  (At its cap an eviction may strike a layout the message has just brought.)
\<close>

theorem ipfix_self_contained:
  assumes "cache_ok c" and "\<forall>s \<in> set sets. set_fits s" and "length padding < 4"
    and "defs = concat (map (ipfix_set_defs now) sets)"
    and "length (tc_entries c) + length defs \<le> unat (tc_cap_entries c)"
    and "\<forall>s \<in> set sets. \<not> set_id s < 256 \<longrightarrow> set_id s \<in> fst ` set defs"
    and "dm = unwrap_or override domain"
  shows "fst (ipfix_decode (ipfix_header l secs q domain @ concat (map put_set sets) @ padding)
      ex override c now fo) =
    concat (map (\<lambda>s. decode_data_set (the (map_of (rev defs) (set_id s))) (set_body s)
        (set_ctx ''10'' None ex dm (ipfix_hdr secs q domain) s) fo)
      (filter (\<lambda>s. \<not> set_id s < 256) sets))"
proof -
  let ?c = "learn_all ex dm defs c"
  have room: "\<exists>e. cache_peek ?c (set_key ex dm s) = Some e \<and>
      same_layout e (the (map_of (rev defs) (set_id s)))"
    if "s \<in> set sets" "\<not> set_id s < 256" for s
    using learn_all_room [OF assms(1,5), of "set_key ex dm s" ex dm] assms(6) that
    by (simp add: set_key_def)
  have bodies: "\<forall>s \<in> set sets. length (set_body s) < 2 ^ 32"
    using assms(2) set_fits_length by blast
  have known: "\<forall>s \<in> set sets. \<not> set_id s < 256 \<longrightarrow> cache_peek ?c (set_key ex dm s) \<noteq> None"
    using room by blast
  have "fst (ipfix_data_pass ex dm (ipfix_hdr secs q domain) now fo sets ?c) =
    concat (map (\<lambda>s. decode_data_set (the (cache_peek ?c (set_key ex dm s))) (set_body s)
        (set_ctx ''10'' None ex dm (ipfix_hdr secs q domain) s) fo)
      (filter (\<lambda>s. \<not> set_id s < 256) sets))"
    by (rule ipfix_pass.pass_known [OF cache_ok_learn_all [OF assms(1)] bodies known])
  also have "\<dots> = concat (map (\<lambda>s. decode_data_set (the (map_of (rev defs) (set_id s))) (set_body s)
        (set_ctx ''10'' None ex dm (ipfix_hdr secs q domain) s) fo)
      (filter (\<lambda>s. \<not> set_id s < 256) sets))"
    using room by (intro arg_cong [where f = concat] map_cong refl) (force intro: decode_data_set_cong)
  finally show ?thesis
    using assms(4,7) by (simp add: ipfix_decode_written [OF assms(2,3)] Let_def)
qed

definition ipfix_sample_sets :: "flow_set list" where
  "ipfix_sample_sets =
     [\<lparr>set_id = 256, set_body = [10, 0, 0, 1, 2, 9, 9]\<rparr>,
      \<lparr>set_id = 2, set_body = put_ipfix_template False (256, 0, [(0, 8, 4), (6876, 890, 0xFFFF)])\<rparr>]"

lemma ipfix_sample_defs:
  "concat (map (ipfix_set_defs now) ipfix_sample_sets) =
     [ipfix_template_def now False (256, 0, [(0, 8, 4), (6876, 890, 0xFFFF)])]"
  using ipfix_template_defs_puts [of False "[(256, 0, [(0, 8, 4), (6876, 890, 0xFFFF)])]"
      "cursor_new (put_ipfix_template False (256, 0, [(0, 8, 4), (6876, 890, 0xFFFF)]))" 0 now]
  by (simp add: ipfix_sample_sets_def ipfix_set_defs_def ipfix_template_ok_def ipfix_field_ok_def)

theorem ipfix_self_contained_witness:
  "fst (ipfix_decode (ipfix_header 0 1700000000 7 3 @ concat (map put_set ipfix_sample_sets)) ''r''
      (Some 9) cache_new 10 False) =
   decode_data_set (snd (ipfix_template_def 10 False (256, 0, [(0, 8, 4), (6876, 890, 0xFFFF)])))
     [10, 0, 0, 1, 2, 9, 9]
     (set_ctx ''10'' None ''r'' 9 (ipfix_hdr 1700000000 7 3)
        \<lparr>set_id = 256, set_body = [10, 0, 0, 1, 2, 9, 9]\<rparr>) False"
  using ipfix_self_contained [OF cache_ok_new, of ipfix_sample_sets "[]" _ 10 9 "Some 9" 3 0 1700000000 7
      "''r''" False, OF _ _ ipfix_sample_defs [symmetric]]
  by (simp add: ipfix_sample_sets_def set_fits_def put_ipfix_template_def put_ipfix_field_def
      cache_new_def DEFAULT_CAP_ENTRIES_def ipfix_template_def_def)

end
