(* ===== verification/Sflow.thy ===== *)
theory Sflow
  imports Header Normalize
begin

text \<open>
  \<open>decode/sflow.rs\<close>: sFlow v5.  Stateless: samples are framed by type and length, flow
  samples are parsed down to the transport ports, counter samples are kept raw.  The
  parsers update one record in place in the code; here they return it.
\<close>

section \<open>Counts\<close>

definition saturating_mul :: "'a::len word \<Rightarrow> 'a word \<Rightarrow> 'a word" where
  "saturating_mul a b = (if unat a * unat b < 2 ^ LENGTH('a) then a * b else - 1)"

definition scale_counts :: "u64 \<Rightarrow> u32 \<Rightarrow> flow_record \<Rightarrow> flow_record" where
  "scale_counts frame_length rate rec =
     (let rec = rec\<lparr>fr_bytes := Some (saturating_mul frame_length (ucast rate)),
                    fr_packets := Some (ucast rate)\<rparr>;
          rec = put_raw ''sflow.frame_length'' (to_be_bytes 4 (ucast frame_length :: u32)) rec
      in put_raw ''sflow.sampling_rate'' (to_be_bytes 4 rate) rec)"

section \<open>Packet headers\<close>

definition parse_l4 :: "cursor \<Rightarrow> u8 \<Rightarrow> flow_record \<Rightarrow> flow_record" where
  "parse_l4 c proto rec =
     (if proto = 6 then
        (let (sp, c) = read_or cur_u16 0 c;
             (dp, c) = read_or cur_u16 0 c;
             c = snd (cur_skip 8 c);
             (data_off, c) = try_read cur_u8 c;
             (flags, c) = read_or cur_u8 0 c
         in rec\<lparr>fr_src_port := Some sp, fr_dst_port := Some dp, fr_tcp_flags := Some flags\<rparr>)
      else if proto = 17 then
        (let (sp, c) = read_or cur_u16 0 c;
             (dp, c) = read_or cur_u16 0 c
         in rec\<lparr>fr_src_port := Some sp, fr_dst_port := Some dp\<rparr>)
      else rec)"

definition parse_ipv4 :: "cursor \<Rightarrow> flow_record \<Rightarrow> flow_record" where
  "parse_ipv4 c rec =
     (case cur_u8 c of None \<Rightarrow> rec | Some (vihl, c) \<Rightarrow>
      (let ihl = unat (vihl AND 0x0f) * 4 in
       case cur_u8 c of None \<Rightarrow> rec | Some (tos, c) \<Rightarrow>
       (let c = snd (cur_skip 2 c);
            c = snd (cur_skip 2 c);
            c = snd (cur_skip 2 c);
            c = snd (cur_skip 1 c);
            (proto, c) = read_or cur_u8 0 c;
            c = snd (cur_skip 2 c);
            (src, c) = read_or (cur_take 4) [] c;
            (dst, c) = read_or (cur_take 4) [] c;
            rec = rec\<lparr>fr_src_addr := inet4 src, fr_dst_addr := inet4 dst,
                      fr_protocol := Some proto, fr_tos := Some tos\<rparr>;
            consumed = 20;
            c = (if ihl > consumed then snd (cur_skip (ihl - consumed) c) else c)
        in parse_l4 c proto rec)))"

definition parse_ipv6 :: "cursor \<Rightarrow> flow_record \<Rightarrow> flow_record" where
  "parse_ipv6 c rec =
     (case cur_u32 c of None \<Rightarrow> rec | Some (vtc, c) \<Rightarrow>
      (let c = snd (cur_skip 2 c);
           (next_header, c) = read_or cur_u8 0 c;
           c = snd (cur_skip 1 c);
           (src, c) = read_or (cur_take 16) [] c;
           (dst, c) = read_or (cur_take 16) [] c;
           rec = rec\<lparr>fr_src_addr := inet6 src, fr_dst_addr := inet6 dst,
                     fr_protocol := Some next_header\<rparr>
       in parse_l4 c next_header rec))"

definition parse_l2 :: "bytes \<Rightarrow> flow_record \<Rightarrow> flow_record" where
  "parse_l2 h rec =
     (case cur_skip 12 (cursor_new h) of
        (False, c) \<Rightarrow> rec
      | (True, c) \<Rightarrow>
          (let (ethertype, c) = read_or cur_u16 0 c;
               (ethertype, c) =
                 (if ethertype = 0x8100
                  then (let c = snd (cur_skip 2 c) in read_or cur_u16 0 c)
                  else (ethertype, c))
           in if ethertype = 0x0800 then parse_ipv4 c rec
              else if ethertype = 0x86dd then parse_ipv6 c rec
              else rec))"

section \<open>Flow records of a sample\<close>

definition parse_raw_header :: "bytes \<Rightarrow> u32 \<Rightarrow> flow_record \<Rightarrow> flow_record" where
  "parse_raw_header b rate rec =
     (let (protocol, c) = try_read cur_u32 (cursor_new b);
          (frame_length, c) = read_or cur_u32 0 c;
          (stripped, c) = try_read cur_u32 c;
          (header_size, c) = read_or cur_u32 0 c;
          (header, c) = read_or (cur_take (unat header_size)) [] c;
          rec = scale_counts (ucast frame_length) rate rec
      in parse_l2 header rec)"

definition parse_sampled_ipv4 :: "bytes \<Rightarrow> u32 \<Rightarrow> flow_record \<Rightarrow> flow_record" where
  "parse_sampled_ipv4 b rate rec =
     (let (len, c) = read_or cur_u32 0 (cursor_new b);
          (protocol, c) = read_or cur_u32 0 c;
          (src, c) = read_or (cur_take 4) [] c;
          (dst, c) = read_or (cur_take 4) [] c;
          (src_port, c) = read_or cur_u32 0 c;
          (dst_port, c) = read_or cur_u32 0 c;
          (tcp_flags, c) = read_or cur_u32 0 c;
          (tos, c) = read_or cur_u32 0 c;
          rec = rec\<lparr>fr_src_addr := inet4 src, fr_dst_addr := inet4 dst,
                    fr_protocol := Some (ucast protocol), fr_src_port := Some (ucast src_port),
                    fr_dst_port := Some (ucast dst_port), fr_tcp_flags := Some (ucast tcp_flags),
                    fr_tos := Some (ucast tos)\<rparr>
      in scale_counts (ucast len) rate rec)"

definition parse_sampled_ipv6 :: "bytes \<Rightarrow> u32 \<Rightarrow> flow_record \<Rightarrow> flow_record" where
  "parse_sampled_ipv6 b rate rec =
     (let (len, c) = read_or cur_u32 0 (cursor_new b);
          (protocol, c) = read_or cur_u32 0 c;
          (src, c) = read_or (cur_take 16) [] c;
          (dst, c) = read_or (cur_take 16) [] c;
          (src_port, c) = read_or cur_u32 0 c;
          (dst_port, c) = read_or cur_u32 0 c;
          (tcp_flags, c) = read_or cur_u32 0 c;
          (priority, c) = try_read cur_u32 c;
          rec = rec\<lparr>fr_src_addr := inet6 src, fr_dst_addr := inet6 dst,
                    fr_protocol := Some (ucast protocol), fr_src_port := Some (ucast src_port),
                    fr_dst_port := Some (ucast dst_port), fr_tcp_flags := Some (ucast tcp_flags)\<rparr>
      in scale_counts (ucast len) rate rec)"

fun flow_records_loop :: "nat \<Rightarrow> cursor \<Rightarrow> u32 \<Rightarrow> flow_record \<Rightarrow> flow_record" where
  "flow_records_loop 0 c rate base = base"
| "flow_records_loop (Suc n) c rate base =
     (let (rec_type, c) = try_read cur_u32 c; (rec_len, c) = try_read cur_u32 c in
      case (rec_type, rec_len) of
        (Some rec_type, Some rec_len) \<Rightarrow>
          (case cur_take (unat rec_len) c of
             None \<Rightarrow> base
           | Some (rbody, c) \<Rightarrow>
               let fmt = rec_type AND 0x0fff;
                   base = (if fmt = 1 then parse_raw_header rbody rate base
                           else if fmt = 3 then parse_sampled_ipv4 rbody rate base
                           else if fmt = 4 then parse_sampled_ipv6 rbody rate base
                           else base)
               in flow_records_loop n c rate base)
      | _ \<Rightarrow> base)"

definition decode_flow_sample ::
  "bytes \<Rightarrow> string \<Rightarrow> u32 \<Rightarrow> u64 \<Rightarrow> bool \<Rightarrow> flow_record list" where
  "decode_flow_sample body exporter obs_domain sequence expanded =
     (let (seq, c) = try_read cur_u32 (cursor_new body);
          c = (if expanded
               then (let (source_type, c) = try_read cur_u32 c; (source_index, c) = try_read cur_u32 c
                     in c)
               else snd (try_read cur_u32 c));
          (rate, c) = read_or cur_u32 1 c;
          sampling_rate = max rate 1;
          (sample_pool, c) = try_read cur_u32 c;
          (drops, c) = try_read cur_u32 c;
          (input, output, c) =
            (if expanded
             then (let (input_format, c) = try_read cur_u32 c;
                       (i, c) = try_read cur_u32 c;
                       (output_format, c) = try_read cur_u32 c;
                       (out, c) = try_read cur_u32 c
                   in (i, out, c))
             else (let (i, c) = try_read cur_u32 c; (out, c) = try_read cur_u32 c in (i, out, c)));
          (n, c) = read_or cur_u32 0 c;
          num_records = min n 4096;
          base = default_record\<lparr>fr_exporter := exporter, fr_flow_version := ''sflow5'',
            fr_obs_domain := obs_domain, fr_sequence := Some sequence,
            fr_sampling_rate := Some sampling_rate, fr_input_snmp := input,
            fr_output_snmp := output\<rparr>
      in [flow_records_loop (unat num_records) c sampling_rate base])"

section \<open>Counter samples\<close>

fun counter_records_loop :: "nat \<Rightarrow> cursor \<Rightarrow> flow_record \<Rightarrow> flow_record" where
  "counter_records_loop 0 c rec = rec"
| "counter_records_loop (Suc n) c rec =
     (let (rec_type, c) = try_read cur_u32 c; (rec_len, c) = try_read cur_u32 c in
      case (rec_type, rec_len) of
        (Some rec_type, Some rec_len) \<Rightarrow>
          (case cur_take (unat rec_len) c of
             None \<Rightarrow> rec
           | Some (rbody, c) \<Rightarrow>
               counter_records_loop n c
                 (put_raw (''sflow.counter_format_'' @ dec_of_word (rec_type AND 0x0fff)) rbody rec))
      | _ \<Rightarrow> rec)"

definition decode_counter_sample ::
  "bytes \<Rightarrow> string \<Rightarrow> u32 \<Rightarrow> u64 \<Rightarrow> bool \<Rightarrow> flow_record" where
  "decode_counter_sample body exporter obs_domain sequence expanded =
     (let (seq, c) = try_read cur_u32 (cursor_new body);
          c = (if expanded
               then (let (source_type, c) = try_read cur_u32 c; (source_index, c) = try_read cur_u32 c
                     in c)
               else snd (try_read cur_u32 c));
          (n, c) = read_or cur_u32 0 c;
          num_records = min n 4096;
          rec = default_record\<lparr>fr_exporter := exporter, fr_flow_version := ''sflow5'',
            fr_obs_domain := obs_domain, fr_sequence := Some sequence, fr_diagnostics := None\<rparr>;
          rec = note_diag ''counter-sample'' rec
      in counter_records_loop (unat num_records) c rec)"

section \<open>Datagrams\<close>

fun samples_loop ::
  "nat \<Rightarrow> cursor \<Rightarrow> string \<Rightarrow> u32 \<Rightarrow> u32 \<Rightarrow> bool \<Rightarrow> flow_record list" where
  "samples_loop 0 c exporter_id sub_agent_id sequence flows_only = []"
| "samples_loop (Suc n) c exporter_id sub_agent_id sequence flows_only =
     (let (sample_type, c) = try_read cur_u32 c; (sample_len, c) = try_read cur_u32 c in
      case (sample_type, sample_len) of
        (Some sample_type, Some sample_len) \<Rightarrow>
          (case cur_take (unat sample_len) c of
             None \<Rightarrow> [diagnostic exporter_id ''sflow5'' sub_agent_id None
                       (Some (ucast sequence)) ''truncated'']
           | Some (body, c) \<Rightarrow>
               let fmt = sample_type AND 0x0fff;
                   rows =
                     (if fmt = 1 \<or> fmt = 3
                      then decode_flow_sample body exporter_id sub_agent_id (ucast sequence) (fmt = 3)
                      else if (fmt = 2 \<or> fmt = 4) \<and> \<not> flows_only
                      then [decode_counter_sample body exporter_id sub_agent_id (ucast sequence)
                              (fmt = 4)]
                      else [])
               in rows @ samples_loop n c exporter_id sub_agent_id sequence flows_only)
      | _ \<Rightarrow> [])"

definition sflow_bad :: "string \<Rightarrow> flow_record list" where
  "sflow_bad exporter =
     [diagnostic exporter ''sflow5'' 0 None None ''decode-error:bad-sflow-header'']"

definition sflow_decode :: "bytes \<Rightarrow> string \<Rightarrow> bool \<Rightarrow> flow_record list" where
  "sflow_decode data exporter flows_only =
     (case cur_u32 (cursor_new data) of None \<Rightarrow> sflow_bad exporter | Some (version, c) \<Rightarrow>
      if version \<noteq> 5 then sflow_bad exporter else
      case cur_u32 c of None \<Rightarrow> sflow_bad exporter | Some (addr_type, c) \<Rightarrow>
      if addr_type \<noteq> 1 \<and> addr_type \<noteq> 2 then sflow_bad exporter else
      let (agent, c) =
            (if addr_type = 1
             then (let (a, c) = try_read (cur_take 4) c in (Option.bind a norm_ipv4, c))
             else (let (a, c) = try_read (cur_take 16) c in (Option.bind a norm_ipv6, c)));
          (sub_agent_id, c) = try_read cur_u32 c;
          (sequence, c) = try_read cur_u32 c;
          (uptime, c) = try_read cur_u32 c;
          (num_samples, c) = try_read cur_u32 c
      in case (sub_agent_id, sequence, uptime, num_samples) of
           (Some sub_agent_id, Some sequence, Some uptime, Some num_samples) \<Rightarrow>
             let exporter_id = (if exporter = [] then unwrap_or agent [] else exporter)
             in samples_loop (unat (min num_samples 65536)) c exporter_id sub_agent_id sequence
                  flows_only
         | _ \<Rightarrow> sflow_bad exporter)"

section \<open>Scaling\<close>

text \<open>
  Scaling is exact and reversible: for every frame length and rate on the wire the
  64-bit product neither wraps nor saturates, and the unscaled length and the rate are kept
  as raw fields from which both can be read back.
\<close>

theorem sflow_scaling_exact:
  "\<exists>b. fr_bytes (scale_counts (ucast (len :: u32)) rate rec) = Some b \<and>
       unat b = unat len * unat rate \<and>
       fr_packets (scale_counts (ucast len) rate rec) = Some (ucast rate) \<and>
       fr_raw_fields (scale_counts (ucast len) rate rec) = fr_raw_fields rec @
         [(''sflow.frame_length'', to_be_bytes 4 len), (''sflow.sampling_rate'', to_be_bytes 4 rate)]"
proof -
  have "unat len < 2 ^ 32" "unat rate < 2 ^ 32"
    using unsigned_less [where w = len and 'a = nat] unsigned_less [where w = rate and 'a = nat] by simp_all
  then have "unat len * unat rate < 2 ^ 32 * 2 ^ 32" by (intro mult_strict_mono) simp_all
  then have l: "unat len * unat rate < 2 ^ 64" by simp
  obtain p where p: "p = unat len * unat rate" by simp
  have u: "unat (ucast len * ucast rate :: u64) = p"
    using l by (simp add: unat_word_ariths unat_ucast_u32 p)
  have "saturating_mul (ucast len :: u64) (ucast rate) = ucast len * ucast rate"
    using l by (simp add: saturating_mul_def unat_ucast_u32)
  with u show ?thesis
    by (simp add: scale_counts_def Let_def put_raw_def ucast_u64_u32 p)
qed

section \<open>Rows of a sample\<close>

lemma scale_counts_diag [simp]: "fr_diagnostics (scale_counts n r rec) = fr_diagnostics rec"
  by (simp add: scale_counts_def Let_def)

lemma parse_l4_diag [simp]: "fr_diagnostics (parse_l4 c p rec) = fr_diagnostics rec"
  by (simp add: parse_l4_def Let_def split: prod.splits)

lemma parse_ipv4_diag [simp]: "fr_diagnostics (parse_ipv4 c rec) = fr_diagnostics rec"
  by (simp add: parse_ipv4_def Let_def split: prod.splits option.splits)

lemma parse_ipv6_diag [simp]: "fr_diagnostics (parse_ipv6 c rec) = fr_diagnostics rec"
  by (simp add: parse_ipv6_def Let_def split: prod.splits option.splits)

lemma parse_l2_diag [simp]: "fr_diagnostics (parse_l2 h rec) = fr_diagnostics rec"
  by (simp add: parse_l2_def Let_def split: prod.splits bool.splits)

lemma parse_raw_header_diag [simp]: "fr_diagnostics (parse_raw_header b r rec) = fr_diagnostics rec"
  by (simp add: parse_raw_header_def Let_def split: prod.splits)

lemma parse_sampled_ipv4_diag [simp]: "fr_diagnostics (parse_sampled_ipv4 b r rec) = fr_diagnostics rec"
  by (simp add: parse_sampled_ipv4_def Let_def split: prod.splits)

lemma parse_sampled_ipv6_diag [simp]: "fr_diagnostics (parse_sampled_ipv6 b r rec) = fr_diagnostics rec"
  by (simp add: parse_sampled_ipv6_def Let_def split: prod.splits)

lemma flow_records_loop_diag [simp]:
  "fr_diagnostics (flow_records_loop n c r rec) = fr_diagnostics rec"
  by (induction n arbitrary: c rec) (simp_all add: Let_def split: prod.splits option.splits)

lemma decode_flow_sample_diag:
  "\<exists>row. decode_flow_sample b ex d s x = [row] \<and> fr_diagnostics row = None"
  by (simp add: decode_flow_sample_def Let_def default_record_def split: prod.splits)

lemma counter_records_loop_diag [simp]:
  "fr_diagnostics (counter_records_loop n c rec) = fr_diagnostics rec"
  by (induction n arbitrary: c rec) (simp_all add: Let_def split: prod.splits option.splits)

lemma decode_counter_sample_diag:
  "fr_diagnostics (decode_counter_sample b ex d s x) = Some ''counter-sample''"
  by (simp add: decode_counter_sample_def Let_def note_diag_def split: prod.splits)

definition counter_row :: "flow_record \<Rightarrow> bool" where
  "counter_row r \<longleftrightarrow> fr_diagnostics r = Some ''counter-sample''"

text \<open>The rows of one framed sample.\<close>

definition sample_rows ::
  "string \<Rightarrow> u32 \<Rightarrow> u32 \<Rightarrow> bool \<Rightarrow> u32 \<times> bytes \<Rightarrow> flow_record list" where
  "sample_rows ex sub sequence flows_only s =
     (let fmt = fst s AND 0x0fff in
      if fmt = 1 \<or> fmt = 3 then decode_flow_sample (snd s) ex sub (ucast sequence) (fmt = 3)
      else if (fmt = 2 \<or> fmt = 4) \<and> \<not> flows_only
      then [decode_counter_sample (snd s) ex sub (ucast sequence) (fmt = 4)] else [])"

lemma decode_flow_sample_rows [simp]:
  "length (decode_flow_sample b ex d s x) = 1"
  "filter (\<lambda>r. \<not> counter_row r) (decode_flow_sample b ex d s x) = decode_flow_sample b ex d s x"
  using decode_flow_sample_diag [of b ex d s x] by (auto simp: counter_row_def)

lemma sample_rows_flows_only:
  "sample_rows ex sub sequence True s = filter (\<lambda>r. \<not> counter_row r) (sample_rows ex sub sequence False s)"
  by (simp add: sample_rows_def Let_def decode_counter_sample_diag)
    (simp add: counter_row_def decode_counter_sample_diag)

lemma length_sample_rows: "length (sample_rows ex sub sequence fo s) \<le> 1"
  by (simp add: sample_rows_def Let_def)

lemma samples_loop_Suc:
  "samples_loop (Suc n) c ex sub sequence fo =
     (if cur_remaining c < 8 then []
      else
        let ty = from_be (take 4 (cur_rest c)); len = unat (from_be (take 4 (drop 4 (cur_rest c))) :: u32) in
        if cur_remaining c - 8 < len
        then [diagnostic ex ''sflow5'' sub None (Some (ucast sequence)) ''truncated'']
        else sample_rows ex sub sequence fo (ty, take len (drop 8 (cur_rest c))) @
             samples_loop n (cur_advance (8 + len) c) ex sub sequence fo)"
  by (auto simp: reader_simps sample_rows_def Let_def not_less)

lemma samples_loop_flows_only:
  "samples_loop n c ex sub sequence True =
     filter (\<lambda>r. \<not> counter_row r) (samples_loop n c ex sub sequence False)"
proof (induction n arbitrary: c)
  case (Suc n)
  then show ?case
    unfolding samples_loop_Suc
    by (simp add: Let_def sample_rows_flows_only counter_row_def del: samples_loop.simps)
qed simp

lemma length_samples_loop:
  "length (samples_loop n c ex sub sequence fo) \<le> n \<and>
   length (samples_loop n c ex sub sequence fo) \<le> cur_remaining c div 8"
proof (induction n arbitrary: c)
  case (Suc n)
  obtain len where len: "len = unat (from_be (take 4 (drop 4 (cur_rest c))) :: u32)" by simp
  have "(cur_remaining c - (8 + len)) div 8 + 1 \<le> cur_remaining c div 8" if "8 \<le> cur_remaining c"
    using that by (simp add: le_div_geq div_le_mono)
  with Suc [of "cur_advance (8 + len) c"] show ?case
    using length_sample_rows [of ex sub sequence fo
        "(from_be (take 4 (cur_rest c)), take len (drop 8 (cur_rest c)))"]
    unfolding samples_loop_Suc len [symmetric] Let_def
    by (auto simp: le_div_geq simp del: samples_loop.simps)
qed simp

section \<open>Whole datagrams\<close>

definition u32_at :: "bytes \<Rightarrow> nat \<Rightarrow> u32" where
  "u32_at data off = from_be (take 4 (drop off data))"

text \<open>The agent address of a datagram with a whole header, and where that address ends.\<close>

definition sflow_agent :: "bytes \<Rightarrow> (string option \<times> nat) option" where
  "sflow_agent data =
     (if length data < 28 \<or> u32_at data 0 \<noteq> 5 then None
      else if u32_at data 4 = 1 then Some (norm_ipv4 (take 4 (drop 8 data)), 12)
      else if u32_at data 4 = 2 \<and> 40 \<le> length data then Some (norm_ipv6 (take 16 (drop 8 data)), 24)
      else None)"

lemma sflow_decode_eq:
  "sflow_decode data ex fo =
     (case sflow_agent data of
        None \<Rightarrow> sflow_bad ex
      | Some (agent, off) \<Rightarrow>
          samples_loop (unat (min (u32_at data (off + 12)) 65536))
            (cur_advance (off + 16) (cursor_new data)) (if ex = [] then unwrap_or agent [] else ex)
            (u32_at data off) (u32_at data (off + 4)) fo)"
proof -
  obtain v t where v: "v = u32_at data 0" and t: "t = u32_at data 4" by simp
  note [simp] = sflow_decode_def sflow_agent_def reader_simps v [symmetric] t [symmetric]
    v [unfolded u32_at_def, simplified, symmetric] t [unfolded u32_at_def, symmetric] Let_def try_read_def
  consider "length data < 8" | "8 \<le> length data" "v \<noteq> 5" | "8 \<le> length data" "t = 1" "length data < 28"
    | "28 \<le> length data" "t = 1" "v = 5" | "8 \<le> length data" "t = 2" "length data < 40"
    | "40 \<le> length data" "t = 2" "v = 5" | "8 \<le> length data" "t \<noteq> 1" "t \<noteq> 2" by linarith
  then show ?thesis by cases (auto simp: u32_at_def)
qed

lemma unat_min_cap: "unat (min m 65536 :: u32) = min (unat m) 65536"
  by (simp add: min_def word_le_nat_alt)

text \<open>
  The flows-only mode is a filter: it returns exactly the rows of the full decode that
  are not counter-sample rows, in the same order, on every input, malformed input included.
\<close>

theorem sflow_flows_only:
  "sflow_decode data ex True =
     filter (\<lambda>r. fr_diagnostics r \<noteq> Some ''counter-sample'') (sflow_decode data ex False)"
  using samples_loop_flows_only
  by (simp add: sflow_decode_eq sflow_bad_def counter_row_def split: option.splits prod.splits)

lemma length_sflow_decode:
  "length (sflow_decode data ex fo) \<le> 65536 \<and>
   length (sflow_decode data ex fo) \<le> 1 + length data div 8"
proof (cases "sflow_agent data")
  case None
  then show ?thesis by (simp add: sflow_decode_eq sflow_bad_def)
next
  case (Some p)
  obtain agent off where p: "p = (agent, off)" by (cases p)
  let ?c = "cur_advance (off + 16) (cursor_new data)" and ?n = "min (unat (u32_at data (off + 12))) 65536"
  have "cur_remaining ?c div 8 \<le> length data div 8" by (intro div_le_mono) simp
  with length_samples_loop [of ?n ?c "if ex = [] then unwrap_or agent [] else ex" "u32_at data off"
      "u32_at data (off + 4)" fo] Some p
  show ?thesis by (simp add: sflow_decode_eq unat_min_cap)
qed

text \<open>
  C28. Decoding is bounded by the input, not by what the input claims: at most 65536 rows,
  and at most one row per eight bytes of the datagram beyond the first row, whatever sample
  and record counts and lengths it announces.
\<close>

theorem sflow_bounded:
  "length (sflow_decode data ex fo) \<le> 65536 \<and>
   length (sflow_decode data ex fo) \<le> 1 + length data div 8"
  by (rule length_sflow_decode)

section \<open>Framing round trip\<close>

definition put_sample :: "u32 \<times> bytes \<Rightarrow> bytes" where
  "put_sample s = to_be_bytes 4 (fst s) @ to_be_bytes 4 (of_nat (length (snd s)) :: u32) @ snd s"

definition sflow_header :: "bytes \<Rightarrow> u32 \<Rightarrow> u32 \<Rightarrow> u32 \<Rightarrow> u32 \<Rightarrow> bytes" where
  "sflow_header agent sub sequence uptime count =
     to_be_bytes 4 (5 :: u32) @ to_be_bytes 4 (if length agent = 4 then 1 else 2 :: u32) @ agent @
     to_be_bytes 4 sub @ to_be_bytes 4 sequence @ to_be_bytes 4 uptime @ to_be_bytes 4 count"

lemma samples_loop_put:
  "list_all (\<lambda>s. length (snd s) < 2 ^ 32) ss \<Longrightarrow> cur_rest c = concat (map put_sample ss) @ bs \<Longrightarrow>
     samples_loop (length ss) c ex sub sequence fo = concat (map (sample_rows ex sub sequence fo) ss)"
proof (induction ss arbitrary: c)
  case (Cons s ss)
  let ?n = "length (snd s)" and ?bs = "concat (map put_sample ss) @ bs"
  have c: "cur_rest c = to_be_bytes 4 (fst s) @ to_be_bytes 4 (of_nat ?n :: u32) @ snd s @ ?bs"
    using Cons.prems by (simp add: put_sample_def [of s])
  have u: "unat (of_nat ?n :: u32) = ?n" using Cons.prems by (simp add: unat_of_nat)
  have rem: "cur_remaining c = 8 + ?n + length ?bs"
    using arg_cong [OF c, where f = length] by simp
  have "cur_rest (cur_advance (8 + ?n) c) = ?bs" using c by simp
  with Cons.IH [of "cur_advance (8 + ?n) c"] Cons.prems
  have IH: "samples_loop (length ss) (cur_advance (8 + ?n) c) ex sub sequence fo =
      concat (map (sample_rows ex sub sequence fo) ss)" by simp
  have parts: "(from_be (take 4 (cur_rest c)) :: u32) = fst s"
    "(from_be (take 4 (drop 4 (cur_rest c))) :: u32) = of_nat ?n"
    "take ?n (drop 8 (cur_rest c)) = snd s"
    using c by (simp_all add: from_be_to_be)
  show ?case
    using rem IH by (simp add: samples_loop_Suc Let_def parts u del: samples_loop.simps)
qed simp

text \<open>
  C29. Framing round trip: a datagram that announces the samples it carries is decoded
  sample by sample, each flow sample to its one row and each counter sample to one row, in
  order, nothing lost at a boundary; the exporter of the rows is the caller's, or the
  agent address of the datagram when the caller names none.
\<close>

theorem sflow_framing_roundtrip:
  assumes "length agent = 4 \<or> length agent = 16" and "length ss \<le> 65536"
    and "list_all (\<lambda>s. length (snd s) < 2 ^ 32) ss"
  shows "sflow_decode
      (sflow_header agent sub sequence uptime (of_nat (length ss)) @ concat (map put_sample ss) @ bs)
      ex fo =
    concat (map (sample_rows
      (if ex = [] then the (if length agent = 4 then norm_ipv4 agent else norm_ipv6 agent) else ex)
      sub sequence fo) ss)"
proof -
  obtain n where n: "n = length ss" by simp
  obtain tail where tail: "tail = concat (map put_sample ss) @ bs" by simp
  let ?d = "sflow_header agent sub sequence uptime (of_nat n) @ tail"
    and ?off = "if length agent = 4 then 12 else 24 :: nat"
  have len: "length ?d = ?off + 16 + length tail"
    using assms(1) by (auto simp: sflow_header_def)
  have at: "u32_at ?d 0 = 5" "u32_at ?d 4 = (if length agent = 4 then 1 else 2)"
    "u32_at ?d ?off = sub" "u32_at ?d (?off + 4) = sequence" "u32_at ?d (?off + 12) = of_nat n"
    "drop (?off + 16) ?d = tail"
    using assms(1) by (auto simp: u32_at_def sflow_header_def from_be_to_be)
  have "take (length agent) (drop 8 ?d) = agent" by (simp add: sflow_header_def)
  then have agent: "sflow_agent ?d =
      Some (if length agent = 4 then norm_ipv4 agent else norm_ipv6 agent, ?off)"
    using assms(1) len at by (auto simp: sflow_agent_def)
  have "unat (of_nat n :: u32) = n" using assms(2) n by (simp add: unat_of_nat)
  then have cap: "unat (min (of_nat n) 65536 :: u32) = length ss"
    using assms(2) n by (simp add: unat_min_cap)
  have "cur_rest (cur_advance (?off + 16) (cursor_new ?d)) = concat (map put_sample ss) @ bs"
    using at(6) tail by simp
  note loop = samples_loop_put [OF assms(3) this]
  have "norm_ipv4 agent \<noteq> None \<or> length agent \<noteq> 4" "norm_ipv6 agent \<noteq> None \<or> length agent \<noteq> 16"
    by (simp_all add: norm_ipv4_def norm_ipv6_def)
  then have "unwrap_or (if length agent = 4 then norm_ipv4 agent else norm_ipv6 agent) [] =
      the (if length agent = 4 then norm_ipv4 agent else norm_ipv6 agent)"
    using assms(1) by auto
  then show ?thesis
    unfolding n [symmetric] tail [symmetric]
    unfolding sflow_decode_eq agent option.case prod.case at(3-5) cap loop by simp
qed


definition sflow_sample_list :: "(u32 \<times> bytes) list" where
  "sflow_sample_list = [(1, replicate 32 0), (2, replicate 12 0)]"

theorem sflow_framing_roundtrip_witness:
  "sflow_decode (sflow_header [10, 0, 0, 9] 0 7 1000 2 @ concat (map put_sample sflow_sample_list))
      ''s'' False =
   concat (map (sample_rows ''s'' 0 7 False) sflow_sample_list)"
  using sflow_framing_roundtrip [of "[10, 0, 0, 9]" sflow_sample_list 0 7 1000 "[]" "''s''" False]
  by (simp add: sflow_sample_list_def)

section \<open>Sampled packets\<close>

definition ethernet_header :: "bytes \<Rightarrow> u16 option \<Rightarrow> bytes" where
  "ethernet_header macs vlan =
     macs @ (case vlan of None \<Rightarrow> [] | Some tag \<Rightarrow> to_be_bytes 2 (0x8100 :: u16) @ to_be_bytes 2 tag) @
     to_be_bytes 2 (0x0800 :: u16)"

definition ipv4_header :: "u8 \<Rightarrow> u8 \<Rightarrow> bytes \<Rightarrow> u8 \<Rightarrow> u8 \<Rightarrow> bytes \<Rightarrow> bytes \<Rightarrow> bytes \<Rightarrow> bytes \<Rightarrow> bytes" where
  "ipv4_header vihl tos six ttl proto checksum src dst options =
     to_be_bytes 1 vihl @ to_be_bytes 1 tos @ six @ to_be_bytes 1 ttl @ to_be_bytes 1 proto @ checksum @
     src @ dst @ options"

definition tcp_header :: "u16 \<Rightarrow> u16 \<Rightarrow> bytes \<Rightarrow> u8 \<Rightarrow> u8 \<Rightarrow> bytes" where
  "tcp_header sp dp eight offs flags =
     to_be_bytes 2 sp @ to_be_bytes 2 dp @ eight @ to_be_bytes 1 offs @ to_be_bytes 1 flags"

lemma parse_l4_tcp:
  "length eight = 8 \<Longrightarrow> cur_rest c = tcp_header sp dp eight offs flags @ bs \<Longrightarrow>
     parse_l4 c 6 rec = rec\<lparr>fr_src_port := Some sp, fr_dst_port := Some dp, fr_tcp_flags := Some flags\<rparr>"
  using cur_rest_remaining [of c, OF refl]
  by (simp add: parse_l4_def tcp_header_def reader_simps from_be_to_be Let_def)

lemma parse_l4_udp:
  "cur_rest c = to_be_bytes 2 sp @ to_be_bytes 2 dp @ bs \<Longrightarrow>
     parse_l4 c 17 rec = rec\<lparr>fr_src_port := Some sp, fr_dst_port := Some dp\<rparr>"
  using cur_rest_remaining [of c, OF refl]
  by (simp add: parse_l4_def reader_simps from_be_to_be Let_def)

lemma parse_ipv4_header:
  assumes "length six = 6" "length checksum = 2" "length src = 4" "length dst = 4"
    and "unat (vihl AND 0x0f) * 4 = 20 + length options"
    and "cur_rest c = ipv4_header vihl tos six ttl proto checksum src dst options @ bs"
  shows "parse_ipv4 c rec = parse_l4 (cur_advance (20 + length options) c) proto
    (rec\<lparr>fr_src_addr := inet4 src, fr_dst_addr := inet4 dst, fr_protocol := Some proto,
         fr_tos := Some tos\<rparr>)"
proof -
  have "cur_remaining c = 20 + length options + length bs"
    using cur_rest_remaining [OF assms(6)] assms(1-4) by (simp add: ipv4_header_def)
  then show ?thesis
    using assms by (simp add: parse_ipv4_def ipv4_header_def reader_simps read_or_def from_be_to_be Let_def)
qed

text \<open>
  C30. Sampled packets: from an Ethernet frame with or without a VLAN tag and an IPv4 header
  with options of any length, the 5-tuple, the ToS byte and, for TCP, the flags that come
  out are the ones of the packet: the parser lands on the transport header exactly.
\<close>

theorem sampled_packet:
  assumes "length macs = 12" and "length six = 6" "length checksum = 2" "length src = 4" "length dst = 4"
    and "unat (vihl AND 0x0f) * 4 = 20 + length options" and "length eight = 8"
  shows "parse_l2 (ethernet_header macs vlan @ ipv4_header vihl tos six ttl 6 checksum src dst options @
            tcp_header sp dp eight offs flags @ bs) rec =
          rec\<lparr>fr_src_addr := inet4 src, fr_dst_addr := inet4 dst, fr_protocol := Some 6,
              fr_tos := Some tos, fr_src_port := Some sp, fr_dst_port := Some dp,
              fr_tcp_flags := Some flags\<rparr> \<and>
         parse_l2 (ethernet_header macs vlan @ ipv4_header vihl tos six ttl 17 checksum src dst options @
            to_be_bytes 2 sp @ to_be_bytes 2 dp @ bs) rec =
          rec\<lparr>fr_src_addr := inet4 src, fr_dst_addr := inet4 dst, fr_protocol := Some 17,
              fr_tos := Some tos, fr_src_port := Some sp, fr_dst_port := Some dp\<rparr>"
proof -
  let ?eth = "ethernet_header macs vlan"
  have l2: "parse_l2 (?eth @ pkt) rec = parse_ipv4 (cur_advance (length ?eth) (cursor_new (?eth @ pkt))) rec"
    for pkt
    using assms(1)
    by (cases vlan) (simp_all add: parse_l2_def ethernet_header_def reader_simps from_be_to_be Let_def)
  have at: "cur_rest (cur_advance (length ?eth) (cursor_new (?eth @ pkt))) = pkt" for pkt by simp
  note ip = parse_ipv4_header [OF assms(2-6) at]
  have len: "length (ipv4_header vihl tos six ttl p checksum src dst options) = 20 + length options" for p
    using assms by (simp add: ipv4_header_def)
  have l4: "cur_rest (cur_advance (20 + length options) (cur_advance (length ?eth)
      (cursor_new (?eth @ ipv4_header vihl tos six ttl p checksum src dst options @ seg)))) = seg" for p seg
    by (simp add: len)
  show ?thesis
    unfolding l2 ip
    using parse_l4_tcp [OF assms(7) l4] parse_l4_udp [OF l4] by simp
qed

theorem sampled_packet_witness:
  "fr_dst_port (parse_l2 (ethernet_header (replicate 12 0) (Some 5) @
      ipv4_header 0x46 0 (replicate 6 0) 64 17 [0, 0] [10, 0, 0, 1] [10, 0, 0, 2] [1, 1, 1, 1] @
      to_be_bytes 2 (53 :: u16) @ to_be_bytes 2 (5353 :: u16)) default_record) = Some 5353"
  using sampled_packet [of "replicate 12 0" "replicate 6 0" "[0, 0]" "[10, 0, 0, 1]" "[10, 0, 0, 2]"
      "0x46" "[1, 1, 1, 1]" "replicate 8 0" "Some 5" 0 64 53 5353 0 0 "[]" default_record]
  by simp

end
