(* ===== verification/Decode.thy ===== *)
theory Decode
  imports V5 Ipfix Sflow
begin

text \<open>
  \<open>decode/mod.rs\<close>: dispatch on the probed version, the retry of buffered Data Sets, and
  the flush at the end of a scan, all threading the template cache.
\<close>

section \<open>Options\<close>

datatype mode = Auto | FlowsOnly | AllRows

definition mode_parse :: "string \<Rightarrow> mode" where
  "mode_parse s = (if s = ''flows-only'' then FlowsOnly else if s = ''all'' then AllRows else Auto)"

fun mode_flows_only :: "mode \<Rightarrow> bool" where
  "mode_flows_only FlowsOnly = True"
| "mode_flows_only Auto = False"
| "mode_flows_only AllRows = False"

datatype restrict = AnyFormat | NetflowOnly | IpfixOnly | SflowOnly

record decode_options =
  do_exporter :: string
  do_obs_domain_override :: "u32 option"
  do_mode :: mode
  do_now_micros :: i64

definition default_options :: decode_options where
  "default_options = \<lparr>do_exporter = [], do_obs_domain_override = None, do_mode = Auto,
     do_now_micros = 0\<rparr>"

section \<open>Retry and flush\<close>

definition retry_ctx :: "template_key \<Rightarrow> pending_record \<Rightarrow> ctx" where
  "retry_ctx key rec =
     \<lparr>cx_exporter = tk_exporter key, cx_obs_domain = tk_obs_domain key,
      cx_version = (if pr_version rec = ''10'' then ''10'' else ''9''),
      cx_export_time = pr_export_time rec, cx_sequence = pr_sequence rec,
      cx_sys_uptime_ms = pr_sys_uptime_ms rec, cx_template_id = tk_template_id key\<rparr>"

fun retry_loop ::
  "template_key list \<Rightarrow> i64 \<Rightarrow> bool \<Rightarrow> template_cache \<Rightarrow> flow_record list \<times> template_cache" where
  "retry_loop [] now flows_only cache = ([], cache)"
| "retry_loop (key # keys) now flows_only cache =
     (if cache_peek cache key = None then retry_loop keys now flows_only cache
      else case use_template key now cache of
             (None, cache) \<Rightarrow> retry_loop keys now flows_only cache
           | (Some tpl, cache) \<Rightarrow>
               let (recs, cache) = take_pending key cache;
                   rows = concat (map (\<lambda>rec. decode_data_set tpl (pr_bytes rec) (retry_ctx key rec)
                                              flows_only) recs);
                   (rest, cache) = retry_loop keys now flows_only cache
               in (rows @ rest, cache))"

definition retry_pending ::
  "template_cache \<Rightarrow> i64 \<Rightarrow> bool \<Rightarrow> flow_record list \<times> template_cache" where
  "retry_pending cache now flows_only = retry_loop (pending_keys cache) now flows_only cache"

definition flush_rows :: "template_key \<times> pending_record list \<Rightarrow> flow_record list" where
  "flush_rows kr =
     (let (key, recs) = kr;
          version = (if recs \<noteq> [] \<and> pr_version (hd recs) = ''10'' then ''10'' else ''9'')
      in map (\<lambda>rec. diagnostic (tk_exporter key) version (tk_obs_domain key) (pr_export_time rec)
                     (pr_sequence rec)
                     (''missing-template:'' @ dec_of_word (tk_obs_domain key) @ ''/'' @
                      dec_of_word (tk_template_id key))) recs)"

definition flush_pending :: "template_cache \<Rightarrow> flow_record list \<times> template_cache" where
  "flush_pending cache =
     (let (drained, cache) = drain_pending cache in (concat (map flush_rows drained), cache))"

section \<open>Dispatch\<close>

definition decode_datagram ::
  "bytes \<Rightarrow> decode_options \<Rightarrow> template_cache \<Rightarrow> restrict \<Rightarrow> flow_record list \<times> template_cache" where
  "decode_datagram data opts cache restrict =
     (let version = probe_version data;
          exporter = do_exporter opts;
          flows_only = mode_flows_only (do_mode opts);
          (out, cache) =
            (case version of
               Some v \<Rightarrow>
                 if v = ''5'' \<and> restrict \<in> {AnyFormat, NetflowOnly}
                 then (v5_decode data exporter, cache)
                 else if v = ''9'' \<and> restrict \<in> {AnyFormat, NetflowOnly}
                 then v9_decode data exporter (do_obs_domain_override opts) cache
                        (do_now_micros opts) flows_only
                 else if v = ''10'' \<and> restrict \<in> {AnyFormat, IpfixOnly}
                 then ipfix_decode data exporter (do_obs_domain_override opts) cache
                        (do_now_micros opts) flows_only
                 else if v = ''sflow5'' \<and> restrict \<in> {AnyFormat, SflowOnly}
                 then (sflow_decode data exporter flows_only, cache)
                 else ([diagnostic exporter v 0 None None
                         (''decode-error:format-'' @ v @ ''-not-accepted-here'')], cache)
             | None \<Rightarrow> ([diagnostic exporter [] 0 None None ''decode-error:not-a-flow-datagram''],
                        cache))
      in if version \<in> {Some ''9'', Some ''10''} \<and> \<not> pending_is_empty cache
         then (let (rows, cache) = retry_pending cache (do_now_micros opts) flows_only
               in (out @ rows, cache))
         else (out, cache))"

section \<open>Retry\<close>

lemma pending_of_frame: "tc_pending c' = tc_pending c \<Longrightarrow> pending_of c' = pending_of c"
  by (simp add: pending_of_def fun_eq_iff)

lemma pending_of_take:
  "pending_of (snd (take_pending key c)) j = (if j = key then [] else pending_of c j)"
  by (simp add: pending_of_def bt_get_remove)

lemma peek_take [simp]: "cache_peek (snd (take_pending key c)) = cache_peek c"
  by (simp add: cache_peek_def fun_eq_iff)

lemma layout_kept_peek:
  assumes "layout_kept c c'"
  shows "cache_peek c' k = None \<longleftrightarrow> cache_peek c k = None"
    and "cache_peek c' k = Some e \<Longrightarrow> \<exists>e'. cache_peek c k = Some e' \<and> same_layout e e'"
proof -
  have r: "rel_option same_layout (cache_peek c' k) (cache_peek c k)"
    using assms by (simp add: layout_kept_def)
  then show "cache_peek c' k = None \<longleftrightarrow> cache_peek c k = None"
    by (cases rule: option.rel_cases) auto
  from r show "cache_peek c' k = Some e \<Longrightarrow> \<exists>e'. cache_peek c k = Some e' \<and> same_layout e e'"
    by (cases rule: option.rel_cases) auto
qed

text \<open>The rows of the records buffered under one key, in arrival order.\<close>

definition retried_rows :: "bool \<Rightarrow> template_cache \<Rightarrow> template_key \<Rightarrow> flow_record list" where
  "retried_rows fo c k =
     concat (map (\<lambda>rec. decode_data_set (the (cache_peek c k)) (pr_bytes rec) (retry_ctx k rec) fo)
       (pending_of c k))"

lemma retried_rows_kept:
  assumes "layout_kept c c'" and "pending_of c' k = pending_of c k" and "cache_peek c k \<noteq> None"
  shows "retried_rows fo c' k = retried_rows fo c k"
proof -
  obtain e where e: "cache_peek c' k = Some e"
    using layout_kept_peek(1) [OF assms(1)] assms(3) by (cases "cache_peek c' k") auto
  with layout_kept_peek(2) [OF assms(1)] obtain e' where "cache_peek c k = Some e'" "same_layout e e'"
    by blast
  with e assms(2) show ?thesis by (simp add: retried_rows_def decode_data_set_cong)
qed

lemma retry_step:
  assumes "cache_ok c" and "cache_peek c key = Some e" and "c' = snd (take_pending key (snd (use_template key now c)))"
  shows "cache_ok c'" and "layout_kept c c'"
    and "pending_of c' j = (if j = key then [] else pending_of c j)"
proof -
  let ?u = "snd (use_template key now c)"
  have u: "cache_ok ?u" "layout_kept c ?u"
    using pass_frame_use [OF assms(1), of key now] by (simp_all add: pass_frame_def)
  show "cache_ok c'" using u(1) by (simp add: assms(3) cache_ok_take)
  show "layout_kept c c'" using u(2) by (simp add: assms(3) layout_kept_def)
  show "pending_of c' j = (if j = key then [] else pending_of c j)"
    unfolding assms(3) pending_of_take by (simp add: pending_of_frame [of ?u c])
qed

lemma retry_loop_spec:
  assumes "cache_ok c" and "distinct keys" and "retry_loop keys now fo c = (rows, c')"
  shows "rows = concat (map (retried_rows fo c) (filter (\<lambda>k. cache_peek c k \<noteq> None) keys)) \<and>
    (\<forall>k. pending_of c' k = (if k \<in> set keys \<and> cache_peek c k \<noteq> None then [] else pending_of c k)) \<and>
    cache_ok c' \<and> layout_kept c c'"
  using assms
proof (induction keys arbitrary: c rows)
  case (Cons key keys)
  show ?case
  proof (cases "cache_peek c key")
    case None
    with Cons show ?thesis by auto
  next
    case (Some e)
    obtain c1 where c1: "c1 = snd (take_pending key (snd (use_template key now c)))" by simp
    have ok_use: "cache_ok (snd (use_template key now c))" using Cons.prems(1) by (rule cache_ok_use)
    have recs: "fst (take_pending key (snd (use_template key now c))) = pending_of c key"
      using ok_use by (simp add: take_pending_eq pending_of_frame [of "snd (use_template key now c)" c])
    obtain rest where rest: "retry_loop keys now fo c1 = (rest, c')"
      and rows: "rows = retried_rows fo c key @ rest"
      using Cons.prems(3) Some recs
      by (cases "retry_loop keys now fo c1")
        (auto simp: c1 use_template_eq retried_rows_def Let_def case_prod_beta
          decode_data_set_cong [OF same_layout_touch])
    note step = retry_step [OF Cons.prems(1) Some c1]
    have known: "cache_peek c1 k \<noteq> None \<longleftrightarrow> cache_peek c k \<noteq> None" for k
      using layout_kept_peek(1) [OF step(2)] by simp
    from Cons.IH [OF step(1) _ rest] Cons.prems(2)
    have IH: "rest = concat (map (retried_rows fo c1) (filter (\<lambda>k. cache_peek c k \<noteq> None) keys))"
      "\<And>k. pending_of c' k = (if k \<in> set keys \<and> cache_peek c k \<noteq> None then [] else pending_of c1 k)"
      "cache_ok c'" "layout_kept c1 c'" unfolding known by auto
    have "rest = concat (map (retried_rows fo c) (filter (\<lambda>k. cache_peek c k \<noteq> None) keys))"
      unfolding IH(1) using Cons.prems(2)
      by (intro arg_cong [where f = concat] map_cong refl retried_rows_kept [OF step(2)])
        (auto simp: step(3))
    with rows Some
    have "rows = concat (map (retried_rows fo c) (filter (\<lambda>k. cache_peek c k \<noteq> None) (key # keys)))"
      by simp
    moreover have "pending_of c' k =
        (if k \<in> set (key # keys) \<and> cache_peek c k \<noteq> None then [] else pending_of c k)" for k
      using Some by (simp add: IH(2) step(3))
    ultimately show ?thesis
      using IH(3) layout_kept_trans [OF step(2) IH(4)] by blast
  qed
qed simp

lemma pending_keys_in:
  assumes "cache_ok c"
  shows "distinct (pending_keys c)" and "pending_of c k \<noteq> [] \<longleftrightarrow> k \<in> set (pending_keys c)"
proof -
  have ok: "bt_ok (tc_pending c)" and ne: "\<forall>rs \<in> snd ` set (tc_pending c). rs \<noteq> []"
    using assms by (simp_all add: cache_ok_def)
  show "distinct (pending_keys c)" using bt.keys_distinct [OF ok] by (simp add: pending_keys_def)
  show "pending_of c k \<noteq> [] \<longleftrightarrow> k \<in> set (pending_keys c)"
  proof (cases "bt_get (tc_pending c) k")
    case (Some rs)
    then have "(k, rs) \<in> set (tc_pending c)" using ok by (simp add: bt_get_iff)
    with ne have "rs \<noteq> []" by force
    with Some show ?thesis by (simp add: pending_of_def pending_keys_def bt.keys_dom [OF ok])
  qed (simp add: pending_of_def pending_keys_def bt.keys_dom [OF ok])
qed

text \<open>
  C9. Retry resolves all that can be resolved, and touches nothing else: it returns, key by
  key in key order and record by record in arrival order, the rows of every buffered Data
  Set whose layout is known; those buffers are then empty, every other buffer is as it was,
  and the layouts stand.
\<close>

theorem retry_resolves:
  assumes "cache_ok c" and "retry_pending c now fo = (rows, c')"
  shows "rows = concat (map (\<lambda>k.
             concat (map (\<lambda>rec. decode_data_set (the (cache_peek c k)) (pr_bytes rec) (retry_ctx k rec) fo)
               (pending_of c k)))
           (filter (\<lambda>k. cache_peek c k \<noteq> None) (pending_keys c))) \<and>
         (\<forall>k. pending_of c' k = (if cache_peek c k \<noteq> None then [] else pending_of c k)) \<and>
         cache_ok c' \<and> layout_kept c c'"
  using retry_loop_spec [OF assms(1) pending_keys_in(1) [OF assms(1)] assms(2) [unfolded retry_pending_def]]
    pending_keys_in(2) [OF assms(1)]
  unfolding retried_rows_def by auto


text \<open>A cache that knows a layout and has data buffered for it and for another id.\<close>

definition waiting_cache :: template_cache where
  "waiting_cache = cache_new\<lparr>
     tc_entries := [(TemplateKey ''r'' 0 256, sample_entry 10)],
     tc_pending := [(TemplateKey ''r'' 0 256, [sample_pending]), (TemplateKey ''r'' 0 300, [sample_pending])],
     tc_pending_bytes := 8\<rparr>"

lemma waiting_cache_ok: "cache_ok waiting_cache"
  by (simp add: waiting_cache_def cache_ok_def cache_new_def bt_ok_def pending_total_def bt_weight_def
      records_bytes_def sample_pending_def DEFAULT_CAP_ENTRIES_def DEFAULT_CAP_PENDING_BYTES_def
      less_template_key_def key_tuple_def)

theorem retry_resolves_witness:
  "pending_of (snd (retry_pending waiting_cache 20 False)) (TemplateKey ''r'' 0 256) = [] \<and>
   pending_of (snd (retry_pending waiting_cache 20 False)) (TemplateKey ''r'' 0 300) = [sample_pending]"
  using retry_resolves [OF waiting_cache_ok, of 20 False "fst (retry_pending waiting_cache 20 False)"
      "snd (retry_pending waiting_cache 20 False)"]
  by (simp add: waiting_cache_def cache_peek_def bt_get_def pending_of_def)

section \<open>Flush\<close>

lemma length_flush_rows: "length (flush_rows kr) = length (snd kr)"
  by (simp add: flush_rows_def Let_def split: prod.splits)

definition pending_count :: "template_cache \<Rightarrow> nat" where
  "pending_count c = sum_list (map (\<lambda>k. length (pending_of c k)) (pending_keys c))"

lemma pending_of_entry:
  "cache_ok c \<Longrightarrow> (k, rs) \<in> set (tc_pending c) \<Longrightarrow> pending_of c k = rs"
proof -
  assume "cache_ok c" and "(k, rs) \<in> set (tc_pending c)"
  then have "bt_get (tc_pending c) k = Some rs" by (simp add: cache_ok_def bt_get_iff)
  then show ?thesis by (simp add: pending_of_def)
qed

definition flushed_rows :: "template_cache \<Rightarrow> template_key \<Rightarrow> flow_record list" where
  "flushed_rows c k = map (\<lambda>rec.
     diagnostic (tk_exporter k) (if pr_version (hd (pending_of c k)) = ''10'' then ''10'' else ''9'')
       (tk_obs_domain k) (pr_export_time rec) (pr_sequence rec)
       (missing_template (tk_obs_domain k) (tk_template_id k))) (pending_of c k)"

text \<open>The flush goes through the buffer key by key.\<close>

lemma flush_by_key:
  assumes "cache_ok c"
  shows "fst (flush_pending c) = concat (map (flushed_rows c) (pending_keys c))"
proof -
  have "flush_rows kr = flushed_rows c (fst kr)" if "kr \<in> set (tc_pending c)" for kr
  proof -
    obtain k rs where kr: "kr = (k, rs)" by (cases kr)
    with that have "pending_of c k = rs" using pending_of_entry [OF assms] by simp
    moreover have "rs \<noteq> []" using assms that kr by (force simp: cache_ok_def)
    ultimately show ?thesis by (simp add: kr flush_rows_def flushed_rows_def Let_def missing_template_def)
  qed
  then show ?thesis
    by (auto simp: flush_pending_def drain_pending_def pending_keys_def bt_keys_def o_def cong: map_cong)
qed

text \<open>
  C13. The flush reports every buffered Data Set: one diagnostic row for each record, under
  the exporter and domain of its key, with the record's own export time and sequence number
  and the missing template spelt out; afterwards the buffer is empty, its byte count is
  zero, and the layouts are as they were.
\<close>

theorem flush_reports_all:
  assumes "cache_ok c" and "flush_pending c = (rows, c')"
  shows "rows = concat (map (flushed_rows c) (pending_keys c)) \<and>
         length rows = pending_count c \<and> pending_is_empty c' \<and> tc_pending_bytes c' = 0 \<and>
         cache_peek c' = cache_peek c \<and> cache_ok c'"
proof -
  have c': "c' = snd (drain_pending c)"
    using assms(2) by (simp add: flush_pending_def drain_pending_def)
  have rows: "rows = concat (map (flushed_rows c) (pending_keys c))"
    using flush_by_key [OF assms(1)] assms(2) by simp
  then have "length rows = pending_count c"
    by (simp add: pending_count_def flushed_rows_def length_concat o_def)
  moreover have "cache_ok c'" unfolding c' by (rule cache_ok_drain [OF assms(1)])
  moreover have "cache_peek c' = cache_peek c" "pending_is_empty c'" "tc_pending_bytes c' = 0"
    by (simp_all add: c' drain_pending_def pending_is_empty_def cache_peek_def fun_eq_iff)
  ultimately show ?thesis using rows by blast
qed

theorem flush_reports_all_witness:
  "length (fst (flush_pending waiting_cache)) = 2"
proof -
  have "pending_count waiting_cache = 2"
    by (simp add: pending_count_def pending_keys_def bt_keys_def pending_of_def waiting_cache_def
        bt_get_def)
  then show ?thesis
    using flush_reports_all [OF waiting_cache_ok prod.collapse [symmetric]] by metis
qed

section \<open>What a datagram does to the cache\<close>

lemma split_sets_fit:
  "v9_split_flowsets region = Inr sets \<Longrightarrow> \<forall>s \<in> set sets. length (set_body s) < 2 ^ 32"
  "ipfix_split_sets region = Inr sets \<Longrightarrow> \<forall>s \<in> set sets. length (set_body s) < 2 ^ 32"
  by (meson v9_sets.split_sound set_fits_length) (meson ipfix_sets.split_sound set_fits_length)

text \<open>Both set-based decoders either leave the cache alone or learn, then pass over the data.\<close>

definition learns_then_decodes ::
  "string \<Rightarrow> template_cache \<Rightarrow> flow_record list \<times> template_cache \<Rightarrow> bool" where
  "learns_then_decodes ex c res \<longleftrightarrow>
     snd res = c \<or>
     (\<exists>dm defs hdr version uptime fo sets fates.
        let c1 = learn_all ex dm defs c in
        list_all2 (fate_ok version uptime ex dm hdr fo c1 (snd res)) sets fates \<and>
        fst res = concat (map fate_rows fates) \<and>
        (\<forall>key. pending_of (snd res) key =
           pending_of c1 key @ concat (map (fate_buffered key) fates)) \<and>
        pass_frame c1 (snd res))"

context data_pass
begin

lemma pass_learns:
  assumes "cache_ok c" and "\<forall>s \<in> set sets. length (set_body s) < 2 ^ 32"
  shows "learns_then_decodes ex c (pass ex dm hdr now fo sets (learn_all ex dm defs c))"
proof -
  obtain rows c' where p: "pass ex dm hdr now fo sets (learn_all ex dm defs c) = (rows, c')"
    by (cases "pass ex dm hdr now fo sets (learn_all ex dm defs c)")
  from pass_fates [OF cache_ok_learn_all [OF assms(1)] assms(2) p]
  show ?thesis unfolding p learns_then_decodes_def Let_def fst_conv snd_conv by blast
qed

text \<open>The pass looks at the keys of its own exporter and domain only.\<close>

lemma pass_other:
  "k \<notin> set_key ex dm ` set sets \<Longrightarrow> snd (pass ex dm hdr now fo sets c) = c' \<Longrightarrow>
     cache_peek c' k = cache_peek c k \<and> pending_of c' k = pending_of c k"
proof (induction sets arbitrary: c)
  case (Cons s sets)
  show ?case
  proof (cases "set_id s < 256")
    case True
    with Cons show ?thesis by (simp add: pass_skip)
  next
    case False
    let ?c1 = "snd (data_set_step version (uptime hdr) ex dm hdr now fo s c)"
    have "snd (pass ex dm hdr now fo sets ?c1) = c'"
      using Cons.prems(2) False by (simp add: pass_step case_prod_beta Let_def)
    from Cons.IH [OF _ this] Cons.prems(1)
    have "cache_peek c' k = cache_peek ?c1 k \<and> pending_of c' k = pending_of ?c1 k" by simp
    moreover have "k \<noteq> set_key ex dm s" using Cons.prems(1) by simp
    then have "cache_peek ?c1 k = cache_peek c k \<and> pending_of ?c1 k = pending_of c k"
      by (auto simp: data_set_step_def use_template_eq push_pending_def cache_peek_def pending_of_def
          bt_get_insert Let_def split: option.splits)
    ultimately show ?thesis by simp
  qed
qed (simp add: pass_Nil)

end

lemma v9_decode_learns: "cache_ok c \<Longrightarrow> learns_then_decodes ex c (v9_decode data ex ov c now fo)"
  using split_sets_fit(1)
  by (auto simp: v9_decode_def v9_learn_pass_eq Let_def intro!: v9_pass.pass_learns
      split: option.splits sum.splits) (simp_all add: learns_then_decodes_def)

lemma ipfix_decode_learns: "cache_ok c \<Longrightarrow> learns_then_decodes ex c (ipfix_decode data ex ov c now fo)"
  using split_sets_fit(2)
  by (auto simp: ipfix_decode_def ipfix_learn_pass_eq Let_def intro!: ipfix_pass.pass_learns
      split: option.splits sum.splits) (simp_all add: learns_then_decodes_def)

lemma learns_ok:
  assumes "cache_ok c" and "learns_then_decodes ex c res"
  shows "cache_ok (snd res) \<and> tc_cap_entries (snd res) = tc_cap_entries c \<and>
    tc_cap_pending_bytes (snd res) = tc_cap_pending_bytes c"
  using assms by (auto simp: learns_then_decodes_def pass_frame_def Let_def)

text \<open>Retry keeps the caps and looks at known buffered keys only.\<close>

lemma retry_loop_frame:
  "snd (retry_loop keys now fo c) = c' \<Longrightarrow>
     tc_cap_entries c' = tc_cap_entries c \<and> tc_cap_pending_bytes c' = tc_cap_pending_bytes c"
  by (induction keys arbitrary: c)
    (auto simp: use_template_eq Let_def case_prod_beta split: option.splits if_splits)

lemma retry_loop_other:
  "k \<notin> set keys \<or> cache_peek c k = None \<Longrightarrow> snd (retry_loop keys now fo c) = c' \<Longrightarrow>
     cache_peek c' k = cache_peek c k"
proof (induction keys arbitrary: c)
  case (Cons key keys)
  show ?case
  proof (cases "cache_peek c key")
    case None
    with Cons show ?thesis by auto
  next
    case (Some e)
    let ?c1 = "snd (take_pending key (snd (use_template key now c)))"
    have same: "cache_peek ?c1 k = cache_peek c k"
      using Cons.prems(1) Some by (auto simp: use_template_peek)
    moreover have "snd (retry_loop keys now fo ?c1) = c'"
      using Cons.prems(2) Some by (simp add: use_template_eq Let_def case_prod_beta)
    ultimately show ?thesis using Cons.IH [of ?c1] Cons.prems(1) by auto
  qed
qed simp

section \<open>The scan\<close>

text \<open>
  The state of a scan between two datagrams: within its bounds, and no Data Set is kept
  waiting for a layout that is known.
\<close>

definition scan_ok :: "template_cache \<Rightarrow> bool" where
  "scan_ok c \<longleftrightarrow> cache_ok c \<and> (\<forall>k. cache_peek c k \<noteq> None \<longrightarrow> pending_of c k = [])"

lemma scan_ok_empty: "cache_ok c \<Longrightarrow> pending_is_empty c \<Longrightarrow> scan_ok c"
  by (simp add: scan_ok_def pending_is_empty_def pending_of_def bt_get_def)

lemma scan_ok_retry:
  assumes "cache_ok c"
  shows "scan_ok (snd (retry_pending c now fo))"
proof -
  obtain rows c' where r: "retry_pending c now fo = (rows, c')" by (cases "retry_pending c now fo")
  from retry_loop_spec [OF assms pending_keys_in(1) [OF assms] r [unfolded retry_pending_def]]
    pending_keys_in(2) [OF assms]
  have "\<forall>k. pending_of c' k = (if cache_peek c k \<noteq> None then [] else pending_of c k)"
    "cache_ok c'" "layout_kept c c'" by auto
  with layout_kept_peek(1) [of c c'] r show ?thesis by (simp add: scan_ok_def)
qed

text \<open>The first half of a decode: before the retry.\<close>

definition datagram_out ::
  "bytes \<Rightarrow> decode_options \<Rightarrow> template_cache \<Rightarrow> restrict \<Rightarrow> flow_record list \<times> template_cache" where
  "datagram_out data opts c r =
     (let exporter = do_exporter opts; fo = mode_flows_only (do_mode opts) in
      case probe_version data of
        Some v \<Rightarrow>
          if v = ''5'' \<and> r \<in> {AnyFormat, NetflowOnly} then (v5_decode data exporter, c)
          else if v = ''9'' \<and> r \<in> {AnyFormat, NetflowOnly}
          then v9_decode data exporter (do_obs_domain_override opts) c (do_now_micros opts) fo
          else if v = ''10'' \<and> r \<in> {AnyFormat, IpfixOnly}
          then ipfix_decode data exporter (do_obs_domain_override opts) c (do_now_micros opts) fo
          else if v = ''sflow5'' \<and> r \<in> {AnyFormat, SflowOnly}
          then (sflow_decode data exporter fo, c)
          else ([diagnostic exporter v 0 None None
                  (''decode-error:format-'' @ v @ ''-not-accepted-here'')], c)
      | None \<Rightarrow> ([diagnostic exporter [] 0 None None ''decode-error:not-a-flow-datagram''], c))"

lemma decode_datagram_eq:
  "decode_datagram data opts c r =
     (let (out, c1) = datagram_out data opts c r in
      if probe_version data \<in> {Some ''9'', Some ''10''} \<and> \<not> pending_is_empty c1
      then (let (rows, c2) = retry_pending c1 (do_now_micros opts) (mode_flows_only (do_mode opts))
            in (out @ rows, c2))
      else (out, c1))"
  by (simp add: decode_datagram_def datagram_out_def Let_def)

lemma datagram_out_learns:
  "cache_ok c \<Longrightarrow> learns_then_decodes (do_exporter opts) c (datagram_out data opts c r)"
  using v9_decode_learns ipfix_decode_learns
  by (auto simp: datagram_out_def Let_def split: option.splits) (simp_all add: learns_then_decodes_def)

lemma datagram_out_stateless:
  "probe_version data \<notin> {Some ''9'', Some ''10''} \<Longrightarrow> snd (datagram_out data opts c r) = c"
  by (auto simp: datagram_out_def Let_def split: option.splits)

lemma scan_ok_decode:
  assumes "scan_ok c"
  shows "scan_ok (snd (decode_datagram data opts c r)) \<and>
    tc_cap_entries (snd (decode_datagram data opts c r)) = tc_cap_entries c \<and>
    tc_cap_pending_bytes (snd (decode_datagram data opts c r)) = tc_cap_pending_bytes c"
proof -
  obtain out c1 where o: "datagram_out data opts c r = (out, c1)" by (cases "datagram_out data opts c r")
  have ok: "cache_ok c" using assms by (simp add: scan_ok_def)
  have ok1: "cache_ok c1" "tc_cap_entries c1 = tc_cap_entries c"
      "tc_cap_pending_bytes c1 = tc_cap_pending_bytes c"
    using learns_ok [OF ok datagram_out_learns [OF ok, of opts data r]] o by simp_all
  show ?thesis
  proof (cases "probe_version data \<in> {Some ''9'', Some ''10''}")
    case True
    then show ?thesis
      using ok1 scan_ok_retry [OF ok1(1)] scan_ok_empty [OF ok1(1)]
        retry_loop_frame [OF refl, of "pending_keys c1" _ _ c1]
      by (auto simp: decode_datagram_eq o Let_def case_prod_beta retry_pending_def)
  next
    case False
    then have "snd (decode_datagram data opts c r) = c"
      using datagram_out_stateless [OF False, of opts c r] o by (auto simp: decode_datagram_eq)
    with assms show ?thesis by simp
  qed
qed

text \<open>
  One step of a scan: a datagram, the final flush, or handing the cache through its
  serialised form between two calls of the worker (the codec being faithful).
\<close>

inductive scan_step :: "template_cache \<Rightarrow> flow_record list \<Rightarrow> template_cache \<Rightarrow> bool" where
  Datagram: "decode_datagram data opts c r = (rows, c') \<Longrightarrow> scan_step c rows c'"
| Flush: "flush_pending c = (rows, c') \<Longrightarrow> scan_step c rows c'"
| Rehydrate: "to_vec (cache_to_dto c) = Some bs \<Longrightarrow> bs \<noteq> [] \<Longrightarrow>
    from_slice bs = Some (cache_to_dto c) \<Longrightarrow>
    scan_step c [] (from_bytes from_slice (to_bytes to_vec c))"

inductive_cases scan_stepE: "scan_step c rows c'"

inductive reachable :: "template_cache \<Rightarrow> bool" where
  Start: "reachable cache_new"
| Step: "reachable c \<Longrightarrow> scan_step c rows c' \<Longrightarrow> reachable c'"

definition scan_inv :: "template_cache \<Rightarrow> bool" where
  "scan_inv c \<longleftrightarrow> scan_ok c \<and> tc_cap_entries c = DEFAULT_CAP_ENTRIES \<and>
     tc_cap_pending_bytes c = DEFAULT_CAP_PENDING_BYTES"

lemma scan_ok_new: "scan_ok cache_new"
  by (rule scan_ok_empty [OF cache_ok_new]) (simp add: pending_is_empty_def cache_new_def)

lemma scan_inv_new: "scan_inv cache_new"
  using scan_ok_new by (simp add: scan_inv_def cache_new_def)

lemma scan_inv_flush:
  assumes "scan_inv c" and "flush_pending c = (rows, c')"
  shows "scan_inv c'"
proof -
  have c': "c' = snd (drain_pending c)" using assms(2) by (simp add: flush_pending_def drain_pending_def)
  have "cache_ok c'" using assms(1) unfolding c' by (intro cache_ok_drain) (simp add: scan_inv_def scan_ok_def)
  moreover have "pending_is_empty c'" by (simp add: c' drain_pending_def pending_is_empty_def)
  ultimately show ?thesis
    using assms(1) by (simp add: scan_inv_def scan_ok_empty) (simp add: c' drain_pending_def)
qed

lemma scan_inv_step:
  assumes "scan_step c rows c'" and "scan_inv c"
  shows "scan_inv c'"
  using assms
proof cases
  case (Datagram data opts r)
  with scan_ok_decode [of c data opts r] assms(2) show ?thesis by (simp add: scan_inv_def)
next
  case Flush
  with scan_inv_flush assms(2) show ?thesis by blast
next
  case (Rehydrate to_vec bs from_slice)
  have "cache_ok c" using assms(2) by (simp add: scan_inv_def scan_ok_def)
  with Rehydrate have "c' = c"
    by (simp add: from_bytes_def to_bytes_def cache_of_dto_to_dto)
  with assms(2) show ?thesis by simp
qed

lemma reachable_inv: "reachable c \<Longrightarrow> scan_inv c"
  by (induction rule: reachable.induct) (auto intro: scan_inv_new scan_inv_step)

text \<open>
  C1. Whatever datagrams a scan is fed, in whatever order and with whatever options, and
  however often its state is stored and loaded, the state stays within its bounds (at most
  100000 layouts, at most 4 MiB of buffered payload, accounted for exactly), and no
  buffered Data Set has a known layout: everything decodable has been decoded.
\<close>

theorem scan_invariant:
  assumes "reachable c"
  shows "length (tc_entries c) \<le> 100000 \<and>
         pending_total c \<le> 4 * 1024 * 1024 \<and>
         unat (tc_pending_bytes c) = pending_total c \<and>
         (\<forall>k. cache_peek c k \<noteq> None \<longrightarrow> pending_of c k = []) \<and>
         bt_ok (tc_entries c) \<and> bt_ok (tc_pending c)"
proof -
  from reachable_inv [OF assms] have inv: "scan_ok c" "tc_cap_entries c = DEFAULT_CAP_ENTRIES"
    "tc_cap_pending_bytes c = DEFAULT_CAP_PENDING_BYTES" by (simp_all add: scan_inv_def)
  then show ?thesis
    by (auto simp: scan_ok_def cache_ok_def word_le_nat_alt DEFAULT_CAP_ENTRIES_def
        DEFAULT_CAP_PENDING_BYTES_def)
qed

text \<open>The state after data without a template, data with its template, and a trip through a codec.\<close>

theorem scan_invariant_witness:
  "let c1 = snd (decode_datagram (v9_header 1 1000 1700000000 7 3 @ put_set (hd v9_sample_sets)) default_options
         cache_new AnyFormat);
       c2 = snd (decode_datagram (v9_header 2 1000 1700000000 8 3 @ concat (map put_set v9_sample_sets)) default_options
         c1 AnyFormat);
       c = from_bytes (\<lambda>bs. if bs = [1] then Some (cache_to_dto c2) else None) (to_bytes (\<lambda>_. Some [1]) c2)
   in length (tc_entries c) \<le> 100000 \<and> pending_total c \<le> 4 * 1024 * 1024 \<and>
      unat (tc_pending_bytes c) = pending_total c \<and>
      (\<forall>k. cache_peek c k = None \<or> pending_of c k = []) \<and> bt_ok (tc_entries c) \<and> bt_ok (tc_pending c)"
proof -
  let ?c1 = "snd (decode_datagram (v9_header 1 1000 1700000000 7 3 @ put_set (hd v9_sample_sets)) default_options
         cache_new AnyFormat)"
  let ?c2 = "snd (decode_datagram (v9_header 2 1000 1700000000 8 3 @ concat (map put_set v9_sample_sets)) default_options
         ?c1 AnyFormat)"
  have "reachable ?c1" by (rule reachable.Step [OF reachable.Start scan_step.Datagram [OF prod.collapse [symmetric]]])
  then have "reachable ?c2" by (rule reachable.Step [OF _ scan_step.Datagram [OF prod.collapse [symmetric]]])
  then have "reachable (from_bytes (\<lambda>bs. if bs = [1] then Some (cache_to_dto ?c2) else None) (to_bytes (\<lambda>_. Some [1]) ?c2))"
    by (rule reachable.Step [OF _ scan_step.Rehydrate [of _ _ "[1]"]]) simp_all
  from scan_invariant [OF this] show ?thesis unfolding Let_def by blast
qed

section \<open>Stateless formats and rejection\<close>

lemma retry_nothing:
  assumes "scan_ok c"
  shows "fst (retry_pending c now fo) = []"
proof -
  obtain rows c' where r: "retry_pending c now fo = (rows, c')" by (cases "retry_pending c now fo")
  have ok: "cache_ok c" using assms by (simp add: scan_ok_def)
  have "retried_rows fo c k = []" if "cache_peek c k \<noteq> None" for k
    using assms that by (simp add: retried_rows_def scan_ok_def)
  with retry_loop_spec [OF ok pending_keys_in(1) [OF ok] r [unfolded retry_pending_def]] r
  show ?thesis by (auto simp: concat_eq_Nil_conv)
qed

definition accepted :: "string \<Rightarrow> restrict \<Rightarrow> bool" where
  "accepted v r \<longleftrightarrow> r = AnyFormat \<or> r = NetflowOnly \<and> v \<in> {''5'', ''9''} \<or>
     r = IpfixOnly \<and> v = ''10'' \<or> r = SflowOnly \<and> v = ''sflow5''"

text \<open>
  C14. Only NetFlow v9 and IPFIX touch the scan state.  For any other input, rejected
  formats and garbage included, the cache comes back unchanged, and a datagram of a format
  that the entry point does not accept yields exactly one diagnostic row that names it.
\<close>

theorem stateless_and_rejected:
  assumes "scan_ok c"
  shows "(probe_version data \<notin> {Some ''9'', Some ''10''} \<longrightarrow>
            snd (decode_datagram data opts c r) = c) \<and>
         (probe_version data = None \<longrightarrow>
            fst (decode_datagram data opts c r) =
              [diagnostic (do_exporter opts) [] 0 None None ''decode-error:not-a-flow-datagram'']) \<and>
         (probe_version data = Some v \<and> \<not> accepted v r \<longrightarrow>
            fst (decode_datagram data opts c r) =
              [diagnostic (do_exporter opts) v 0 None None
                (''decode-error:format-'' @ v @ ''-not-accepted-here'')])"
proof (intro conjI impI)
  assume "probe_version data \<notin> {Some ''9'', Some ''10''}"
  with datagram_out_stateless [OF this, of opts c r] show "snd (decode_datagram data opts c r) = c"
    by (auto simp: decode_datagram_eq case_prod_beta)
next
  assume "probe_version data = None"
  then show "fst (decode_datagram data opts c r) =
      [diagnostic (do_exporter opts) [] 0 None None ''decode-error:not-a-flow-datagram'']"
    by (simp add: decode_datagram_eq datagram_out_def Let_def)
next
  assume v: "probe_version data = Some v \<and> \<not> accepted v r"
  then have "datagram_out data opts c r = ([diagnostic (do_exporter opts) v 0 None None
      (''decode-error:format-'' @ v @ ''-not-accepted-here'')], c)"
    by (auto simp: datagram_out_def accepted_def Let_def)
  then show "fst (decode_datagram data opts c r) = [diagnostic (do_exporter opts) v 0 None None
      (''decode-error:format-'' @ v @ ''-not-accepted-here'')]"
    using retry_nothing [OF assms, of "do_now_micros opts" "mode_flows_only (do_mode opts)"]
    by (simp add: decode_datagram_eq Let_def case_prod_beta)
qed

theorem stateless_and_rejected_witness:
  "decode_datagram v5_sample default_options cache_new IpfixOnly =
     ([diagnostic [] ''5'' 0 None None ''decode-error:format-5-not-accepted-here''], cache_new)"
proof -
  have v: "probe_version v5_sample = Some ''5''" by (simp add: v5_sample_def probe_v5_header)
  from stateless_and_rejected [OF scan_ok_new, of v5_sample default_options IpfixOnly "''5''"] v
  show ?thesis by (simp add: prod_eq_iff accepted_def default_options_def)
qed

section \<open>Isolation of exporters\<close>

lemma other_exporter_key: "tk_exporter k \<noteq> ex \<Longrightarrow> k \<notin> set_key ex dm ` S"
  by (auto simp: set_key_def)

definition untouched :: "template_key \<Rightarrow> template_cache \<Rightarrow> template_cache \<Rightarrow> bool" where
  "untouched k c c' \<longleftrightarrow> pending_of c' k = pending_of c k \<and> cache_peek c' k \<in> {None, cache_peek c k}"

lemma untouched_refl [simp]: "untouched k c c"
  by (simp add: untouched_def)

context data_pass
begin

lemma pass_untouched:
  assumes "cache_ok c" and "tk_exporter k \<noteq> ex"
  shows "untouched k c (snd (pass ex dm hdr now fo sets (learn_all ex dm defs c)))"
  using pass_other [OF other_exporter_key [OF assms(2)] refl, of dm hdr now fo sets "learn_all ex dm defs c"]
    learn_all_isolated [OF assms(1), of k ex dm defs] assms(2)
  by (auto simp: untouched_def pending_of_def)

end

lemma datagram_out_untouched:
  assumes "cache_ok c" and "tk_exporter k \<noteq> do_exporter opts"
  shows "untouched k c (snd (datagram_out data opts c r))"
  using v9_pass.pass_untouched [OF assms] ipfix_pass.pass_untouched [OF assms]
  by (auto simp: datagram_out_def v9_decode_def ipfix_decode_def v9_learn_pass_eq ipfix_learn_pass_eq
      Let_def split: option.splits sum.splits)

text \<open>
  C12. Exporters do not interfere: decoding any datagram under one exporter name leaves the
  buffered Data Sets of every other exporter as they were and never redefines, stamps or
  counts a use of another exporter's layouts; the one thing that can happen to such a
  layout is its eviction.
\<close>

theorem exporter_isolation:
  assumes "scan_ok c" and "tk_exporter k \<noteq> do_exporter opts"
    and "decode_datagram data opts c r = (rows, c')"
  shows "pending_of c' k = pending_of c k \<and> cache_peek c' k \<in> {None, cache_peek c k}"
proof -
  obtain out c1 where o: "datagram_out data opts c r = (out, c1)" by (cases "datagram_out data opts c r")
  have ok: "cache_ok c" using assms(1) by (simp add: scan_ok_def)
  have ok1: "cache_ok c1" using learns_ok [OF ok datagram_out_learns [OF ok, of opts data r]] o by simp
  have u: "untouched k c c1" using datagram_out_untouched [OF ok assms(2), of data r] o by simp
  have idle: "cache_peek c1 k \<noteq> None \<Longrightarrow> pending_of c1 k = []"
    using u assms(1) by (auto simp: untouched_def scan_ok_def)
  let ?now = "do_now_micros opts" and ?fo = "mode_flows_only (do_mode opts)"
  obtain rows2 c2 where r: "retry_pending c1 ?now ?fo = (rows2, c2)"
    by (cases "retry_pending c1 ?now ?fo")
  have "pending_of c2 k = pending_of c1 k"
    using retry_loop_spec [OF ok1 pending_keys_in(1) [OF ok1] r [unfolded retry_pending_def]] idle
    by auto
  moreover have "k \<notin> set (pending_keys c1) \<or> cache_peek c1 k = None"
    using idle pending_keys_in(2) [OF ok1, of k] by blast
  then have "cache_peek c2 k = cache_peek c1 k"
    using r by (intro retry_loop_other [of k "pending_keys c1" c1 ?now ?fo c2])
      (simp_all add: retry_pending_def)
  moreover have "c' = c2 \<or> c' = c1"
    using assms(3) o r by (auto simp: decode_datagram_eq split: if_splits)
  ultimately show ?thesis using u by (auto simp: untouched_def)
qed

text \<open>A v9 datagram of one exporter, decoded while another's layout is known.\<close>

definition v9_sample :: bytes where
  "v9_sample = v9_header 2 1000 1700000000 7 3 @ concat (map put_set v9_sample_sets)"

definition other_options :: decode_options where
  "other_options = default_options\<lparr>do_exporter := ''s''\<rparr>"

theorem exporter_isolation_witness:
  "pending_of (snd (decode_datagram v9_sample other_options cache_new AnyFormat)) (TemplateKey ''r'' 0 256) = []"
  using exporter_isolation [OF scan_ok_new _ prod.collapse [symmetric], of "TemplateKey ''r'' 0 256"
      other_options v9_sample AnyFormat]
  by (simp add: other_options_def default_options_def pending_of_def cache_new_def bt_get_def)

section \<open>No Data Set is dropped\<close>

text \<open>
  C2. Conservation: in a v9 or IPFIX datagram whose sets are framed correctly, every Data
  Set has exactly one fate. If its layout is known after the templates of the datagram
  have been learnt, it is decoded with it; otherwise it is buffered, behind the records
  already waiting for the same key; and only if the buffer cannot hold its bytes is it
  reported in a row of its own. The rows are those of the fates in datagram order.
\<close>

theorem data_sets_conserved:
  assumes "cache_ok c" and "parse_header data = Some hdr" and "dm = unwrap_or ov (unwrap_or (eh_obs_domain hdr) 0)"
  shows "(v9_split_flowsets (drop 20 data) = Inr sets \<and> 20 \<le> length data \<and>
            v9_decode data ex ov c now fo = (rows, c') \<longrightarrow>
          (\<exists>fates. list_all2 (fate_ok ''9'' (map_option ucast (eh_sys_uptime hdr)) ex dm hdr fo
                (v9_learn_pass ex dm now sets c) c') (filter (\<lambda>s. \<not> set_id s < 256) sets) fates \<and>
              rows = concat (map fate_rows fates) \<and>
              (\<forall>key. pending_of c' key = pending_of c key @ concat (map (fate_buffered key) fates)))) \<and>
         (ipfix_split_sets (drop 16 data) = Inr sets \<and> 16 \<le> length data \<and>
            ipfix_decode data ex ov c now fo = (rows, c') \<longrightarrow>
          (\<exists>fates. list_all2 (fate_ok ''10'' None ex dm hdr fo
                (ipfix_learn_pass ex dm now sets c) c') (filter (\<lambda>s. \<not> set_id s < 256) sets) fates \<and>
              rows = concat (map fate_rows fates) \<and>
              (\<forall>key. pending_of c' key = pending_of c key @ concat (map (fate_buffered key) fates))))"
proof (intro conjI impI; elim conjE)
  assume s: "v9_split_flowsets (drop 20 data) = Inr sets" "20 \<le> length data"
    and d: "v9_decode data ex ov c now fo = (rows, c')"
  let ?c1 = "learn_all ex dm (concat (map (v9_set_defs now) sets)) c"
  have "v9_data_pass ex dm hdr now fo sets ?c1 = (rows, c')"
    using d s assms(2,3) by (simp add: v9_decode_def v9_learn_pass_eq Let_def)
  from v9_pass.pass_fates [OF cache_ok_learn_all [OF assms(1)] split_sets_fit(1) [OF s(1)] this]
  show "\<exists>fates. list_all2 (fate_ok ''9'' (map_option ucast (eh_sys_uptime hdr)) ex dm hdr fo
        (v9_learn_pass ex dm now sets c) c') (filter (\<lambda>s. \<not> set_id s < 256) sets) fates \<and>
      rows = concat (map fate_rows fates) \<and>
      (\<forall>key. pending_of c' key = pending_of c key @ concat (map (fate_buffered key) fates))"
    by (auto simp: v9_learn_pass_eq pending_of_frame [of ?c1 c])
next
  assume s: "ipfix_split_sets (drop 16 data) = Inr sets" "16 \<le> length data"
    and d: "ipfix_decode data ex ov c now fo = (rows, c')"
  let ?c1 = "learn_all ex dm (concat (map (ipfix_set_defs now) sets)) c"
  have "ipfix_data_pass ex dm hdr now fo sets ?c1 = (rows, c')"
    using d s assms(2,3) by (simp add: ipfix_decode_def ipfix_learn_pass_eq Let_def)
  from ipfix_pass.pass_fates [OF cache_ok_learn_all [OF assms(1)] split_sets_fit(2) [OF s(1)] this]
  show "\<exists>fates. list_all2 (fate_ok ''10'' None ex dm hdr fo
        (ipfix_learn_pass ex dm now sets c) c') (filter (\<lambda>s. \<not> set_id s < 256) sets) fates \<and>
      rows = concat (map fate_rows fates) \<and>
      (\<forall>key. pending_of c' key = pending_of c key @ concat (map (fate_buffered key) fates))"
    by (auto simp: ipfix_learn_pass_eq pending_of_frame [of ?c1 c])
qed

theorem data_sets_conserved_witness:
  "\<exists>fates. fst (v9_decode v9_sample ''r'' None cache_new 10 False) = concat (map fate_rows fates)"
proof -
  have h: "parse_header v9_sample = Some (v9_hdr 2 1000 1700000000 7 3)"
    by (simp add: v9_sample_def parse_v9_header v9_hdr_def)
  have d: "drop 20 v9_sample = concat (map put_set v9_sample_sets) @ []" "20 \<le> length v9_sample"
    by (simp_all add: v9_sample_def v9_header_def)
  have "\<forall>s \<in> set v9_sample_sets. set_fits s"
    by (simp add: v9_sample_sets_def set_fits_def length_put_v9_template)
  from v9_sets.split_put_sets [OF this, of "[]"] d
  have "v9_split_flowsets (drop 20 v9_sample) = Inr v9_sample_sets" by simp
  with data_sets_conserved [OF cache_ok_new h refl, where ov = None and sets = v9_sample_sets
      and ex = "''r''" and now = 10 and fo = False
      and rows = "fst (v9_decode v9_sample ''r'' None cache_new 10 False)"
      and c' = "snd (v9_decode v9_sample ''r'' None cache_new 10 False)"] d
  show ?thesis by auto
qed

end
