(* ===== verification/Storage.thy ===== *)
theory Storage
  imports Decode
begin

text \<open>
  Scan-state plumbing (\<open>state.rs\<close>): the template cache is loaded from and stored into the
  key-value storage of the VGI framework, under the execution id of the scan, and mirrored into
  one global projection.  The storage and the JSON codec are parameters, grouped in a record;
  what the code relies on is stated as two predicates.
\<close>

section \<open>Services\<close>

record 's services =
  sv_get :: "'s \<Rightarrow> bytes \<Rightarrow> bytes \<Rightarrow> bytes option"
  sv_put :: "'s \<Rightarrow> bytes \<Rightarrow> bytes \<Rightarrow> bytes \<Rightarrow> 's"
  sv_to_vec :: "cache_dto \<Rightarrow> bytes option"
  sv_from_slice :: "bytes \<Rightarrow> cache_dto option"

definition ascii_bytes :: "string \<Rightarrow> bytes" where
  "ascii_bytes s = map of_char s"

definition CACHE_KEY :: bytes where "CACHE_KEY = ascii_bytes ''netflow.cache''"

definition GLOBAL_SCOPE :: bytes where "GLOBAL_SCOPE = ascii_bytes ''netflow:global''"

text \<open>What of \<open>ProcessParams\<close> the functions use.\<close>

record 's process_params =
  pp_storage :: "'s option"
  pp_execution_id :: bytes

section \<open>Loading and storing\<close>

definition load_scan_cache :: "'s services \<Rightarrow> 's process_params \<Rightarrow> template_cache" where
  "load_scan_cache sv params =
     (case pp_storage params of
        Some store \<Rightarrow>
          let bs = unwrap_or (sv_get sv store (pp_execution_id params) CACHE_KEY) []
          in from_bytes (sv_from_slice sv) bs
      | None \<Rightarrow> cache_new)"

definition merge_entries :: "template_cache \<Rightarrow> template_cache \<Rightarrow> template_cache" where
  "merge_entries cache global = fold (\<lambda>(k, v) g. upsert k v g) (tc_entries cache) global"

definition store_scan_cache ::
  "'s services \<Rightarrow> 's process_params \<Rightarrow> template_cache \<Rightarrow> 's process_params" where
  "store_scan_cache sv params cache =
     (case pp_storage params of
        None \<Rightarrow> params
      | Some store \<Rightarrow>
          let store = sv_put sv store (pp_execution_id params) CACHE_KEY
                        (to_bytes (sv_to_vec sv) cache);
              global = from_bytes (sv_from_slice sv)
                         (unwrap_or (sv_get sv store GLOBAL_SCOPE CACHE_KEY) []);
              global = merge_entries cache global;
              store = sv_put sv store GLOBAL_SCOPE CACHE_KEY (to_bytes (sv_to_vec sv) global)
          in params\<lparr>pp_storage := Some store\<rparr>)"

definition global_cache :: "'s services \<Rightarrow> 's option \<Rightarrow> template_cache" where
  "global_cache sv storage =
     (case storage of
        Some store \<Rightarrow>
          from_bytes (sv_from_slice sv) (unwrap_or (sv_get sv store GLOBAL_SCOPE CACHE_KEY) [])
      | None \<Rightarrow> cache_new)"

section \<open>What the code relies on\<close>

definition storage_laws :: "'s services \<Rightarrow> bool" where
  "storage_laws sv \<longleftrightarrow>
     (\<forall>s a k v b j. sv_get sv (sv_put sv s a k v) b j =
        (if b = a \<and> j = k then Some v else sv_get sv s b j))"

definition codec_laws :: "'s services \<Rightarrow> bool" where
  "codec_laws sv \<longleftrightarrow>
     (\<forall>dto. \<exists>bs. sv_to_vec sv dto = Some bs \<and> bs \<noteq> [] \<and> sv_from_slice sv bs = Some dto)"

lemma codec_roundtrip:
  assumes "codec_laws sv" and "cache_ok c"
  shows "from_bytes (sv_from_slice sv) (to_bytes (sv_to_vec sv) c) = c"
proof -
  obtain bs where "sv_to_vec sv (cache_to_dto c) = Some bs" "bs \<noteq> []"
    "sv_from_slice sv bs = Some (cache_to_dto c)"
    using assms(1) unfolding codec_laws_def by blast
  then show ?thesis
    using cache_of_dto_to_dto [OF assms(2)] by (simp add: from_bytes_def to_bytes_def)
qed

lemma load_store_same:
  assumes "storage_laws sv" and "codec_laws sv" and "cache_ok c"
    and "pp_storage p \<noteq> None" and "pp_execution_id p \<noteq> GLOBAL_SCOPE"
  shows "load_scan_cache sv (store_scan_cache sv p c) = c"
  using assms codec_roundtrip [OF assms(2,3)]
  by (auto simp: load_scan_cache_def store_scan_cache_def storage_laws_def Let_def)

lemma load_store_other:
  assumes "storage_laws sv" and "pp_execution_id q \<noteq> pp_execution_id p"
    and "pp_execution_id q \<noteq> GLOBAL_SCOPE"
  shows "load_scan_cache sv (q\<lparr>pp_storage := pp_storage (store_scan_cache sv p c)\<rparr>) =
    load_scan_cache sv (q\<lparr>pp_storage := pp_storage p\<rparr>)"
  using assms
  by (auto simp: load_scan_cache_def store_scan_cache_def storage_laws_def Let_def split: option.splits)

lemma store_keeps [simp]:
  "pp_execution_id (store_scan_cache sv p c) = pp_execution_id p"
  "pp_storage (store_scan_cache sv p c) = None \<longleftrightarrow> pp_storage p = None"
  by (auto simp: store_scan_cache_def Let_def split: option.splits)

end
