(* ===== verification/Arrow_Layout.thy ===== *)
theory Arrow_Layout
  imports Prelude
begin

text \<open>
  Arrow's columnar format, as far as the worker builds and reads it: data types and fields, an
  array as its buffers (values, validity, offsets and children), the logical cell an array holds
  at a row, and when the buffers form a valid array.  The arrays of the \<open>arrow_array\<close> crate are a
  third-party container; this is the documented layout of that container and nothing of its
  implementation.
\<close>

type_synonym i32 = "32 word"

section \<open>Types and fields\<close>

datatype data_type =
    DtBoolean | DtUtf8 | DtLargeUtf8 | DtBinary | DtLargeBinary
  | DtUInt8 | DtUInt16 | DtUInt32 | DtUInt64 | DtInt8 | DtInt16 | DtInt32 | DtInt64
  | DtTimestampMicros string
  | DtFixedSizeBinary nat
  | DtStruct "arrow_field list"
  | DtList arrow_field
  | DtMap arrow_field bool
and arrow_field =
  Field (field_name: string) (field_type: data_type) (field_nullable: bool)
    (field_metadata: "(string \<times> string) list")

text \<open>\<open>Field::new\<close>, and the column helper of the output schemas.\<close>

definition field_new :: "string \<Rightarrow> data_type \<Rightarrow> bool \<Rightarrow> arrow_field" where
  "field_new name t nullable = Field name t nullable []"

lemma field_new_sel [simp]:
  "field_name (field_new a t n) = a" "field_type (field_new a t n) = t"
  "field_nullable (field_new a t n) = n"
  by (simp_all add: field_new_def)

section \<open>Arrays\<close>

datatype cell =
    CNull
  | CBool bool
  | CInt int
  | CBytes bytes
  | CText string
  | CStruct "cell list"
  | CList "cell list"

text \<open>A flat array carries its nulls in its cells; a struct array has a validity bitmap of its own.\<close>

datatype arrow_array =
    Flat data_type "cell list"
  | StructArray "arrow_field list" "arrow_array list" "bool list option"
  | ListArray arrow_field "i32 list" arrow_array
  | MapArray arrow_field "i32 list" arrow_array bool

fun array_type :: "arrow_array \<Rightarrow> data_type" where
  "array_type (Flat t cells) = t"
| "array_type (StructArray fs children validity) = DtStruct fs"
| "array_type (ListArray f offsets child) = DtList f"
| "array_type (MapArray f offsets entries ordered) = DtMap f ordered"

fun array_len :: "arrow_array \<Rightarrow> nat" where
  "array_len (Flat t cells) = length cells"
| "array_len (StructArray fs children validity) =
     (case children of [] \<Rightarrow> 0 | child # _ \<Rightarrow> array_len child)"
| "array_len (ListArray f offsets child) = length offsets - 1"
| "array_len (MapArray f offsets entries ordered) = length offsets - 1"

text \<open>The logical cell at a row: a struct is null where its bitmap says so, a list is the slice
  of its child between two offsets.\<close>

fun array_cell :: "arrow_array \<Rightarrow> nat \<Rightarrow> cell" where
  "array_cell (Flat t cells) i = cells ! i"
| "array_cell (StructArray fs children validity) i =
     (if (case validity of None \<Rightarrow> True | Some v \<Rightarrow> v ! i)
      then CStruct (map (\<lambda>a. array_cell a i) children) else CNull)"
| "array_cell (ListArray f offsets child) i =
     CList (map (array_cell child) [nat (sint (offsets ! i))..<nat (sint (offsets ! Suc i))])"
| "array_cell (MapArray f offsets entries ordered) i =
     CList (map (array_cell entries) [nat (sint (offsets ! i))..<nat (sint (offsets ! Suc i))])"

text \<open>
  Validity: the cells of a flat array have its type; the children of a struct array have the
  types of its fields, one length, the bitmap's too, and no null where a field is not nullable;
  offsets start at 0 or above, never decrease, and end within the child.
\<close>

fun cell_fits :: "data_type \<Rightarrow> cell \<Rightarrow> bool" where
  "cell_fits t CNull \<longleftrightarrow> True"
| "cell_fits DtBoolean (CBool b) \<longleftrightarrow> True"
| "cell_fits DtUInt8 (CInt n) \<longleftrightarrow> 0 \<le> n \<and> n < 2 ^ 8"
| "cell_fits DtUInt16 (CInt n) \<longleftrightarrow> 0 \<le> n \<and> n < 2 ^ 16"
| "cell_fits DtUInt32 (CInt n) \<longleftrightarrow> 0 \<le> n \<and> n < 2 ^ 32"
| "cell_fits DtUInt64 (CInt n) \<longleftrightarrow> 0 \<le> n \<and> n < 2 ^ 64"
| "cell_fits DtInt8 (CInt n) \<longleftrightarrow> - (2 ^ 7) \<le> n \<and> n < 2 ^ 7"
| "cell_fits DtInt16 (CInt n) \<longleftrightarrow> - (2 ^ 15) \<le> n \<and> n < 2 ^ 15"
| "cell_fits DtInt32 (CInt n) \<longleftrightarrow> - (2 ^ 31) \<le> n \<and> n < 2 ^ 31"
| "cell_fits DtInt64 (CInt n) \<longleftrightarrow> - (2 ^ 63) \<le> n \<and> n < 2 ^ 63"
| "cell_fits (DtTimestampMicros tz) (CInt n) \<longleftrightarrow> - (2 ^ 63) \<le> n \<and> n < 2 ^ 63"
| "cell_fits DtUtf8 (CText s) \<longleftrightarrow> True"
| "cell_fits DtLargeUtf8 (CText s) \<longleftrightarrow> True"
| "cell_fits DtBinary (CBytes b) \<longleftrightarrow> True"
| "cell_fits DtLargeBinary (CBytes b) \<longleftrightarrow> True"
| "cell_fits (DtFixedSizeBinary n) (CBytes b) \<longleftrightarrow> length b = n"
| "cell_fits t c \<longleftrightarrow> False"

definition offsets_valid :: "i32 list \<Rightarrow> nat \<Rightarrow> bool" where
  "offsets_valid offsets n \<longleftrightarrow>
     offsets \<noteq> [] \<and> 0 \<le> sint (hd offsets) \<and> sorted (map sint offsets) \<and> sint (last offsets) \<le> int n"

definition no_nulls :: "arrow_array \<Rightarrow> bool" where
  "no_nulls a \<longleftrightarrow> (\<forall>i < array_len a. array_cell a i \<noteq> CNull)"

fun array_valid :: "arrow_array \<Rightarrow> bool" where
  "array_valid (Flat t cells) \<longleftrightarrow> list_all (cell_fits t) cells"
| "array_valid (StructArray fs children validity) \<longleftrightarrow>
     list_all array_valid children \<and>
     list_all2 (\<lambda>f a. array_type a = field_type f \<and> (field_nullable f \<or> no_nulls a)) fs children \<and>
     (\<forall>a \<in> set children. array_len a = array_len (StructArray fs children validity)) \<and>
     (case validity of None \<Rightarrow> True
      | Some v \<Rightarrow> length v = array_len (StructArray fs children validity))"
| "array_valid (ListArray f offsets child) \<longleftrightarrow>
     array_valid child \<and> array_type child = field_type f \<and> offsets_valid offsets (array_len child)"
| "array_valid (MapArray f offsets entries ordered) \<longleftrightarrow>
     array_valid entries \<and> array_type entries = field_type f \<and> offsets_valid offsets (array_len entries)"

section \<open>Record batches\<close>

record record_batch =
  rb_schema :: "arrow_field list"
  rb_columns :: "arrow_array list"

text \<open>
  \<open>RecordBatch::try_new\<close> is a parameter: the error it reports, if any.  What the code relies on:
  it accepts columns that are valid arrays of one length with the types of the schema's fields.
\<close>

definition batch_fits :: "arrow_field list \<Rightarrow> arrow_array list \<Rightarrow> bool" where
  "batch_fits schema cols \<longleftrightarrow>
     list_all array_valid cols \<and> map array_type cols = map field_type schema \<and>
     (\<exists>n. \<forall>a \<in> set cols. array_len a = n) \<and>
     list_all2 (\<lambda>f a. field_nullable f \<or> no_nulls a) schema cols"

definition try_new_laws :: "(arrow_field list \<Rightarrow> arrow_array list \<Rightarrow> string option) \<Rightarrow> bool" where
  "try_new_laws try_new \<longleftrightarrow> (\<forall>schema cols. cols \<noteq> [] \<longrightarrow> batch_fits schema cols \<longrightarrow> try_new schema cols = None)"

text \<open>A constructor that checks exactly that.\<close>

definition checking_try_new :: "arrow_field list \<Rightarrow> arrow_array list \<Rightarrow> string option" where
  "checking_try_new schema cols =
     (if cols \<noteq> [] \<and> batch_fits schema cols then None else Some ''columns do not match the schema'')"

lemma checking_try_new_laws: "try_new_laws checking_try_new"
  by (simp add: try_new_laws_def checking_try_new_def)

definition make_batch ::
  "(arrow_field list \<Rightarrow> arrow_array list \<Rightarrow> string option) \<Rightarrow> arrow_field list \<Rightarrow> arrow_array list \<Rightarrow>
   string + record_batch" where
  "make_batch try_new schema cols =
     (case try_new schema cols of
        Some e \<Rightarrow> Inl e
      | None \<Rightarrow> Inr \<lparr>rb_schema = schema, rb_columns = cols\<rparr>)"

text \<open>A batch as the rows a consumer reads.\<close>

definition batch_len :: "record_batch \<Rightarrow> nat" where
  "batch_len b = (case rb_columns b of [] \<Rightarrow> 0 | a # _ \<Rightarrow> array_len a)"

definition batch_rows :: "record_batch \<Rightarrow> cell list list" where
  "batch_rows b = map (\<lambda>i. map (\<lambda>a. array_cell a i) (rb_columns b)) [0..<batch_len b]"

lemma batch_rows_eq:
  assumes "batch_len b = length xs"
    and "\<And>i. i < length xs \<Longrightarrow> map (\<lambda>a. array_cell a i) (rb_columns b) = f (xs ! i)"
  shows "batch_rows b = map f xs"
  using assms by (auto simp: batch_rows_def intro: nth_equalityI)

section \<open>Cells of words, texts and options\<close>

definition word_cell :: "'a::len word \<Rightarrow> cell" where
  "word_cell w = CInt (uint w)"

definition time_cell :: "i64 \<Rightarrow> cell" where
  "time_cell t = CInt (sint t)"

fun opt_cell :: "('a \<Rightarrow> cell) \<Rightarrow> 'a option \<Rightarrow> cell" where
  "opt_cell f None = CNull"
| "opt_cell f (Some x) = f x"

lemma time_fits [simp]: "cell_fits (DtTimestampMicros tz) (time_cell (t :: i64))"
  using sint_range_size [of t] by (simp add: time_cell_def word_size)

lemma word_fits [simp]:
  "cell_fits DtUInt8 (word_cell (a :: u8))" "cell_fits DtUInt16 (word_cell (b :: u16))"
  "cell_fits DtUInt32 (word_cell (c :: u32))" "cell_fits DtUInt64 (word_cell (d :: u64))"
  using uint_lt2p [of a] uint_lt2p [of b] uint_lt2p [of c] uint_lt2p [of d]
  by (simp_all add: word_cell_def)

lemma opt_fits [simp]: "(\<And>x. cell_fits t (f x)) \<Longrightarrow> cell_fits t (opt_cell f v)"
  by (cases v) simp_all

lemma word_cell_not_null [simp]: "word_cell w \<noteq> CNull" "time_cell t \<noteq> CNull"
  by (simp_all add: word_cell_def time_cell_def)

lemma opt_cell_null [simp]: "(\<And>x. f x \<noteq> CNull) \<Longrightarrow> opt_cell f v = CNull \<longleftrightarrow> v = None"
  by (cases v) auto

section \<open>Byte offsets\<close>

text \<open>
  An array of texts or blobs addresses its bytes by 32-bit offsets, and its builder panics when the
  bytes appended no longer fit.  A panic ends the call as an error does, so it is the error of the
  builder here; as appending has no other effect, it is raised where the array is finished.
\<close>

fun byte_size :: "cell \<Rightarrow> nat" where
  "byte_size (CText s) = length s"
| "byte_size (CBytes b) = length b"
| "byte_size c = 0"

definition byte_total :: "cell list \<Rightarrow> nat" where
  "byte_total cells = sum_list (map byte_size cells)"

definition offset_overflow :: string where "offset_overflow = ''byte array offset overflow''"

definition finish_bytes :: "data_type \<Rightarrow> cell list \<Rightarrow> string + arrow_array" where
  "finish_bytes t cells = (if byte_total cells < 2 ^ 31 then Inr (Flat t cells) else Inl offset_overflow)"

lemma finish_bytes_Inr [simp]:
  "finish_bytes t cells = Inr a \<longleftrightarrow> byte_total cells < 2 ^ 31 \<and> a = Flat t cells"
  by (auto simp: finish_bytes_def)

lemma finish_bytes_ok: "byte_total cells < 2 ^ 31 \<Longrightarrow> finish_bytes t cells = Inr (Flat t cells)"
  by simp

lemma byte_total_texts:
  "byte_total (map (\<lambda>x. opt_cell CText (f x)) xs) =
     sum_list (map (\<lambda>x. case f x of None \<Rightarrow> 0 | Some s \<Rightarrow> length s) xs)"
  by (induction xs) (auto simp: byte_total_def split: option.splits)

section \<open>Offsets\<close>

text \<open>The running offsets of a list column: where each row's slice starts and ends.\<close>

fun running_offsets :: "nat \<Rightarrow> nat list \<Rightarrow> nat list" where
  "running_offsets n [] = [n]"
| "running_offsets n (k # ks) = n # running_offsets (n + k) ks"

lemma length_running [simp]: "length (running_offsets n ks) = Suc (length ks)"
  by (induction ks arbitrary: n) simp_all

lemma running_not_Nil [simp]: "running_offsets n ks \<noteq> []"
  by (cases ks) simp_all

lemma hd_running [simp]: "hd (running_offsets n ks) = n"
  by (cases ks) simp_all

lemma last_running [simp]: "last (running_offsets n ks) = n + sum_list ks"
  by (induction ks arbitrary: n) simp_all

lemma running_bounds: "x \<in> set (running_offsets n ks) \<Longrightarrow> n \<le> x \<and> x \<le> n + sum_list ks"
  by (induction ks arbitrary: n) fastforce+

lemma sorted_running: "sorted (running_offsets n ks)"
  by (induction ks arbitrary: n) (auto dest: running_bounds)

lemma running_nth: "i \<le> length ks \<Longrightarrow> running_offsets n ks ! i = n + sum_list (take i ks)"
  by (induction ks arbitrary: i n) (auto simp: nth_Cons' take_Cons' add.assoc)

lemma sint_of_nat_i32: "n < 2 ^ 31 \<Longrightarrow> sint (of_nat n :: i32) = int n"
  by (simp add: signed_of_nat signed_take_bit_int_eq_self)

text \<open>Offsets kept in 32 bits are exact as long as the whole child fits.\<close>

lemma sints_running:
  assumes "sum_list ks < 2 ^ 31"
  shows "map sint (map (of_nat :: nat \<Rightarrow> i32) (running_offsets 0 ks)) = map int (running_offsets 0 ks)"
proof -
  have "sint (of_nat x :: i32) = int x" if "x \<in> set (running_offsets 0 ks)" for x
    using running_bounds [OF that] assms by (intro sint_of_nat_i32) simp
  then show ?thesis by simp
qed

lemma offsets_valid_running:
  assumes "sum_list ks < 2 ^ 31"
  shows "offsets_valid (map of_nat (running_offsets 0 ks)) (sum_list ks)"
proof -
  let ?o = "map (of_nat :: nat \<Rightarrow> i32) (running_offsets 0 ks)"
  have "sorted (map sint ?o)"
    using sorted_running [of 0 ks] unfolding sints_running [OF assms] by (simp add: sorted_map sorted_wrt_map)
  moreover have "sint (last ?o) = int (sum_list ks)"
    using assms by (simp add: last_map sint_of_nat_i32)
  moreover have "sint (hd ?o) = 0" by (simp add: hd_map)
  ultimately show ?thesis by (simp add: offsets_valid_def)
qed

lemma concat_slice:
  "i < length xss \<Longrightarrow>
   map (\<lambda>j. concat xss ! j) [sum_list (take i (map length xss))..<sum_list (take (Suc i) (map length xss))] = xss ! i"
proof (induction xss arbitrary: i)
  case (Cons xs xss)
  show ?case
  proof (cases i)
    case 0
    then show ?thesis by (auto simp: nth_append intro: nth_equalityI)
  next
    case (Suc k)
    let ?a = "sum_list (take k (map length xss))" and ?b = "sum_list (take (Suc k) (map length xss))"
    have "[length xs + ?a..<length xs + ?b] = map ((+) (length xs)) [?a..<?b]"
      by (rule nth_equalityI) simp_all
    then show ?thesis using Cons.IH [of k] Cons.prems by (simp add: Suc nth_append comp_def)
  qed
qed simp

text \<open>The cells of a list column built with running offsets are the rows' own slices.\<close>

lemma list_cells:
  assumes "sum_list (map length xss) < 2 ^ 31" and "i < length xss"
    and "\<And>j. j < length (concat xss) \<Longrightarrow> array_cell child j = concat xss ! j"
  shows "map (array_cell child)
      [nat (sint (map (of_nat :: nat \<Rightarrow> i32) (running_offsets 0 (map length xss)) ! i))..<
       nat (sint (map (of_nat :: nat \<Rightarrow> i32) (running_offsets 0 (map length xss)) ! Suc i))] = xss ! i"
proof -
  let ?ks = "map length xss"
  have le: "sum_list (take j ?ks) \<le> sum_list ?ks" for j
    by (metis append_take_drop_id le_add1 sum_list_append)
  have off: "nat (sint (map (of_nat :: nat \<Rightarrow> i32) (running_offsets 0 ?ks) ! j)) = sum_list (take j ?ks)"
    if "j \<le> length xss" for j
    using that le [of j] assms(1) by (simp add: running_nth sint_of_nat_i32)
  have "map (array_cell child) [sum_list (take i ?ks)..<sum_list (take (Suc i) ?ks)] =
      map (\<lambda>j. concat xss ! j) [sum_list (take i ?ks)..<sum_list (take (Suc i) ?ks)]"
    using le [of "Suc i"] assms(3) by (auto simp: length_concat)
  then show ?thesis using off [of i] off [of "Suc i"] concat_slice [OF assms(2)] assms(2) by simp
qed

end
