(* ===== verification/Input_Relation.thy ===== *)
theory Input_Relation
  imports Arrow_Layout
begin

text \<open>
  The input side of the worker (\<open>table_in_out/mod.rs\<close>, \<open>scalar/mod.rs\<close>): the lookup of the columns of
  an input batch by name, and the typed reads of a cell.
\<close>

section \<open>Typed views of a cell\<close>

fun cell_bytes :: "cell \<Rightarrow> bytes" where
  "cell_bytes (CBytes b) = b"
| "cell_bytes _ = []"

fun cell_text :: "cell \<Rightarrow> string" where
  "cell_text (CText s) = s"
| "cell_text _ = []"

fun cell_int :: "cell \<Rightarrow> int" where
  "cell_int (CInt i) = i"
| "cell_int _ = 0"

section \<open>Columns by name\<close>

definition to_ascii_lower :: "char \<Rightarrow> char" where
  "to_ascii_lower ch =
     (let n = (of_char ch :: nat) in if 65 \<le> n \<and> n \<le> 90 then char_of (n + 32) else ch)"

definition eq_ignore_ascii_case :: "string \<Rightarrow> string \<Rightarrow> bool" where
  "eq_ignore_ascii_case a b \<longleftrightarrow> map to_ascii_lower a = map to_ascii_lower b"

text \<open>\<open>Iterator::position\<close>.\<close>

fun position :: "('a \<Rightarrow> bool) \<Rightarrow> 'a list \<Rightarrow> nat option" where
  "position p [] = None"
| "position p (x # xs) = (if p x then Some 0 else map_option Suc (position p xs))"

definition find_named_col :: "arrow_field list \<Rightarrow> string \<Rightarrow> nat option" where
  "find_named_col schema name = position (\<lambda>f. eq_ignore_ascii_case (field_name f) name) schema"

fun first_named :: "arrow_field list \<Rightarrow> string list \<Rightarrow> nat option" where
  "first_named schema [] = None"
| "first_named schema (want # wants) =
     (case position (\<lambda>f. eq_ignore_ascii_case (field_name f) want) schema of
        Some i \<Rightarrow> Some i
      | None \<Rightarrow> first_named schema wants)"

definition no_datagram_column :: string where
  "no_datagram_column =
     ''input relation must carry a `datagram` BLOB column of captured flow datagrams''"

definition find_datagram_col :: "arrow_field list \<Rightarrow> string + nat" where
  "find_datagram_col schema =
     (case first_named schema [''datagram'', ''content'', ''blob''] of
        Some i \<Rightarrow> Inr i
      | None \<Rightarrow>
          (case position (\<lambda>f. field_type f = DtBinary \<or> field_type f = DtLargeBinary) schema of
             Some i \<Rightarrow> Inr i
           | None \<Rightarrow> Inl no_datagram_column))"

section \<open>Cells\<close>

text \<open>\<open>debug\<close> stands for the library's \<open>Debug\<close> rendering of a type, used in the message only.\<close>

definition blob_bytes :: "(data_type \<Rightarrow> string) \<Rightarrow> arrow_array \<Rightarrow> nat \<Rightarrow> string + bytes option" where
  "blob_bytes debug col row =
     (if array_cell col row = CNull then Inr None
      else case array_type col of
             DtBinary \<Rightarrow> Inr (Some (cell_bytes (array_cell col row)))
           | DtLargeBinary \<Rightarrow> Inr (Some (cell_bytes (array_cell col row)))
           | other \<Rightarrow> Inl (''expected a BLOB (binary) argument, got '' @ debug other))"

definition text_at :: "arrow_array \<Rightarrow> nat \<Rightarrow> string option" where
  "text_at col row =
     (if array_cell col row = CNull then None
      else case array_type col of
             DtUtf8 \<Rightarrow> Some (cell_text (array_cell col row))
           | DtLargeUtf8 \<Rightarrow> Some (cell_text (array_cell col row))
           | _ \<Rightarrow> None)"

definition integer_type :: "data_type \<Rightarrow> bool" where
  "integer_type t \<longleftrightarrow>
     t \<in> {DtUInt64, DtUInt32, DtUInt16, DtUInt8, DtInt64, DtInt32, DtInt16, DtInt8}"

text \<open>Every integer width is cast \<open>as u32\<close>, which keeps the low 32 bits.\<close>

definition u32_cell :: "arrow_array \<Rightarrow> nat \<Rightarrow> u32 option" where
  "u32_cell col row =
     (if array_cell col row = CNull then None
      else if integer_type (array_type col) then Some (of_int (cell_int (array_cell col row)))
      else None)"

section \<open>Lookup\<close>

lemma position_Some:
  "position p xs = Some i \<longleftrightarrow> i < length xs \<and> p (xs ! i) \<and> (\<forall>j < i. \<not> p (xs ! j))"
proof (induction xs arbitrary: i)
  case (Cons x xs)
  show ?case
  proof (cases i)
    case 0
    then show ?thesis by simp
  next
    case (Suc k)
    then show ?thesis using Cons [of k] by (auto simp: All_less_Suc2)
  qed
qed simp

lemma position_None: "position p xs = None \<longleftrightarrow> (\<forall>x \<in> set xs. \<not> p x)"
  by (induction xs) auto

end
