(* ===== verification/Arrow_Map.thy ===== *)
theory Arrow_Map
  imports Arrow_Layout Normalize "HOL-Library.Multiset"
begin

text \<open>
  Flow records to Arrow (\<open>arrow_map.rs\<close>): the output schema and the columns built from the decoded
  rows.  The loops append to builders one row at a time, as the code does; the lemmas show that
  the batch built reads back, cell for cell, as the rows it was built from.
\<close>

section \<open>Types\<close>

definition UTC :: string where "UTC = ''UTC''"

definition ts :: data_type where "ts = DtTimestampMicros UTC"

definition hugeint_metadata :: "(string \<times> string) list" where
  "hugeint_metadata =
     [(''ARROW:extension:name'', ''arrow.opaque''),
      (''ARROW:extension:metadata'',
       ''{'' @ [CHR 0x22] @ ''type_name'' @ [CHR 0x22] @ '':'' @ [CHR 0x22] @ ''hugeint'' @ [CHR 0x22] @ '','' @ [CHR 0x22] @ ''vendor_name'' @ [CHR 0x22] @ '':'' @ [CHR 0x22] @ ''DuckDB'' @ [CHR 0x22] @ ''}'')]"

definition inet_child_fields :: "arrow_field list" where
  "inet_child_fields =
     [field_new ''ip_type'' DtUInt8 False,
      Field ''address'' (DtFixedSizeBinary 16) False hugeint_metadata,
      field_new ''mask'' DtUInt16 False]"

definition inet_type :: data_type where "inet_type = DtStruct inet_child_fields"

definition map_entries_field :: arrow_field where
  "map_entries_field =
     field_new ''entries''
       (DtStruct [field_new ''key'' DtUtf8 False, field_new ''value'' DtBinary True]) False"

definition raw_fields_type :: data_type where "raw_fields_type = DtMap map_entries_field False"

definition col :: "string \<Rightarrow> data_type \<Rightarrow> string \<Rightarrow> arrow_field" where
  "col name dt comment = Field name dt True [(''comment'', comment)]"

definition flow_schema :: "arrow_field list" where
  "flow_schema =
     [
      col ''exporter'' DtUtf8
        ''Cache key / source device (as supplied via exporter:= or derived).'',
      col ''flow_version'' DtUtf8
        ''Wire format: '5', '9', '10' (IPFIX), or 'sflow5'.'',
      col ''obs_domain'' DtUInt32
        ''v9 source-id / IPFIX observation domain (template-id namespace).'',
      col ''template_id'' DtUInt16
        ''v9/IPFIX template id; NULL for v5 / sFlow.'',
      col ''export_time'' ts
        ''Datagram export time from the header (TIMESTAMPTZ).'',
      col ''sequence'' DtUInt64
        ''Export sequence number (gap-detection key).'',
      col ''src_addr'' inet_type
        ''Source IP as INET (cast ::INET for <<= containment joins).'',
      col ''dst_addr'' inet_type
        ''Destination IP as INET (cast ::INET for <<= containment joins).'',
      col ''src_port'' DtUInt16
        ''L4 source port.'',
      col ''dst_port'' DtUInt16
        ''L4 destination port.'',
      col ''protocol'' DtUInt8
        ''IP protocol number (6=TCP, 17=UDP, ...).'',
      col ''tcp_flags'' DtUInt8
        ''Cumulative TCP control flags.'',
      col ''bytes'' DtUInt64
        ''Octet count (sFlow scaled by sampling_rate).'',
      col ''packets'' DtUInt64
        ''Packet count (sFlow = sampling_rate).'',
      col ''flow_start'' ts
        ''Flow start, resolved to TIMESTAMPTZ.'',
      col ''flow_end'' ts
        ''Flow end, resolved to TIMESTAMPTZ.'',
      col ''src_as'' DtUInt32
        ''Origin AS number (when exported).'',
      col ''dst_as'' DtUInt32
        ''Peer AS number (when exported).'',
      col ''input_snmp'' DtUInt32
        ''Ingress interface ifIndex.'',
      col ''output_snmp'' DtUInt32
        ''Egress interface ifIndex.'',
      col ''next_hop'' inet_type
        ''BGP/IP next hop as INET.'',
      col ''tos'' DtUInt8
        ''IP ToS / DSCP byte.'',
      col ''src_mask'' DtUInt8
        ''Source prefix length (v5/v9).'',
      col ''dst_mask'' DtUInt8
        ''Destination prefix length (v5/v9).'',
      col ''sampling_rate'' DtUInt32
        ''sFlow sampling N / IPFIX samplingInterval; NULL if none.'',
      col ''direction'' DtUInt8
        ''flowDirection (0=ingress, 1=egress) when present.'',
      col ''raw_fields'' raw_fields_type
        (''Every IE not mapped above, keyed by IE name '' @ [CHR 0xE2, CHR 0x86, CHR 0x92] @ '' raw bytes.''),
      col ''diagnostics'' DtUtf8
        ''NULL on a clean decode; else missing-template/truncated/decode-error/...''
     ]"

section \<open>Columns\<close>

text \<open>The builders of the address column: the three children and the validity bitmap.\<close>

fun inet_loop ::
  "inet_val option list \<Rightarrow> cell list \<times> cell list \<times> cell list \<times> bool list \<Rightarrow>
   cell list \<times> cell list \<times> cell list \<times> bool list" where
  "inet_loop [] builders = builders"
| "inet_loop (v # vals) (ty, address, masks, validity) =
     (case v of
        Some iv \<Rightarrow>
          inet_loop vals (ty @ [word_cell (ip_type iv)], address @ [CBytes (address_le iv)],
            masks @ [word_cell (inet_mask iv)], validity @ [True])
      | None \<Rightarrow>
          inet_loop vals (ty @ [word_cell (0 :: u8)], address @ [CBytes (replicate 16 0)],
            masks @ [word_cell (0 :: u16)], validity @ [False]))"

definition build_inet :: "inet_val option list \<Rightarrow> arrow_array" where
  "build_inet vals =
     (let (ty, address, masks, validity) = inet_loop vals ([], [], [], [])
      in StructArray inet_child_fields
           [Flat DtUInt8 ty, Flat (DtFixedSizeBinary 16) address, Flat DtUInt16 masks] (Some validity))"

text \<open>The builders of the raw fields: keys, values, offsets and the running offset, an \<open>i32\<close>.\<close>

fun raw_loop ::
  "flow_record list \<Rightarrow> cell list \<times> cell list \<times> i32 list \<times> i32 \<Rightarrow>
   cell list \<times> cell list \<times> i32 list \<times> i32" where
  "raw_loop [] builders = builders"
| "raw_loop (r # rows) (keys, vals, offsets, running) =
     (let (keys, vals) =
            fold (\<lambda>(k, v) (keys, vals). (keys @ [CText k], vals @ [CBytes v])) (fr_raw_fields r) (keys, vals);
          running = running + of_nat (length (fr_raw_fields r))
      in raw_loop rows (keys, vals, offsets @ [running], running))"

definition build_raw_fields :: "flow_record list \<Rightarrow> string + arrow_array" where
  "build_raw_fields rows =
     (let (keys, vals, offsets, running) = raw_loop rows ([], [], [0], 0) in
      case finish_bytes DtUtf8 keys of Inl e \<Rightarrow> Inl e | Inr keys \<Rightarrow>
      case finish_bytes DtBinary vals of Inl e \<Rightarrow> Inl e | Inr vals \<Rightarrow>
      let entries = StructArray [field_new ''key'' DtUtf8 False, field_new ''value'' DtBinary True]
                      [keys, vals] None
      in Inr (MapArray map_entries_field offsets entries False))"

definition str_col :: "flow_record list \<Rightarrow> (flow_record \<Rightarrow> string option) \<Rightarrow> string + arrow_array" where
  "str_col rows f = finish_bytes DtUtf8 (map (\<lambda>r. opt_cell CText (f r)) rows)"

definition ts_col :: "flow_record list \<Rightarrow> (flow_record \<Rightarrow> i64 option) \<Rightarrow> arrow_array" where
  "ts_col rows f = Flat ts (map (\<lambda>r. opt_cell time_cell (f r)) rows)"

definition word_col :: "data_type \<Rightarrow> flow_record list \<Rightarrow> (flow_record \<Rightarrow> 'a::len word option) \<Rightarrow> arrow_array" where
  "word_col t rows f = Flat t (map (\<lambda>r. opt_cell word_cell (f r)) rows)"

definition flow_columns :: "flow_record list \<Rightarrow> string + arrow_array list" where
  "flow_columns rows =
     (case str_col rows (\<lambda>r. Some (fr_exporter r)) of Inl e \<Rightarrow> Inl e | Inr exporters \<Rightarrow>
      case str_col rows (\<lambda>r. Some (fr_flow_version r)) of Inl e \<Rightarrow> Inl e | Inr versions \<Rightarrow>
      case build_raw_fields rows of Inl e \<Rightarrow> Inl e | Inr raws \<Rightarrow>
      case str_col rows fr_diagnostics of Inl e \<Rightarrow> Inl e | Inr notes \<Rightarrow>
      Inr
     [
      exporters,
      versions,
      word_col DtUInt32 rows (\<lambda>r. Some (fr_obs_domain r)),
      word_col DtUInt16 rows fr_template_id, ts_col rows fr_export_time,
      word_col DtUInt64 rows fr_sequence, build_inet (map fr_src_addr rows),
      build_inet (map fr_dst_addr rows), word_col DtUInt16 rows fr_src_port,
      word_col DtUInt16 rows fr_dst_port, word_col DtUInt8 rows fr_protocol,
      word_col DtUInt8 rows fr_tcp_flags, word_col DtUInt64 rows fr_bytes,
      word_col DtUInt64 rows fr_packets, ts_col rows fr_flow_start, ts_col rows fr_flow_end,
      word_col DtUInt32 rows fr_src_as, word_col DtUInt32 rows fr_dst_as,
      word_col DtUInt32 rows fr_input_snmp, word_col DtUInt32 rows fr_output_snmp,
      build_inet (map fr_next_hop rows), word_col DtUInt8 rows fr_tos,
      word_col DtUInt8 rows fr_src_mask, word_col DtUInt8 rows fr_dst_mask,
      word_col DtUInt32 rows fr_sampling_rate, word_col DtUInt8 rows fr_direction,
      raws, notes
     ])"

definition rows_to_batch ::
  "(arrow_field list \<Rightarrow> arrow_array list \<Rightarrow> string option) \<Rightarrow> flow_record list \<Rightarrow> arrow_field list \<Rightarrow>
   string + record_batch" where
  "rows_to_batch try_new rows schema =
     (case flow_columns rows of Inl e \<Rightarrow> Inl e | Inr cols \<Rightarrow> make_batch try_new schema cols)"

section \<open>What a row should read as\<close>

definition inet_cell :: "inet_val \<Rightarrow> cell" where
  "inet_cell v = CStruct [word_cell (ip_type v), CBytes (address_le v), word_cell (inet_mask v)]"

definition raw_cell :: "(string \<times> bytes) list \<Rightarrow> cell" where
  "raw_cell kvs = CList (map (\<lambda>(k, v). CStruct [CText k, CBytes v]) kvs)"

definition row_cells :: "flow_record \<Rightarrow> cell list" where
  "row_cells r =
     [
      CText (fr_exporter r), CText (fr_flow_version r), word_cell (fr_obs_domain r),
      opt_cell word_cell (fr_template_id r), opt_cell time_cell (fr_export_time r),
      opt_cell word_cell (fr_sequence r), opt_cell inet_cell (fr_src_addr r),
      opt_cell inet_cell (fr_dst_addr r), opt_cell word_cell (fr_src_port r),
      opt_cell word_cell (fr_dst_port r), opt_cell word_cell (fr_protocol r),
      opt_cell word_cell (fr_tcp_flags r), opt_cell word_cell (fr_bytes r),
      opt_cell word_cell (fr_packets r), opt_cell time_cell (fr_flow_start r),
      opt_cell time_cell (fr_flow_end r), opt_cell word_cell (fr_src_as r),
      opt_cell word_cell (fr_dst_as r), opt_cell word_cell (fr_input_snmp r),
      opt_cell word_cell (fr_output_snmp r), opt_cell inet_cell (fr_next_hop r),
      opt_cell word_cell (fr_tos r), opt_cell word_cell (fr_src_mask r),
      opt_cell word_cell (fr_dst_mask r), opt_cell word_cell (fr_sampling_rate r),
      opt_cell word_cell (fr_direction r), raw_cell (fr_raw_fields r),
      opt_cell CText (fr_diagnostics r)
     ]"

text \<open>
  A \<open>FlowRecord\<close> holds its addresses in a \<open>[u8; 16]\<close>, and the offsets of a batch are 32 bits wide: of
  the bytes of each column of texts, of the entries of the map, of the bytes of its keys and of
  its values.  These are the rows a batch can carry.
\<close>

definition inet_typed :: "inet_val option \<Rightarrow> bool" where
  "inet_typed v \<longleftrightarrow> (case v of None \<Rightarrow> True | Some iv \<Rightarrow> length (address_le iv) = 16)"

definition row_typed :: "flow_record \<Rightarrow> bool" where
  "row_typed r \<longleftrightarrow> inet_typed (fr_src_addr r) \<and> inet_typed (fr_dst_addr r) \<and> inet_typed (fr_next_hop r)"

definition row_sizes :: "(flow_record \<Rightarrow> nat) list" where
  "row_sizes =
     [\<lambda>r. length (fr_exporter r), \<lambda>r. length (fr_flow_version r),
      \<lambda>r. case fr_diagnostics r of None \<Rightarrow> 0 | Some d \<Rightarrow> length d,
      \<lambda>r. length (fr_raw_fields r), \<lambda>r. sum_list (map (length \<circ> fst) (fr_raw_fields r)),
      \<lambda>r. sum_list (map (length \<circ> snd) (fr_raw_fields r))]"

definition rows_fit :: "flow_record list \<Rightarrow> bool" where
  "rows_fit rows \<longleftrightarrow> list_all (\<lambda>size. sum_list (map size rows) < 2 ^ 31) row_sizes"

definition raw_total :: "flow_record list \<Rightarrow> nat" where
  "raw_total rows = sum_list (map (\<lambda>r. length (fr_raw_fields r)) rows)"

lemma rows_fit_append: "rows_fit (xs @ ys) \<Longrightarrow> rows_fit xs \<and> rows_fit ys"
  by (auto simp: rows_fit_def row_sizes_def)

lemma rows_fit_mset: "mset xs = mset ys \<Longrightarrow> rows_fit xs = rows_fit ys"
proof -
  assume "mset xs = mset ys"
  then have "sum_list (map f xs) = sum_list (map f ys)" for f :: "flow_record \<Rightarrow> nat"
    by (metis mset_map sum_mset_sum_list)
  then show ?thesis by (simp add: rows_fit_def)
qed

section \<open>The columns built\<close>

lemma inet_loop_eq:
  "inet_loop vals (ty, address, masks, validity) =
     (ty @ map (\<lambda>v. word_cell (case v of Some iv \<Rightarrow> ip_type iv | None \<Rightarrow> 0)) vals,
      address @ map (\<lambda>v. CBytes (case v of Some iv \<Rightarrow> address_le iv | None \<Rightarrow> replicate 16 0)) vals,
      masks @ map (\<lambda>v. word_cell (case v of Some iv \<Rightarrow> inet_mask iv | None \<Rightarrow> 0)) vals,
      validity @ map (\<lambda>v. v \<noteq> None) vals)"
  by (induction vals arbitrary: ty address masks validity) (auto split: option.splits)

lemma build_inet_props:
  "array_type (build_inet vals) = inet_type"
  "array_len (build_inet vals) = length vals"
  "i < length vals \<Longrightarrow> array_cell (build_inet vals) i = opt_cell inet_cell (vals ! i)"
  "list_all inet_typed vals \<Longrightarrow> array_valid (build_inet vals)"
  by (auto simp: build_inet_def inet_loop_eq inet_type_def inet_cell_def inet_child_fields_def
      list_all_iff inet_typed_def no_nulls_def split: option.splits)

lemma raw_fold:
  "fold (\<lambda>(k, v) (keys, vals). (keys @ [CText k], vals @ [CBytes v])) kvs (keys, vals) =
     (keys @ map (CText \<circ> fst) kvs, vals @ map (CBytes \<circ> snd) kvs)"
  by (induction kvs arbitrary: keys vals) auto

lemma raw_loop_eq:
  "raw_loop rows (keys, vals, offsets @ [of_nat n], of_nat n) =
     (keys @ map (CText \<circ> fst) (concat (map fr_raw_fields rows)),
      vals @ map (CBytes \<circ> snd) (concat (map fr_raw_fields rows)),
      offsets @ map of_nat (running_offsets n (map (\<lambda>r. length (fr_raw_fields r)) rows)),
      of_nat (n + raw_total rows))"
proof (induction rows arbitrary: keys vals offsets n)
  case (Cons r rows)
  from Cons [of _ _ "offsets @ [of_nat n]" "n + length (fr_raw_fields r)"] show ?case
    by (simp add: raw_fold raw_total_def add.assoc)
qed (simp add: raw_total_def)

lemmas raw_loop_start = raw_loop_eq [of _ "[]" "[]" "[]" 0, simplified]

text \<open>The arrays of the columns, when they can be built.\<close>

definition raw_array :: "flow_record list \<Rightarrow> arrow_array" where
  "raw_array rows =
     MapArray map_entries_field
       (map of_nat (running_offsets 0 (map (\<lambda>r. length (fr_raw_fields r)) rows)))
       (StructArray [field_new ''key'' DtUtf8 False, field_new ''value'' DtBinary True]
          [Flat DtUtf8 (map (CText \<circ> fst) (concat (map fr_raw_fields rows))),
           Flat DtBinary (map (CBytes \<circ> snd) (concat (map fr_raw_fields rows)))] None) False"

definition text_array :: "flow_record list \<Rightarrow> (flow_record \<Rightarrow> string option) \<Rightarrow> arrow_array" where
  "text_array rows f = Flat DtUtf8 (map (\<lambda>r. opt_cell CText (f r)) rows)"

definition flow_arrays :: "flow_record list \<Rightarrow> arrow_array list" where
  "flow_arrays rows =
     [
      text_array rows (\<lambda>r. Some (fr_exporter r)),
      text_array rows (\<lambda>r. Some (fr_flow_version r)),
      word_col DtUInt32 rows (\<lambda>r. Some (fr_obs_domain r)),
      word_col DtUInt16 rows fr_template_id, ts_col rows fr_export_time,
      word_col DtUInt64 rows fr_sequence, build_inet (map fr_src_addr rows),
      build_inet (map fr_dst_addr rows), word_col DtUInt16 rows fr_src_port,
      word_col DtUInt16 rows fr_dst_port, word_col DtUInt8 rows fr_protocol,
      word_col DtUInt8 rows fr_tcp_flags, word_col DtUInt64 rows fr_bytes,
      word_col DtUInt64 rows fr_packets, ts_col rows fr_flow_start, ts_col rows fr_flow_end,
      word_col DtUInt32 rows fr_src_as, word_col DtUInt32 rows fr_dst_as,
      word_col DtUInt32 rows fr_input_snmp, word_col DtUInt32 rows fr_output_snmp,
      build_inet (map fr_next_hop rows), word_col DtUInt8 rows fr_tos,
      word_col DtUInt8 rows fr_src_mask, word_col DtUInt8 rows fr_dst_mask,
      word_col DtUInt32 rows fr_sampling_rate, word_col DtUInt8 rows fr_direction,
      raw_array rows, text_array rows fr_diagnostics
     ]"

lemma raw_bytes:
  "byte_total (map (CText \<circ> fst) (concat (map fr_raw_fields rows))) =
     sum_list (map (\<lambda>r. sum_list (map (length \<circ> fst) (fr_raw_fields r))) rows)"
  "byte_total (map (CBytes \<circ> snd) (concat (map fr_raw_fields rows))) =
     sum_list (map (\<lambda>r. sum_list (map (length \<circ> snd) (fr_raw_fields r))) rows)"
  by (induction rows) (simp_all add: byte_total_def comp_def)

lemma flow_columns_Inr: "flow_columns rows = Inr cols \<Longrightarrow> cols = flow_arrays rows"
  by (auto simp: flow_columns_def flow_arrays_def str_col_def text_array_def build_raw_fields_def raw_array_def
      raw_loop_start split: sum.splits)

lemma str_col_ok:
  "sum_list (map (\<lambda>r. case f r of None \<Rightarrow> 0 | Some s \<Rightarrow> length s) rows) < 2 ^ 31 \<Longrightarrow>
   str_col rows f = Inr (text_array rows f)"
  by (simp add: str_col_def text_array_def byte_total_texts)

lemma build_raw_ok:
  assumes "sum_list (map (\<lambda>r. sum_list (map (length \<circ> fst) (fr_raw_fields r))) rows) < 2 ^ 31"
    and "sum_list (map (\<lambda>r. sum_list (map (length \<circ> snd) (fr_raw_fields r))) rows) < 2 ^ 31"
  shows "build_raw_fields rows = Inr (raw_array rows)"
  using assms unfolding raw_bytes [symmetric]
  by (simp add: build_raw_fields_def raw_array_def raw_loop_start finish_bytes_ok)

lemma flow_columns_ok:
  assumes "rows_fit rows"
  shows "flow_columns rows = Inr (flow_arrays rows)"
proof -
  from assms have fit: "sum_list (map size rows) < 2 ^ 31" if "size \<in> set row_sizes" for size
    using that by (simp add: rows_fit_def list_all_iff)
  have "str_col rows (\<lambda>r. Some (fr_exporter r)) = Inr (text_array rows (\<lambda>r. Some (fr_exporter r)))"
    "str_col rows (\<lambda>r. Some (fr_flow_version r)) = Inr (text_array rows (\<lambda>r. Some (fr_flow_version r)))"
    "str_col rows fr_diagnostics = Inr (text_array rows fr_diagnostics)"
    by (rule str_col_ok, rule fit, simp add: row_sizes_def)+
  moreover have "build_raw_fields rows = Inr (raw_array rows)"
    by (rule build_raw_ok; rule fit, simp add: row_sizes_def)
  ultimately show ?thesis by (simp add: flow_columns_def flow_arrays_def)
qed

lemma rows_fit_raw: "rows_fit rows \<Longrightarrow> raw_total rows < 2 ^ 31"
  by (simp add: rows_fit_def row_sizes_def raw_total_def)

lemma build_raw_props:
  "array_type (raw_array rows) = raw_fields_type"
  "array_len (raw_array rows) = length rows"
  by (simp_all add: raw_array_def raw_fields_type_def)

lemma build_raw_cell:
  assumes "raw_total rows < 2 ^ 31" and "i < length rows"
  shows "array_cell (raw_array rows) i = raw_cell (fr_raw_fields (rows ! i))"
proof -
  let ?xss = "map (\<lambda>r. map (\<lambda>(k, v). CStruct [CText k, CBytes v]) (fr_raw_fields r)) rows"
  have "concat ?xss = map (\<lambda>(k, v). CStruct [CText k, CBytes v]) (concat (map fr_raw_fields rows))"
    by (simp add: map_concat comp_def)
  then show ?thesis
    using list_cells [of ?xss i "StructArray [field_new ''key'' DtUtf8 False, field_new ''value'' DtBinary True]
          [Flat DtUtf8 (map (CText \<circ> fst) (concat (map fr_raw_fields rows))),
           Flat DtBinary (map (CBytes \<circ> snd) (concat (map fr_raw_fields rows)))] None"] assms
    by (simp add: raw_array_def raw_cell_def raw_total_def comp_def case_prod_beta)
qed

lemma build_raw_valid:
  assumes "raw_total rows < 2 ^ 31"
  shows "array_valid (raw_array rows)"
proof -
  have "offsets_valid (map of_nat (running_offsets 0 (map (\<lambda>r. length (fr_raw_fields r)) rows)))
      (length (concat (map fr_raw_fields rows)))"
    using offsets_valid_running [of "map (\<lambda>r. length (fr_raw_fields r)) rows"] assms
    by (simp add: raw_total_def length_concat comp_def)
  then show ?thesis
    by (simp add: raw_array_def map_entries_field_def list_all_iff no_nulls_def)
qed

lemma flat_cols:
  "array_type (text_array rows f) = DtUtf8" "array_type (ts_col rows g) = ts" "array_type (word_col t rows h) = t"
  "array_len (text_array rows f) = length rows" "array_len (ts_col rows g) = length rows"
  "array_len (word_col t rows h) = length rows"
  "i < length rows \<Longrightarrow> array_cell (text_array rows f) i = opt_cell CText (f (rows ! i))"
  "i < length rows \<Longrightarrow> array_cell (ts_col rows g) i = opt_cell time_cell (g (rows ! i))"
  "i < length rows \<Longrightarrow> array_cell (word_col t rows h) i = opt_cell word_cell (h (rows ! i))"
  "array_valid (text_array rows f)" "array_valid (ts_col rows g)"
  by (simp_all add: text_array_def ts_col_def word_col_def ts_def list_all_iff)

lemma word_cols_valid:
  "array_valid (word_col DtUInt8 rows (a :: flow_record \<Rightarrow> u8 option))"
  "array_valid (word_col DtUInt16 rows (b :: flow_record \<Rightarrow> u16 option))"
  "array_valid (word_col DtUInt32 rows (c :: flow_record \<Rightarrow> u32 option))"
  "array_valid (word_col DtUInt64 rows (d :: flow_record \<Rightarrow> u64 option))"
  by (simp_all add: word_col_def list_all_iff)

lemmas column_props = build_inet_props build_raw_props build_raw_cell flat_cols

lemma flow_columns_types: "map array_type (flow_arrays rows) = map field_type flow_schema"
  by (simp add: flow_arrays_def flow_schema_def column_props col_def)

lemma flow_columns_len: "\<forall>a \<in> set (flow_arrays rows). array_len a = length rows"
  by (simp add: flow_arrays_def column_props)

lemma flow_columns_cells:
  assumes "raw_total rows < 2 ^ 31" and "i < length rows"
  shows "map (\<lambda>a. array_cell a i) (flow_arrays rows) = row_cells (rows ! i)"
  using assms by (simp add: flow_arrays_def column_props row_cells_def)

lemma flow_columns_valid:
  assumes "raw_total rows < 2 ^ 31" and "list_all row_typed rows"
  shows "list_all array_valid (flow_arrays rows)"
  using assms
  by (simp add: flow_arrays_def flat_cols word_cols_valid build_raw_valid build_inet_props row_typed_def list_all_iff)

lemma flow_schema_nullable: "\<forall>f \<in> set flow_schema. field_nullable f"
  by (simp add: flow_schema_def col_def)

lemma flow_columns_length: "length (flow_arrays rows) = length flow_schema"
  using flow_columns_types [of rows] by (metis length_map)

section \<open>Properties\<close>

lemma opt_cell_inj:
  assumes "inj f" and "\<And>x. f x \<noteq> CNull" and "opt_cell f a = opt_cell f b"
  shows "a = b"
proof (cases a; cases b)
  fix x y assume "a = Some x" "b = Some y"
  with assms(3) show ?thesis using injD [OF assms(1)] by simp
qed (use assms(2,3) in \<open>auto dest: sym\<close>)

lemma cell_inj: "inj (word_cell :: 'a::len word \<Rightarrow> cell)" "inj time_cell" "inj CText" "inj inet_cell"
proof -
  show "inj inet_cell"
  proof (rule injI)
    fix a b :: inet_val assume "inet_cell a = inet_cell b"
    then show "a = b" by (cases a; cases b) (simp add: inet_cell_def word_cell_def word_uint_eq_iff)
  qed
qed (auto simp: inj_def word_cell_def time_cell_def word_uint_eq_iff dest: signed_word_eqI)

lemma raw_cell_inj: "raw_cell a = raw_cell b \<Longrightarrow> a = b"
proof -
  have "inj (\<lambda>(k :: string, v :: bytes). CStruct [CText k, CBytes v])" by (auto simp: inj_def)
  then show "raw_cell a = raw_cell b \<Longrightarrow> ?thesis" by (simp add: raw_cell_def inj_map_eq_map)
qed

lemma inet_cell_null [simp]: "inet_cell v \<noteq> CNull" "CText s \<noteq> CNull"
  by (simp_all add: inet_cell_def)

lemmas opt_cell_injs =
  opt_cell_inj [OF cell_inj(1) word_cell_not_null(1)] opt_cell_inj [OF cell_inj(2) word_cell_not_null(2)]
  opt_cell_inj [OF cell_inj(3) inet_cell_null(2)] opt_cell_inj [OF cell_inj(4) inet_cell_null(1)]

lemma row_cells_inj: "row_cells r = row_cells s \<Longrightarrow> r = s"
  by (rule flow_record.equality)
    (auto simp: row_cells_def dest!: opt_cell_injs raw_cell_inj injD [OF cell_inj(1)])

lemma flow_columns_fit:
  assumes "raw_total rows < 2 ^ 31" and "list_all row_typed rows"
  shows "batch_fits flow_schema (flow_arrays rows)"
  using flow_columns_valid [OF assms] flow_columns_types [of rows] flow_columns_len [of rows] flow_schema_nullable
    flow_columns_length [of rows]
  by (auto simp: batch_fits_def list_all2_conv_all_nth)

lemma flow_batch_rows:
  assumes "raw_total rows < 2 ^ 31"
  shows "batch_rows \<lparr>rb_schema = s, rb_columns = flow_arrays rows\<rparr> = map row_cells rows"
proof (rule batch_rows_eq)
  show "batch_len \<lparr>rb_schema = s, rb_columns = flow_arrays rows\<rparr> = length rows"
    using flow_columns_len [of rows] by (simp add: batch_len_def flow_arrays_def)
qed (use flow_columns_cells [OF assms] in simp)

lemma rows_to_batch_fits:
  assumes "try_new_laws try_new" and "list_all row_typed rows" and "rows_fit rows"
  shows "rows_to_batch try_new rows flow_schema = Inr \<lparr>rb_schema = flow_schema, rb_columns = flow_arrays rows\<rparr>"
  using assms(1) flow_columns_fit [OF rows_fit_raw [OF assms(3)] assms(2)]
  by (simp add: try_new_laws_def rows_to_batch_def make_batch_def flow_columns_ok [OF assms(3)])
    (simp add: flow_arrays_def)

text \<open>
  C22. Decoded rows reach SQL intact.  The columns built from any rows have the types of the
  declared schema and one length, so the batch is accepted; read back, row by row, it holds every
  field of every row, nulls as nulls, addresses as their \<open>INET\<close> struct and the raw fields as a map
  in order; and rows that differ give batches that differ.  (The texts and raw fields of a batch fit
  32-bit offsets; an address has 16 bytes; Arrow accepts columns that fit the schema.)
\<close>

theorem flow_batch_exact:
  assumes "try_new_laws try_new" and "list_all row_typed rows" and "rows_fit rows"
  shows "\<exists>b. rows_to_batch try_new rows flow_schema = Inr b \<and> rb_schema b = flow_schema \<and>
    batch_rows b = map row_cells rows \<and>
    (\<forall>rows' b'. raw_total rows' < 2 ^ 31 \<longrightarrow> rows_to_batch try_new rows' flow_schema = Inr b' \<longrightarrow>
       batch_rows b' = batch_rows b \<longrightarrow> rows' = rows)"
proof -
  have inj: "rows' = rows" if "raw_total rows' < 2 ^ 31" "rows_to_batch try_new rows' flow_schema = Inr b'"
    "batch_rows b' = map row_cells rows" for rows' b'
  proof -
    note built = that
    obtain cols where "flow_columns rows' = Inr cols" "b' = \<lparr>rb_schema = flow_schema, rb_columns = cols\<rparr>"
      using built(2) by (auto simp: rows_to_batch_def make_batch_def split: sum.splits option.splits)
    with flow_columns_Inr built(3) flow_batch_rows [OF built(1)] row_cells_inj show ?thesis
      by (auto simp: inj_def inj_map_eq_map)
  qed
  show ?thesis
    using rows_to_batch_fits [OF assms] flow_batch_rows [OF rows_fit_raw [OF assms(3)]] inj by auto
qed

text \<open>A row with an address and two raw fields, and the diagnostic of a rejected datagram.\<close>

definition sample_rows :: "flow_record list" where
  "sample_rows =
     [default_record\<lparr>fr_exporter := ''r1'', fr_flow_version := ''10'', fr_obs_domain := 42,
        fr_src_addr := inet4 [10, 0, 0, 1], fr_raw_fields := [(''interfaceName'', [101]), (''x'', [])]\<rparr>,
      diagnostic ''r1'' [] 0 None None ''decode-error:not-a-flow-datagram'']"

theorem flow_batch_exact_witness:
  "\<exists>b. rows_to_batch checking_try_new sample_rows flow_schema = Inr b \<and>
     batch_rows b = map row_cells sample_rows"
proof -
  have "list_all row_typed sample_rows"
    by (simp add: sample_rows_def row_typed_def inet_typed_def default_record_def diagnostic_def inet4_def to_le_bytes_def)
  moreover have "rows_fit sample_rows"
    by (simp add: sample_rows_def rows_fit_def row_sizes_def default_record_def diagnostic_def)
  ultimately show ?thesis
    using flow_batch_exact [OF checking_try_new_laws, of sample_rows] by auto
qed

end
