(* ===== verification/Flows.thy ===== *)
theory Flows
  imports Storage Input_Relation Arrow_Map
begin

text \<open>
  The table-in-out decoders (\<open>table_in_out/flows.rs\<close>): the four functions, binding, one call on a
  batch of the input relation, and the end of the stream.  \<open>decode_batch\<close> and \<open>flush_batch\<close> are the
  parts that touch the scan state; \<open>process\<close> and \<open>finish\<close> are the whole calls, with the Arrow batch
  that carries the rows out.
\<close>

section \<open>The four functions\<close>

record flow_decode =
  fd_name :: string
  fd_restrict :: restrict
  fd_with_mode :: bool
  fd_with_obs_domain :: bool

definition fd_flows :: flow_decode where
  "fd_flows = \<lparr>fd_name = ''flows'', fd_restrict = AnyFormat, fd_with_mode = True,
     fd_with_obs_domain = True\<rparr>"

definition fd_new :: "string \<Rightarrow> restrict \<Rightarrow> flow_decode" where
  "fd_new name restrict = \<lparr>fd_name = name, fd_restrict = restrict, fd_with_mode = False,
     fd_with_obs_domain = (restrict \<noteq> SflowOnly)\<rparr>"

definition register_table_in_out :: "flow_decode list" where
  "register_table_in_out =
     [fd_flows, fd_new ''netflow_decode'' NetflowOnly, fd_new ''ipfix_decode'' IpfixOnly,
      fd_new ''sflow_decode'' SflowOnly]"

text \<open>Binding checks that there is an input relation with a datagram column, and returns the output schema.\<close>

definition bind_input :: "flow_decode \<Rightarrow> arrow_field list option \<Rightarrow> string + arrow_field list" where
  "bind_input fd input_schema =
     (case input_schema of
        None \<Rightarrow> Inl (fd_name fd @ '': requires an input relation'')
      | Some input \<Rightarrow>
          (case find_datagram_col input of
             Inl e \<Rightarrow> Inl e
           | Inr _ \<Rightarrow> Inr flow_schema))"

section \<open>One batch\<close>

definition row_options :: "flow_decode \<Rightarrow> i64 \<Rightarrow> record_batch \<Rightarrow> nat \<Rightarrow> decode_options" where
  "row_options fd now batch row =
     (let schema = rb_schema batch;
          exporter_col = find_named_col schema ''exporter'';
          obs_col = (if fd_with_obs_domain fd then find_named_col schema ''obs_domain'' else None);
          mode_col = (if fd_with_mode fd then find_named_col schema ''mode'' else None)
      in \<lparr>do_exporter =
            unwrap_or (Option.bind exporter_col (\<lambda>i. text_at (rb_columns batch ! i) row)) [],
          do_obs_domain_override =
            Option.bind obs_col (\<lambda>i. u32_cell (rb_columns batch ! i) row),
          do_mode =
            unwrap_or (map_option mode_parse
              (Option.bind mode_col (\<lambda>i. text_at (rb_columns batch ! i) row))) Auto,
          do_now_micros = now\<rparr>)"

fun process_loop ::
  "(nat \<Rightarrow> string + bytes option) \<Rightarrow> (nat \<Rightarrow> decode_options) \<Rightarrow> restrict \<Rightarrow> nat list \<Rightarrow>
   template_cache \<Rightarrow> string + (flow_record list \<times> template_cache)" where
  "process_loop datagram opts restrict [] cache = Inr ([], cache)"
| "process_loop datagram opts restrict (row # rows) cache =
     (case datagram row of
        Inl e \<Rightarrow> Inl e
      | Inr None \<Rightarrow> process_loop datagram opts restrict rows cache
      | Inr (Some bs) \<Rightarrow>
          let (out, cache) = decode_datagram bs (opts row) cache restrict
          in (case process_loop datagram opts restrict rows cache of
                Inl e \<Rightarrow> Inl e
              | Inr (rest, cache) \<Rightarrow> Inr (out @ rest, cache)))"

text \<open>An early error leaves before the cache is stored.\<close>

definition decode_batch ::
  "'s services \<Rightarrow> (data_type \<Rightarrow> string) \<Rightarrow> flow_decode \<Rightarrow> 's process_params \<Rightarrow> i64 \<Rightarrow> record_batch \<Rightarrow>
   string + (flow_record list \<times> 's process_params)" where
  "decode_batch sv debug fd params now batch =
     (case find_datagram_col (rb_schema batch) of
        Inl e \<Rightarrow> Inl e
      | Inr di \<Rightarrow>
          let cache = load_scan_cache sv params
          in (case process_loop (blob_bytes debug (rb_columns batch ! di)) (row_options fd now batch)
                     (fd_restrict fd) [0..<batch_len batch] cache of
                Inl e \<Rightarrow> Inl e
              | Inr (rows, cache) \<Rightarrow> Inr (rows, store_scan_cache sv params cache)))"

definition flush_batch ::
  "'s services \<Rightarrow> 's process_params \<Rightarrow> flow_record list \<times> 's process_params" where
  "flush_batch sv params =
     (let cache = load_scan_cache sv params;
          (rows, cache) = flush_pending cache
      in (rows, store_scan_cache sv params cache))"

text \<open>The whole calls: the scan state is stored before the rows become a batch, which may fail.\<close>

definition process ::
  "'s services \<Rightarrow> (data_type \<Rightarrow> string) \<Rightarrow> (arrow_field list \<Rightarrow> arrow_array list \<Rightarrow> string option) \<Rightarrow>
   flow_decode \<Rightarrow> 's process_params \<Rightarrow> arrow_field list \<Rightarrow> i64 \<Rightarrow> record_batch \<Rightarrow>
   (string + record_batch list) \<times> 's process_params" where
  "process sv debug try_new fd params schema now batch =
     (case decode_batch sv debug fd params now batch of
        Inl e \<Rightarrow> (Inl e, params)
      | Inr (rows, params) \<Rightarrow>
          (case rows_to_batch try_new rows schema of
             Inl e \<Rightarrow> (Inl e, params)
           | Inr b \<Rightarrow> (Inr [b], params)))"

definition finish ::
  "'s services \<Rightarrow> (arrow_field list \<Rightarrow> arrow_array list \<Rightarrow> string option) \<Rightarrow> 's process_params \<Rightarrow>
   arrow_field list \<Rightarrow> (string + record_batch list) \<times> 's process_params" where
  "finish sv try_new params schema =
     (let (rows, params) = flush_batch sv params
      in if rows = [] then (Inr [], params)
         else (case rows_to_batch try_new rows schema of
                 Inl e \<Rightarrow> (Inl e, params)
               | Inr b \<Rightarrow> (Inr [b], params)))"

section \<open>A batch as a run of calls\<close>

text \<open>The abstract scan: one cache, the datagrams one after the other.\<close>

fun run_calls ::
  "restrict \<Rightarrow> (bytes \<times> decode_options) list \<Rightarrow> template_cache \<Rightarrow> flow_record list \<times> template_cache" where
  "run_calls r [] c = ([], c)"
| "run_calls r ((data, opts) # calls) c =
     (let (out, c) = decode_datagram data opts c r;
          (rest, c) = run_calls r calls c
      in (out @ rest, c))"

lemma run_calls_append:
  "run_calls r (xs @ ys) c =
     (let (out, c) = run_calls r xs c; (rest, c) = run_calls r ys c in (out @ rest, c))"
  by (induction xs arbitrary: c) (auto simp: Let_def case_prod_beta)

text \<open>The calls a batch stands for: its non-null datagrams, with the options of their rows.\<close>

fun calls_of ::
  "(nat \<Rightarrow> string + bytes option) \<Rightarrow> (nat \<Rightarrow> decode_options) \<Rightarrow> nat list \<Rightarrow>
   string + (bytes \<times> decode_options) list" where
  "calls_of datagram opts [] = Inr []"
| "calls_of datagram opts (row # rows) =
     (case datagram row of
        Inl e \<Rightarrow> Inl e
      | Inr None \<Rightarrow> calls_of datagram opts rows
      | Inr (Some bs) \<Rightarrow>
          (case calls_of datagram opts rows of Inl e \<Rightarrow> Inl e | Inr calls \<Rightarrow> Inr ((bs, opts row) # calls)))"

definition batch_calls ::
  "(data_type \<Rightarrow> string) \<Rightarrow> flow_decode \<Rightarrow> i64 \<Rightarrow> record_batch \<Rightarrow> string + (bytes \<times> decode_options) list" where
  "batch_calls debug fd now batch =
     (case find_datagram_col (rb_schema batch) of
        Inl e \<Rightarrow> Inl e
      | Inr di \<Rightarrow> calls_of (blob_bytes debug (rb_columns batch ! di)) (row_options fd now batch)
                    [0..<batch_len batch])"

lemma process_loop_calls:
  "process_loop datagram opts r rows c =
     (case calls_of datagram opts rows of Inl e \<Rightarrow> Inl e | Inr calls \<Rightarrow> Inr (run_calls r calls c))"
  by (induction rows arbitrary: c) (auto simp: Let_def case_prod_beta split: sum.splits option.splits)

lemma process_calls:
  "decode_batch sv debug fd params now batch =
     (case batch_calls debug fd now batch of
        Inl e \<Rightarrow> Inl e
      | Inr calls \<Rightarrow>
          let (rows, c) = run_calls (fd_restrict fd) calls (load_scan_cache sv params)
          in Inr (rows, store_scan_cache sv params c))"
  by (simp add: decode_batch_def batch_calls_def process_loop_calls Let_def split: sum.splits prod.splits)

lemma run_calls_ok: "scan_ok c \<Longrightarrow> scan_ok (snd (run_calls r calls c))"
proof (induction calls arbitrary: c)
  case (Cons x calls)
  obtain data opts where x: "x = (data, opts)" by (cases x)
  from Cons scan_ok_decode [OF Cons.prems, of data opts r] show ?case
    by (simp add: x Let_def case_prod_beta)
qed simp

text \<open>What a call puts out, when Arrow accepts columns that fit the schema.\<close>

lemma process_emits:
  assumes "try_new_laws try_new" and "list_all row_typed rows" and "rows_fit rows"
    and "decode_batch sv debug fd params now batch = Inr (rows, params')"
  shows "process sv debug try_new fd params flow_schema now batch =
      (Inr [\<lparr>rb_schema = flow_schema, rb_columns = flow_arrays rows\<rparr>], params')"
  using rows_to_batch_fits [OF assms(1-3)] assms(4) by (simp add: process_def)

lemma finish_emits:
  assumes "try_new_laws try_new" and "list_all row_typed rows" and "rows_fit rows"
    and "flush_batch sv params = (rows, params')"
  shows "finish sv try_new params flow_schema =
      (Inr (if rows = [] then [] else [\<lparr>rb_schema = flow_schema, rb_columns = flow_arrays rows\<rparr>]), params')"
  using rows_to_batch_fits [OF assms(1-3)] assms(4) by (simp add: finish_def)

lemma bind_input_schema:
  "bind_input fd (Some schema) = Inr out \<Longrightarrow> out = flow_schema \<and> (\<exists>i. find_datagram_col schema = Inr i)"
  by (auto simp: bind_input_def split: sum.splits)

end
