(* ===== verification/Sample_Services.thy ===== *)
theory Sample_Services
  imports Storage
begin

text \<open>
  A storage and a codec that satisfy the laws of \<open>Storage\<close>, so that what is proved under them
  can be applied: the storage is a finite map of byte strings, and the codec writes a state as
  tagged lists of fixed-width fields.  The worker itself uses neither.
\<close>

section \<open>Prefix codecs\<close>

definition codec_ok :: "('a \<Rightarrow> bytes) \<Rightarrow> (bytes \<Rightarrow> ('a \<times> bytes) option) \<Rightarrow> bool" where
  "codec_ok e d \<longleftrightarrow> (\<forall>x r. d (e x @ r) = Some (x, r))"

lemma codec_okD: "codec_ok e d \<Longrightarrow> d (e x @ r) = Some (x, r)"
  by (simp add: codec_ok_def)

definition enc_word :: "nat \<Rightarrow> 'a::len word \<Rightarrow> bytes" where
  "enc_word n w = to_be_bytes n w"

definition dec_word :: "nat \<Rightarrow> bytes \<Rightarrow> ('a::len word \<times> bytes) option" where
  "dec_word n s = Some (from_be (take n s), drop n s)"

lemma codec_word: "n * 8 = LENGTH('a::len) \<Longrightarrow> codec_ok (enc_word n :: 'a word \<Rightarrow> bytes) (dec_word n)"
  by (simp add: codec_ok_def enc_word_def dec_word_def from_be_to_be)

definition enc_char :: "char \<Rightarrow> bytes" where
  "enc_char ch = [of_nat (of_char ch)]"

fun dec_char :: "bytes \<Rightarrow> (char \<times> bytes) option" where
  "dec_char [] = None"
| "dec_char (b # s) = Some (char_of (unat b), s)"

lemma codec_char: "codec_ok enc_char dec_char"
  by (simp add: codec_ok_def enc_char_def unat_of_nat)

definition enc_list :: "('a \<Rightarrow> bytes) \<Rightarrow> 'a list \<Rightarrow> bytes" where
  "enc_list e xs = concat (map (\<lambda>x. 1 # e x) xs) @ [0]"

fun dec_list_fuel :: "nat \<Rightarrow> (bytes \<Rightarrow> ('a \<times> bytes) option) \<Rightarrow> bytes \<Rightarrow> ('a list \<times> bytes) option" where
  "dec_list_fuel 0 d s = None"
| "dec_list_fuel (Suc n) d s =
     (case s of
        [] \<Rightarrow> None
      | b # s \<Rightarrow>
          if b = 0 then Some ([], s)
          else do { (x, s) \<leftarrow> d s; (xs, s) \<leftarrow> dec_list_fuel n d s; Some (x # xs, s) })"

definition dec_list :: "(bytes \<Rightarrow> ('a \<times> bytes) option) \<Rightarrow> bytes \<Rightarrow> ('a list \<times> bytes) option" where
  "dec_list d s = dec_list_fuel (length s) d s"

lemma dec_list_fuel_enc:
  "codec_ok e d \<Longrightarrow> length xs < n \<Longrightarrow> dec_list_fuel n d (enc_list e xs @ r) = Some (xs, r)"
proof (induction xs arbitrary: n)
  case Nil
  then show ?case by (cases n) (simp_all add: enc_list_def)
next
  case (Cons x xs)
  then obtain m where "n = Suc m" "length xs < m" by (cases n) auto
  with Cons codec_okD [OF Cons.prems(1), of x "enc_list e xs @ r"] show ?case
    by (simp add: enc_list_def)
qed

lemma length_enc_list: "length xs < length (enc_list e xs)"
  by (induction xs) (simp_all add: enc_list_def)

lemma codec_list: "codec_ok e d \<Longrightarrow> codec_ok (enc_list e) (dec_list d)"
  unfolding codec_ok_def [of "enc_list e"] dec_list_def
  by (intro allI dec_list_fuel_enc) (simp_all add: length_enc_list trans_less_add1)

definition enc_option :: "('a \<Rightarrow> bytes) \<Rightarrow> 'a option \<Rightarrow> bytes" where
  "enc_option e x = (case x of None \<Rightarrow> [0] | Some y \<Rightarrow> 1 # e y)"

fun dec_option :: "(bytes \<Rightarrow> ('a \<times> bytes) option) \<Rightarrow> bytes \<Rightarrow> ('a option \<times> bytes) option" where
  "dec_option d [] = None"
| "dec_option d (b # s) = (if b = 0 then Some (None, s) else map_option (apfst Some) (d s))"

lemma codec_option: "codec_ok e d \<Longrightarrow> codec_ok (enc_option e) (dec_option d)"
  by (auto simp: codec_ok_def enc_option_def split: option.splits)

definition enc_pair :: "('a \<Rightarrow> bytes) \<Rightarrow> ('b \<Rightarrow> bytes) \<Rightarrow> 'a \<times> 'b \<Rightarrow> bytes" where
  "enc_pair e f x = e (fst x) @ f (snd x)"

definition dec_pair ::
  "(bytes \<Rightarrow> ('a \<times> bytes) option) \<Rightarrow> (bytes \<Rightarrow> ('b \<times> bytes) option) \<Rightarrow> bytes \<Rightarrow>
   (('a \<times> 'b) \<times> bytes) option" where
  "dec_pair d g s = do { (x, s) \<leftarrow> d s; (y, s) \<leftarrow> g s; Some ((x, y), s) }"

lemma codec_pair: "codec_ok e d \<Longrightarrow> codec_ok f g \<Longrightarrow> codec_ok (enc_pair e f) (dec_pair d g)"
  by (simp add: codec_ok_def enc_pair_def dec_pair_def)

definition dec_map :: "('a \<Rightarrow> 'b) \<Rightarrow> (bytes \<Rightarrow> ('a \<times> bytes) option) \<Rightarrow> bytes \<Rightarrow> ('b \<times> bytes) option" where
  "dec_map g d s = map_option (apfst g) (d s)"

lemma codec_map: "codec_ok e d \<Longrightarrow> (\<And>x. g (f x) = x) \<Longrightarrow> codec_ok (\<lambda>x. e (f x)) (dec_map g d)"
  by (simp add: codec_ok_def dec_map_def)

section \<open>The scan state\<close>

abbreviation "e_string \<equiv> enc_list enc_char"
abbreviation "d_string \<equiv> dec_list dec_char"
abbreviation "e_u16 \<equiv> (enc_word 2 :: u16 \<Rightarrow> bytes)"
abbreviation "e_u32 \<equiv> (enc_word 4 :: u32 \<Rightarrow> bytes)"
abbreviation "e_u64 \<equiv> (enc_word 8 :: u64 \<Rightarrow> bytes)"

lemmas base_codecs = codec_list codec_option codec_pair codec_char
  codec_word [where 'a = 8 and n = 1] codec_word [where 'a = 16 and n = 2]
  codec_word [where 'a = 32 and n = 4] codec_word [where 'a = 64 and n = 8]

definition e_key :: "template_key \<Rightarrow> bytes" where
  "e_key k = enc_pair e_string (enc_pair e_u32 e_u16) (tk_exporter k, tk_obs_domain k, tk_template_id k)"

definition d_key :: "bytes \<Rightarrow> (template_key \<times> bytes) option" where
  "d_key = dec_map (\<lambda>(a, b, c). TemplateKey a b c)
     (dec_pair d_string (dec_pair (dec_word 4) (dec_word 2)))"

definition e_field :: "field_spec \<Rightarrow> bytes" where
  "e_field f = enc_pair e_u16 (enc_pair e_u32 (enc_pair e_u16 (enc_pair e_string e_string)))
     (fs_ie_id f, fs_enterprise_number f, fs_length f, fs_name f, fs_ie_type f)"

definition d_field :: "bytes \<Rightarrow> (field_spec \<times> bytes) option" where
  "d_field = dec_map (\<lambda>(a, b, c, d, e). \<lparr>fs_ie_id = a, fs_enterprise_number = b, fs_length = c,
       fs_name = d, fs_ie_type = e\<rparr>)
     (dec_pair (dec_word 2) (dec_pair (dec_word 4) (dec_pair (dec_word 2) (dec_pair d_string d_string))))"

definition e_entry :: "template_entry \<Rightarrow> bytes" where
  "e_entry t = enc_pair (enc_option e_string) (enc_pair (enc_list e_field) (enc_pair e_u16
       (enc_pair e_u64 (enc_pair e_u64 e_u64))))
     (if te_kind t = TkData then None else Some [], te_fields t, te_scope_field_count t,
      te_first_seen t, te_last_seen t, te_use_count t)"

definition d_entry :: "bytes \<Rightarrow> (template_entry \<times> bytes) option" where
  "d_entry = dec_map (\<lambda>(a, b, c, d, e, f). \<lparr>te_kind = (if a = None then TkData else TkOptions),
       te_fields = b, te_scope_field_count = c, te_first_seen = d, te_last_seen = e, te_use_count = f\<rparr>)
     (dec_pair (dec_option d_string) (dec_pair (dec_list d_field) (dec_pair (dec_word 2)
       (dec_pair (dec_word 8) (dec_pair (dec_word 8) (dec_word 8))))))"

definition e_pending :: "pending_record \<Rightarrow> bytes" where
  "e_pending p = enc_pair (enc_option e_u64) (enc_pair (enc_option e_u64) (enc_pair e_string
       (enc_pair (enc_option e_u64) (enc_list (enc_word 1))))) 
     (pr_export_time p, pr_sequence p, pr_version p, pr_sys_uptime_ms p, pr_bytes p)"

definition d_pending :: "bytes \<Rightarrow> (pending_record \<times> bytes) option" where
  "d_pending = dec_map (\<lambda>(a, b, c, d, e). \<lparr>pr_export_time = a, pr_sequence = b, pr_version = c,
       pr_sys_uptime_ms = d, pr_bytes = e\<rparr>)
     (dec_pair (dec_option (dec_word 8)) (dec_pair (dec_option (dec_word 8)) (dec_pair d_string
       (dec_pair (dec_option (dec_word 8)) (dec_list (dec_word 1))))))"

definition e_dto :: "cache_dto \<Rightarrow> bytes" where
  "e_dto x = enc_pair (enc_list (enc_pair e_key e_entry)) (enc_pair (enc_list (enc_pair e_key (enc_list e_pending)))
       (enc_pair e_u32 e_u32))
     (dto_entries x, dto_pending x, dto_cap_entries x, dto_cap_pending_bytes x)"

definition d_dto :: "bytes \<Rightarrow> (cache_dto \<times> bytes) option" where
  "d_dto = dec_map (\<lambda>(a, b, c, d). \<lparr>dto_entries = a, dto_pending = b, dto_cap_entries = c,
       dto_cap_pending_bytes = d\<rparr>)
     (dec_pair (dec_list (dec_pair d_key d_entry)) (dec_pair (dec_list (dec_pair d_key (dec_list d_pending)))
       (dec_pair (dec_word 4) (dec_word 4))))"

lemma codec_key: "codec_ok e_key d_key"
  unfolding e_key_def [abs_def] d_key_def
  by (rule codec_map; (intro base_codecs)?) (simp_all split: template_key.splits)

lemma codec_field: "codec_ok e_field d_field"
  unfolding e_field_def [abs_def] d_field_def
  by (rule codec_map; (intro base_codecs)?) simp_all

lemma codec_entry: "codec_ok e_entry d_entry"
  unfolding e_entry_def [abs_def] d_entry_def
proof (rule codec_map; (intro base_codecs codec_field)?)
  fix x :: template_entry
  show "(\<lambda>(a, b, c, d, e, f). \<lparr>te_kind = (if a = None then TkData else TkOptions), te_fields = b,
        te_scope_field_count = c, te_first_seen = d, te_last_seen = e, te_use_count = f\<rparr>)
      (if te_kind x = TkData then None else Some ([] :: string), te_fields x, te_scope_field_count x,
       te_first_seen x, te_last_seen x, te_use_count x) = x"
    by (cases "te_kind x") simp_all
qed simp_all

lemma codec_pending: "codec_ok e_pending d_pending"
  unfolding e_pending_def [abs_def] d_pending_def
  by (rule codec_map; (intro base_codecs)?) simp_all

lemma codec_dto: "codec_ok e_dto d_dto"
  unfolding e_dto_def [abs_def] d_dto_def
  by (rule codec_map; (intro base_codecs codec_key codec_entry codec_pending)?) simp_all

section \<open>The services\<close>

definition sample_services :: "(bytes \<times> bytes \<Rightarrow> bytes option) services" where
  "sample_services =
     \<lparr>sv_get = (\<lambda>s a k. s (a, k)), sv_put = (\<lambda>s a k v. s((a, k) \<mapsto> v)),
      sv_to_vec = (\<lambda>dto. Some (e_dto dto)), sv_from_slice = (\<lambda>bs. map_option fst (d_dto bs))\<rparr>"

lemma sample_storage: "storage_laws sample_services"
  by (simp add: storage_laws_def sample_services_def)

lemma sample_codec: "codec_laws sample_services"
proof -
  have "e_dto x \<noteq> []" for x
    by (simp add: e_dto_def enc_pair_def enc_list_def)
  moreover have "d_dto (e_dto x) = Some (x, [])" for x
    using codec_okD [OF codec_dto, of x "[]"] by simp
  ultimately show ?thesis by (simp add: codec_laws_def sample_services_def)
qed

definition fresh_params :: "(bytes \<times> bytes \<Rightarrow> bytes option) process_params" where
  "fresh_params = \<lparr>pp_storage = Some (\<lambda>_. None), pp_execution_id = [1]\<rparr>"

end
