(* ===== verification/Scan.thy ===== *)
theory Scan
  imports Flows Sample_Services
begin

text \<open>
  A whole scan: the calls of \<open>process\<close> the framework makes, one after the other with the storage in
  between, and the final \<open>finish\<close>.  The scan is compared with the abstract one that keeps a single
  cache in memory, and with what another execution on the same storage sees.
\<close>

section \<open>A scan\<close>

text \<open>The calls the framework makes: the batches in order, each with its wall clock.\<close>

fun run_scan ::
  "'s services \<Rightarrow> (data_type \<Rightarrow> string) \<Rightarrow> flow_decode \<Rightarrow> (i64 \<times> record_batch) list \<Rightarrow> 's process_params \<Rightarrow>
   string + (flow_record list \<times> 's process_params)" where
  "run_scan sv debug fd [] params = Inr ([], params)"
| "run_scan sv debug fd ((now, batch) # batches) params =
     (case decode_batch sv debug fd params now batch of
        Inl e \<Rightarrow> Inl e
      | Inr (rows, params) \<Rightarrow>
          (case run_scan sv debug fd batches params of
             Inl e \<Rightarrow> Inl e
           | Inr (rest, params) \<Rightarrow> Inr (rows @ rest, params)))"

definition scan_params :: "'s process_params \<Rightarrow> bool" where
  "scan_params p \<longleftrightarrow> pp_storage p \<noteq> None \<and> pp_execution_id p \<noteq> GLOBAL_SCOPE"

lemma scan_params_store [simp]: "scan_params (store_scan_cache sv p c) \<longleftrightarrow> scan_params p"
  by (simp add: scan_params_def)

lemma run_scan_calls:
  assumes "storage_laws sv" and "codec_laws sv" and "scan_params p"
    and "scan_ok (load_scan_cache sv p)"
    and "list_all2 (\<lambda>(now, batch) calls. batch_calls debug fd now batch = Inr calls) batches css"
  shows "\<exists>q. run_scan sv debug fd batches p =
      Inr (fst (run_calls (fd_restrict fd) (concat css) (load_scan_cache sv p)), q) \<and>
    load_scan_cache sv q = snd (run_calls (fd_restrict fd) (concat css) (load_scan_cache sv p)) \<and>
    scan_params q"
  using assms(5,3,4)
proof (induction batches css arbitrary: p rule: list_all2_induct)
  case (Cons b batches calls css)
  obtain now batch where b: "b = (now, batch)" by (cases b)
  let ?r = "fd_restrict fd" and ?c = "load_scan_cache sv p"
  obtain rows c where run: "run_calls ?r calls ?c = (rows, c)" by (cases "run_calls ?r calls ?c")
  let ?q = "store_scan_cache sv p c"
  have ok: "scan_ok c" using run_calls_ok [OF Cons.prems(2), of ?r calls] run by simp
  have load: "load_scan_cache sv ?q = c"
    using load_store_same [OF assms(1,2)] ok Cons.prems(1) by (simp add: scan_ok_def scan_params_def)
  have "decode_batch sv debug fd p now batch = Inr (rows, ?q)"
    using Cons.hyps(1) run by (simp add: b process_calls)
  with Cons.IH [of ?q] Cons.prems(1) ok load run show ?case
    by (auto simp: b run_calls_append Let_def case_prod_beta)
qed simp

text \<open>
  Batch boundaries are invisible.  However the relation is cut into batches, the rows of a
  scan are the rows of decoding all its datagrams in order against one cache, although the cache
  goes through the storage and its serialised form after every batch; and the rows of the final
  call are the flush of that cache.  (The storage returns what was last put under a key, the
  codec what was encoded, and the execution id is not the name of the global projection.)
\<close>

theorem batching_invisible:
  assumes "storage_laws sv" and "codec_laws sv"
    and "pp_storage p \<noteq> None" and "pp_execution_id p \<noteq> GLOBAL_SCOPE"
    and "load_scan_cache sv p = cache_new"
    and "list_all2 (\<lambda>(now, batch) calls. batch_calls debug fd now batch = Inr calls) batches css"
  shows "\<exists>q. run_scan sv debug fd batches p = Inr (fst (run_calls (fd_restrict fd) (concat css) cache_new), q) \<and>
    fst (flush_batch sv q) = fst (flush_pending (snd (run_calls (fd_restrict fd) (concat css) cache_new)))"
proof -
  have "scan_params p" using assms(3,4) by (simp add: scan_params_def)
  from run_scan_calls [OF assms(1,2) this _ assms(6)] assms(5) scan_ok_new
  show ?thesis by (auto simp: flush_batch_def Let_def case_prod_beta)
qed

text \<open>Two batches of one datagram each: a Data Set, then nothing.\<close>

definition one_datagram :: "bytes \<Rightarrow> record_batch" where
  "one_datagram data = \<lparr>rb_schema = [field_new ''datagram'' DtBinary True],
     rb_columns = [Flat DtBinary [CBytes data]]\<rparr>"

lemma one_datagram_calls:
  "batch_calls debug fd_flows now (one_datagram data) =
     Inr [(data, \<lparr>do_exporter = [], do_obs_domain_override = None, do_mode = Auto, do_now_micros = now\<rparr>)]"
  by (simp add: batch_calls_def one_datagram_def find_datagram_col_def eq_ignore_ascii_case_def
      to_ascii_lower_def blob_bytes_def batch_len_def row_options_def find_named_col_def fd_flows_def)

lemma fresh_load: "load_scan_cache sample_services fresh_params = cache_new"
  by (simp add: load_scan_cache_def sample_services_def fresh_params_def from_bytes_def)

theorem batching_invisible_witness:
  "\<exists>q. run_scan sample_services (\<lambda>_. []) fd_flows [(5, one_datagram v9_sample), (6, one_datagram [])] fresh_params =
      Inr (fst (run_calls AnyFormat
        [(v9_sample, default_options\<lparr>do_now_micros := 5\<rparr>), ([], default_options\<lparr>do_now_micros := 6\<rparr>)] cache_new), q)"
proof -
  have p: "pp_storage fresh_params \<noteq> None" "pp_execution_id fresh_params \<noteq> GLOBAL_SCOPE"
    by (simp_all add: fresh_params_def GLOBAL_SCOPE_def ascii_bytes_def)
  have all: "list_all2 (\<lambda>(now, batch) calls. batch_calls (\<lambda>_. []) fd_flows now batch = Inr calls)
      [(5, one_datagram v9_sample), (6, one_datagram [])]
      [[(v9_sample, default_options\<lparr>do_now_micros := 5\<rparr>)], [([], default_options\<lparr>do_now_micros := 6\<rparr>)]]"
    by (simp add: one_datagram_calls default_options_def)
  have r: "fd_restrict fd_flows = AnyFormat" by (simp add: fd_flows_def)
  show ?thesis
    using batching_invisible [OF sample_storage sample_codec p fresh_load all]
    unfolding r concat.simps append.simps by blast
qed

text \<open>
  Scans are isolated and fail cleanly.  A batch, or the final call, of one execution leaves
  the state that every other execution will load as it was; a batch that cannot be read (a
  datagram column that is missing or not binary) is an error, with no rows and nothing stored;
  and each call leaves a well-formed state for the next.
\<close>

theorem executions_isolated:
  assumes "storage_laws sv" and "pp_execution_id q \<noteq> pp_execution_id p"
    and "pp_execution_id q \<noteq> GLOBAL_SCOPE"
  shows "(case decode_batch sv debug fd p now batch of
       Inl e \<Rightarrow> batch_calls debug fd now batch = Inl e
     | Inr (rows, p') \<Rightarrow>
         load_scan_cache sv (q\<lparr>pp_storage := pp_storage p'\<rparr>) = load_scan_cache sv (q\<lparr>pp_storage := pp_storage p\<rparr>)) \<and>
     load_scan_cache sv (q\<lparr>pp_storage := pp_storage (snd (flush_batch sv p))\<rparr>) =
       load_scan_cache sv (q\<lparr>pp_storage := pp_storage p\<rparr>)"
  using load_store_other [OF assms]
  by (simp add: process_calls flush_batch_def Let_def case_prod_beta split: sum.splits)

theorem executions_isolated_witness:
  "load_scan_cache sample_services (\<lparr>pp_storage = pp_storage (snd (flush_batch sample_services fresh_params)),
     pp_execution_id = [2]\<rparr>) = cache_new"
proof -
  have "pp_execution_id \<lparr>pp_storage = None, pp_execution_id = [2]\<rparr> \<noteq> pp_execution_id fresh_params"
    by (simp add: fresh_params_def)
  from executions_isolated [OF sample_storage this, of "\<lambda>_. []" fd_flows 5 "one_datagram []"]
  show ?thesis
    by (simp add: GLOBAL_SCOPE_def ascii_bytes_def load_scan_cache_def [of _ "_\<lparr>pp_storage := pp_storage fresh_params\<rparr>"])
     (simp add: fresh_params_def load_scan_cache_def sample_services_def from_bytes_def)
qed

text \<open>
  Without a storage nothing is carried from one call to the next: every batch starts from an
  empty cache, the final call flushes nothing, and so the Data Sets that were buffered in a batch
  leave no row at all.
\<close>

theorem storage_absent:
  assumes "pp_storage p = None"
  shows "fst (flush_batch sv p) = [] \<and>
    decode_batch sv debug fd p now batch =
      (case batch_calls debug fd now batch of
         Inl e \<Rightarrow> Inl e
       | Inr calls \<Rightarrow> Inr (fst (run_calls (fd_restrict fd) calls cache_new), p))"
  using assms
  by (simp add: flush_batch_def process_calls load_scan_cache_def store_scan_cache_def flush_pending_def
      drain_pending_def cache_new_def Let_def case_prod_beta split: sum.splits)

text \<open>A batch and the final call with nowhere to keep a cache.\<close>

theorem storage_absent_witness:
  "fst (flush_batch sample_services \<lparr>pp_storage = None, pp_execution_id = [1]\<rparr>) = [] \<and>
   decode_batch sample_services (\<lambda>_. []) fd_flows \<lparr>pp_storage = None, pp_execution_id = [1]\<rparr> 5 (one_datagram v9_sample) =
     Inr (fst (run_calls AnyFormat [(v9_sample, default_options\<lparr>do_now_micros := 5\<rparr>)] cache_new),
       \<lparr>pp_storage = None, pp_execution_id = [1]\<rparr>)"
  using storage_absent [of "\<lparr>pp_storage = None, pp_execution_id = [1]\<rparr>" sample_services "\<lambda>_. []" fd_flows 5
      "one_datagram v9_sample"]
  by (simp add: one_datagram_calls default_options_def) (simp add: fd_flows_def)

end
