(* ===== verification/Interleaving.thy ===== *)
theory Interleaving
  imports Scan
begin

text \<open>
  Many scans at once.  The framework may run the calls of several executions in any order against
  one storage, from which each call loads the state of its own execution and into which it stores
  it again, together with the global projection.  However the calls interleave, every execution
  gets the batches and the errors it would get alone.
\<close>

section \<open>Calls and schedules\<close>

datatype call = Batch flow_decode i64 record_batch | Finish

fun do_call ::
  "'s services \<Rightarrow> (data_type \<Rightarrow> string) \<Rightarrow> (arrow_field list \<Rightarrow> arrow_array list \<Rightarrow> string option) \<Rightarrow>
   arrow_field list \<Rightarrow> call \<Rightarrow> 's process_params \<Rightarrow> (string + record_batch list) \<times> 's process_params" where
  "do_call sv debug try_new schema (Batch fd now batch) p = process sv debug try_new fd p schema now batch"
| "do_call sv debug try_new schema Finish p = finish sv try_new p schema"

text \<open>A schedule: the calls in the order they happen, each with the execution it belongs to.\<close>

fun run_schedule ::
  "'s services \<Rightarrow> (data_type \<Rightarrow> string) \<Rightarrow> (arrow_field list \<Rightarrow> arrow_array list \<Rightarrow> string option) \<Rightarrow>
   arrow_field list \<Rightarrow> (bytes \<times> call) list \<Rightarrow> 's option \<Rightarrow> (bytes \<times> (string + record_batch list)) list" where
  "run_schedule sv debug try_new schema [] st = []"
| "run_schedule sv debug try_new schema ((ex, c) # calls) st =
     (let (out, p) = do_call sv debug try_new schema c \<lparr>pp_storage = st, pp_execution_id = ex\<rparr>
      in (ex, out) # run_schedule sv debug try_new schema calls (pp_storage p))"

definition of_execution :: "bytes \<Rightarrow> (bytes \<times> 'a) list \<Rightarrow> (bytes \<times> 'a) list" where
  "of_execution ex = filter (\<lambda>(e, _). e = ex)"

section \<open>What a call depends on\<close>

text \<open>The state an execution will load, and how a call changes it.\<close>

abbreviation loaded :: "'s services \<Rightarrow> bytes \<Rightarrow> 's option \<Rightarrow> template_cache" where
  "loaded sv ex st \<equiv> load_scan_cache sv \<lparr>pp_storage = st, pp_execution_id = ex\<rparr>"

lemma load_store_bytes:
  assumes "storage_laws sv" and "ex \<noteq> GLOBAL_SCOPE"
  shows "loaded sv ex (pp_storage (store_scan_cache sv \<lparr>pp_storage = st, pp_execution_id = ex\<rparr> c)) =
    (if st = None then cache_new else from_bytes (sv_from_slice sv) (to_bytes (sv_to_vec sv) c))"
  using assms by (auto simp: load_scan_cache_def store_scan_cache_def storage_laws_def Let_def split: option.splits)

text \<open>A call is a computation on the loaded state that may store a new one.\<close>

definition call_result ::
  "(data_type \<Rightarrow> string) \<Rightarrow> (arrow_field list \<Rightarrow> arrow_array list \<Rightarrow> string option) \<Rightarrow>
   arrow_field list \<Rightarrow> call \<Rightarrow> template_cache \<Rightarrow> (string + record_batch list) \<times> template_cache option" where
  "call_result debug try_new schema call c =
     (case call of
        Batch fd now batch \<Rightarrow>
          (case batch_calls debug fd now batch of
             Inl e \<Rightarrow> (Inl e, None)
           | Inr calls \<Rightarrow>
               let (rows, c) = run_calls (fd_restrict fd) calls c
               in (map_sum id (\<lambda>b. [b]) (rows_to_batch try_new rows schema), Some c))
      | Finish \<Rightarrow>
          let (rows, c) = flush_pending c
          in (if rows = [] then Inr [] else map_sum id (\<lambda>b. [b]) (rows_to_batch try_new rows schema), Some c))"

lemma do_call_eq:
  "do_call sv debug try_new schema call p =
     (let (out, stored) = call_result debug try_new schema call (load_scan_cache sv p)
      in (out, case stored of None \<Rightarrow> p | Some c \<Rightarrow> store_scan_cache sv p c))"
  by (cases call)
    (auto simp: call_result_def process_def process_calls finish_def flush_batch_def Let_def
      split: sum.splits prod.splits)

lemma do_call_keeps:
  "pp_storage (snd (do_call sv debug try_new schema call \<lparr>pp_storage = st, pp_execution_id = ex\<rparr>)) = None
     \<longleftrightarrow> st = None"
  by (simp add: do_call_eq Let_def case_prod_beta split: option.splits)

lemma do_call_own:
  assumes "storage_laws sv" and "ex \<noteq> GLOBAL_SCOPE" and "loaded sv ex st = loaded sv ex st'"
    and "st = None \<longleftrightarrow> st' = None"
    and "do_call sv debug try_new schema call \<lparr>pp_storage = st, pp_execution_id = ex\<rparr> = (out, p)"
    and "do_call sv debug try_new schema call \<lparr>pp_storage = st', pp_execution_id = ex\<rparr> = (out', p')"
  shows "out = out' \<and> loaded sv ex (pp_storage p) = loaded sv ex (pp_storage p')"
  using assms(3-6) load_store_bytes [OF assms(1,2)]
  by (auto simp: do_call_eq Let_def case_prod_beta split: option.splits if_splits)

lemma do_call_other:
  assumes "storage_laws sv" and "ex \<noteq> GLOBAL_SCOPE" and "ex \<noteq> ex'"
  shows "loaded sv ex (pp_storage (snd (do_call sv debug try_new schema call
      \<lparr>pp_storage = st, pp_execution_id = ex'\<rparr>))) = loaded sv ex st"
  using load_store_other [OF assms(1), of "\<lparr>pp_storage = st, pp_execution_id = ex\<rparr>"
      "\<lparr>pp_storage = st, pp_execution_id = ex'\<rparr>"] assms(2,3)
  by (simp add: do_call_eq Let_def case_prod_beta split: option.splits)

section \<open>Interleaving\<close>

lemma interleaving_alone:
  assumes "storage_laws sv" and "ex \<noteq> GLOBAL_SCOPE"
    and "loaded sv ex st = loaded sv ex st'" and "st = None \<longleftrightarrow> st' = None"
  shows "of_execution ex (run_schedule sv debug try_new schema calls st) =
    run_schedule sv debug try_new schema (of_execution ex calls) st'"
  using assms(3,4)
proof (induction calls arbitrary: st st')
  case (Cons x calls)
  obtain ex' call where x: "x = (ex', call)" by (cases x)
  let ?do = "do_call sv debug try_new schema call"
  obtain out p where s: "?do \<lparr>pp_storage = st, pp_execution_id = ex'\<rparr> = (out, p)" by force
  have some: "pp_storage p = None \<longleftrightarrow> st = None"
    using do_call_keeps [of sv debug try_new schema call st ex'] s by simp
  show ?case
  proof (cases "ex' = ex")
    case True
    obtain out' p' where s': "?do \<lparr>pp_storage = st', pp_execution_id = ex\<rparr> = (out', p')" by force
    have "pp_storage p' = None \<longleftrightarrow> st' = None"
      using do_call_keeps [of sv debug try_new schema call st' ex] s' by simp
    with Cons.IH [of "pp_storage p" "pp_storage p'"] Cons.prems some
      do_call_own [OF assms(1,2) Cons.prems s [unfolded True] s']
    show ?thesis using s s' True by (simp add: x of_execution_def)
  next
    case False
    then have "loaded sv ex (pp_storage p) = loaded sv ex st'"
      using do_call_other [OF assms(1,2), of ex' debug try_new schema call st] s Cons.prems by simp
    with Cons.IH [of "pp_storage p" st'] Cons.prems some s False show ?thesis
      by (simp add: x of_execution_def)
  qed
qed (simp add: of_execution_def)

text \<open>
  Concurrent scans do not see each other.  In any schedule of the calls of any number of
  executions against one storage, the outputs of an execution (batches, empty final calls and
  errors alike) are those of its own calls run alone on the storage as it was at the start,
  although every call also writes the global projection all of them share.
\<close>

theorem interleaving_invisible:
  assumes "storage_laws sv" and "ex \<noteq> GLOBAL_SCOPE"
  shows "of_execution ex (run_schedule sv debug try_new schema calls st) =
    run_schedule sv debug try_new schema (of_execution ex calls) st"
  by (rule interleaving_alone [OF assms refl refl])

theorem interleaving_invisible_witness:
  "of_execution [1] (run_schedule sample_services (\<lambda>_. []) checking_try_new flow_schema
       [([1], Batch fd_flows 5 (one_datagram v9_sample)), ([2], Batch fd_flows 6 (one_datagram [])),
        ([1], Finish), ([2], Finish)] (Some (\<lambda>_. None))) =
   run_schedule sample_services (\<lambda>_. []) checking_try_new flow_schema
       [([1], Batch fd_flows 5 (one_datagram v9_sample)), ([1], Finish)] (Some (\<lambda>_. None))"
proof -
  have "[1] \<noteq> GLOBAL_SCOPE" by (simp add: GLOBAL_SCOPE_def ascii_bytes_def)
  from interleaving_invisible [OF sample_storage this, of "\<lambda>_. []" checking_try_new flow_schema
      "[([1], Batch fd_flows 5 (one_datagram v9_sample)), ([2], Batch fd_flows 6 (one_datagram [])),
        ([1], Finish), ([2], Finish)]" "Some (\<lambda>_. None)"]
  show ?thesis by (simp only: of_execution_def filter.simps prod.case) simp
qed

end
