(* ===== verification/Templates.thy ===== *)
theory Templates
  imports Arrow_Map Scan
begin

text \<open>
  \<open>templates()\<close> (\<open>table/templates.rs\<close>): the read-only projection of the global template cache, one
  row per learnt template with its field specifiers as a list of structs.  The producer emits one
  batch, the whole snapshot, and then ends.  The last section relates it to the scans that fill
  the global cache.
\<close>

section \<open>Schema\<close>

definition field_struct_fields :: "arrow_field list" where
  "field_struct_fields =
     [field_new ''ie_id'' DtUInt16 False, field_new ''enterprise'' DtUInt32 False,
      field_new ''length'' DtUInt16 False, field_new ''name'' DtUtf8 False,
      field_new ''ie_type'' DtUtf8 False]"

definition fields_list_type :: data_type where
  "fields_list_type = DtList (field_new ''item'' (DtStruct field_struct_fields) False)"

definition output_schema :: "arrow_field list" where
  "output_schema =
     [
      col ''exporter'' DtUtf8
        ''Source device the template was learned from.'',
      col ''obs_domain'' DtUInt32
        ''Observation domain (v9 source-id / IPFIX) the template id is scoped to.'',
      col ''template_id'' DtUInt16
        ''The template id a Data Set references.'',
      col ''kind'' DtUtf8
        ([CHR 0x27] @ ''data' or 'options'.''),
      col ''field_count'' DtUInt32
        ''Number of field specifiers in the template.'',
      col ''fields'' fields_list_type
        ''The ordered field specifiers (ie_id, enterprise, length, name, ie_type).'',
      col ''scope_field_count'' DtUInt16
        ''Leading scope fields (options templates); 0 for data.'',
      col ''first_seen'' ts
        ''When this template id was first seen.'',
      col ''last_seen'' ts
        ''When this template was most recently seen/used.'',
      col ''use_count'' DtUInt64
        ''How many data records have been decoded against it.''
     ]"

section \<open>The producer\<close>

record templates_producer =
  tp_schema :: "arrow_field list"
  tp_cache :: template_cache
  tp_filter :: "string option"
  tp_done :: bool

definition producer ::
  "'s services \<Rightarrow> string option \<Rightarrow> 's process_params \<Rightarrow> arrow_field list \<Rightarrow> templates_producer" where
  "producer sv exporter_arg params schema =
     \<lparr>tp_schema = schema, tp_cache = global_cache sv (pp_storage params), tp_filter = exporter_arg,
      tp_done = False\<rparr>"

record template_builders =
  tb_exporter :: "cell list"
  tb_obs_domain :: "cell list"
  tb_template_id :: "cell list"
  tb_kind :: "cell list"
  tb_field_count :: "cell list"
  tb_scope_field_count :: "cell list"
  tb_first_seen :: "i64 option list"
  tb_last_seen :: "i64 option list"
  tb_use_count :: "cell list"
  tb_ie_id :: "cell list"
  tb_ent :: "cell list"
  tb_len :: "cell list"
  tb_name :: "cell list"
  tb_type :: "cell list"
  tb_offsets :: "i32 list"
  tb_running :: i32

definition template_builders_new :: template_builders where
  "template_builders_new =
     \<lparr>tb_exporter = [], tb_obs_domain = [], tb_template_id = [], tb_kind = [], tb_field_count = [],
      tb_scope_field_count = [], tb_first_seen = [], tb_last_seen = [], tb_use_count = [],
      tb_ie_id = [], tb_ent = [], tb_len = [], tb_name = [], tb_type = [],
      tb_offsets = [0], tb_running = 0\<rparr>"

definition append_field :: "field_spec \<Rightarrow> template_builders \<Rightarrow> template_builders" where
  "append_field f b =
     b\<lparr>tb_ie_id := tb_ie_id b @ [word_cell (fs_ie_id f)],
       tb_ent := tb_ent b @ [word_cell (fs_enterprise_number f)],
       tb_len := tb_len b @ [word_cell (fs_length f)],
       tb_name := tb_name b @ [CText (fs_name f)],
       tb_type := tb_type b @ [CText (fs_ie_type f)]\<rparr>"

definition append_entry :: "template_key \<Rightarrow> template_entry \<Rightarrow> template_builders \<Rightarrow> template_builders" where
  "append_entry key entry b =
     (let b = b\<lparr>tb_exporter := tb_exporter b @ [CText (tk_exporter key)],
            tb_obs_domain := tb_obs_domain b @ [word_cell (tk_obs_domain key)],
            tb_template_id := tb_template_id b @ [word_cell (tk_template_id key)],
            tb_kind := tb_kind b @ [CText (kind_as_str (te_kind entry))],
            tb_field_count := tb_field_count b @ [word_cell (of_nat (length (te_fields entry)) :: u32)],
            tb_scope_field_count := tb_scope_field_count b @ [word_cell (te_scope_field_count entry)],
            tb_first_seen := tb_first_seen b @ [Some (te_first_seen entry)],
            tb_last_seen := tb_last_seen b @ [Some (te_last_seen entry)],
            tb_use_count := tb_use_count b @ [word_cell (te_use_count entry)]\<rparr>;
          b = fold append_field (te_fields entry) b;
          running = tb_running b + of_nat (length (te_fields entry))
      in b\<lparr>tb_running := running, tb_offsets := tb_offsets b @ [running]\<rparr>)"

fun template_loop ::
  "string option \<Rightarrow> (template_key \<times> template_entry) list \<Rightarrow> template_builders \<Rightarrow> template_builders" where
  "template_loop exporter_filter [] b = b"
| "template_loop exporter_filter ((key, entry) # entries) b =
     (if (case exporter_filter of Some f \<Rightarrow> tk_exporter key \<noteq> f | None \<Rightarrow> False)
      then template_loop exporter_filter entries b
      else template_loop exporter_filter entries (append_entry key entry b))"

definition template_columns :: "template_builders \<Rightarrow> string + arrow_array list" where
  "template_columns b =
     (case finish_bytes DtUtf8 (tb_name b) of Inl e \<Rightarrow> Inl e | Inr names \<Rightarrow>
      case finish_bytes DtUtf8 (tb_type b) of Inl e \<Rightarrow> Inl e | Inr types \<Rightarrow>
      case finish_bytes DtUtf8 (tb_exporter b) of Inl e \<Rightarrow> Inl e | Inr exporters \<Rightarrow>
      case finish_bytes DtUtf8 (tb_kind b) of Inl e \<Rightarrow> Inl e | Inr kinds \<Rightarrow>
      let child = StructArray field_struct_fields
                    [Flat DtUInt16 (tb_ie_id b), Flat DtUInt32 (tb_ent b), Flat DtUInt16 (tb_len b),
                     names, types] None;
          fields_list = ListArray (field_new ''item'' (DtStruct field_struct_fields) False)
                          (tb_offsets b) child
      in Inr [exporters, Flat DtUInt32 (tb_obs_domain b), Flat DtUInt16 (tb_template_id b),
          kinds, Flat DtUInt32 (tb_field_count b), fields_list,
          Flat DtUInt16 (tb_scope_field_count b),
          Flat ts (map (opt_cell time_cell) (tb_first_seen b)),
          Flat ts (map (opt_cell time_cell) (tb_last_seen b)),
          Flat DtUInt64 (tb_use_count b)])"

definition next_batch ::
  "(arrow_field list \<Rightarrow> arrow_array list \<Rightarrow> string option) \<Rightarrow> templates_producer \<Rightarrow>
   (string + record_batch option) \<times> templates_producer" where
  "next_batch try_new p =
     (if tp_done p then (Inr None, p)
      else
        let p = p\<lparr>tp_done := True\<rparr>;
            b = template_loop (tp_filter p) (tc_entries (tp_cache p)) template_builders_new
        in (case (case template_columns b of Inl e \<Rightarrow> Inl e
                    | Inr cols \<Rightarrow> make_batch try_new (tp_schema p) cols) of
              Inl e \<Rightarrow> (Inl e, p)
            | Inr batch \<Rightarrow> (Inr (Some batch), p)))"

section \<open>What is listed\<close>

definition listed :: "string option \<Rightarrow> (template_key \<times> template_entry) list \<Rightarrow> (template_key \<times> template_entry) list" where
  "listed exporter_filter entries =
     filter (\<lambda>(key, _). case exporter_filter of Some f \<Rightarrow> tk_exporter key = f | None \<Rightarrow> True) entries"

definition field_cell :: "field_spec \<Rightarrow> cell" where
  "field_cell f = CStruct [word_cell (fs_ie_id f), word_cell (fs_enterprise_number f),
     word_cell (fs_length f), CText (fs_name f), CText (fs_ie_type f)]"

fun template_row :: "template_key \<times> template_entry \<Rightarrow> cell list" where
  "template_row (key, entry) =
     [CText (tk_exporter key), word_cell (tk_obs_domain key), word_cell (tk_template_id key),
      CText (kind_as_str (te_kind entry)), word_cell (of_nat (length (te_fields entry)) :: u32),
      CList (map field_cell (te_fields entry)), word_cell (te_scope_field_count entry),
      time_cell (te_first_seen entry), time_cell (te_last_seen entry), word_cell (te_use_count entry)]"

text \<open>
  The entries of the list column and the bytes of each column of texts are counted by 32-bit
  offsets: the templates one batch can list.
\<close>

definition listing_sizes :: "(template_key \<times> template_entry \<Rightarrow> nat) list" where
  "listing_sizes =
     [\<lambda>p. length (tk_exporter (fst p)), \<lambda>p. length (kind_as_str (te_kind (snd p))),
      \<lambda>p. length (te_fields (snd p)), \<lambda>p. sum_list (map (length \<circ> fs_name) (te_fields (snd p))),
      \<lambda>p. sum_list (map (length \<circ> fs_ie_type) (te_fields (snd p)))]"

definition listing_fits :: "(template_key \<times> template_entry) list \<Rightarrow> bool" where
  "listing_fits entries \<longleftrightarrow> list_all (\<lambda>size. sum_list (map size entries) < 2 ^ 31) listing_sizes"

definition fields_total :: "(template_key \<times> template_entry) list \<Rightarrow> nat" where
  "fields_total entries = sum_list (map (\<lambda>p. length (te_fields (snd p))) entries)"

definition builders_of :: "(template_key \<times> template_entry) list \<Rightarrow> template_builders" where
  "builders_of es =
     (let fs = concat (map (te_fields \<circ> snd) es);
          offs = map of_nat (running_offsets 0 (map (length \<circ> te_fields \<circ> snd) es))
      in \<lparr>tb_exporter = map (CText \<circ> tk_exporter \<circ> fst) es,
          tb_obs_domain = map (word_cell \<circ> tk_obs_domain \<circ> fst) es,
          tb_template_id = map (word_cell \<circ> tk_template_id \<circ> fst) es,
          tb_kind = map (CText \<circ> kind_as_str \<circ> te_kind \<circ> snd) es,
          tb_field_count = map (\<lambda>(_, e). word_cell (of_nat (length (te_fields e)) :: u32)) es,
          tb_scope_field_count = map (word_cell \<circ> te_scope_field_count \<circ> snd) es,
          tb_first_seen = map (Some \<circ> te_first_seen \<circ> snd) es,
          tb_last_seen = map (Some \<circ> te_last_seen \<circ> snd) es,
          tb_use_count = map (word_cell \<circ> te_use_count \<circ> snd) es,
          tb_ie_id = map (word_cell \<circ> fs_ie_id) fs,
          tb_ent = map (word_cell \<circ> fs_enterprise_number) fs,
          tb_len = map (word_cell \<circ> fs_length) fs,
          tb_name = map (CText \<circ> fs_name) fs,
          tb_type = map (CText \<circ> fs_ie_type) fs,
          tb_offsets = offs, tb_running = last offs\<rparr>)"

lemma fold_append_field:
  "fold append_field fs b =
     b\<lparr>tb_ie_id := tb_ie_id b @ map (word_cell \<circ> fs_ie_id) fs,
       tb_ent := tb_ent b @ map (word_cell \<circ> fs_enterprise_number) fs,
       tb_len := tb_len b @ map (word_cell \<circ> fs_length) fs,
       tb_name := tb_name b @ map (CText \<circ> fs_name) fs,
       tb_type := tb_type b @ map (CText \<circ> fs_ie_type) fs\<rparr>"
  by (induction fs arbitrary: b) (simp_all add: append_field_def)

lemma running_snoc: "running_offsets n (ks @ [k]) = running_offsets n ks @ [n + sum_list ks + k]"
  by (induction ks arbitrary: n) (simp_all add: add.assoc)

lemma append_entry_builders: "append_entry key entry (builders_of es) = builders_of (es @ [(key, entry)])"
  by (simp add: append_entry_def builders_of_def fold_append_field Let_def running_snoc last_map)

lemma template_loop_eq:
  "template_loop flt entries (builders_of es) = builders_of (es @ listed flt entries)"
proof (induction flt entries "builders_of es" arbitrary: es rule: template_loop.induct)
  case (2 flt key entry entries)
  then show ?case
    by (cases flt) (simp_all add: append_entry_builders listed_def)
qed (simp add: listed_def)

lemma template_loop_start:
  "template_loop flt entries template_builders_new = builders_of (listed flt entries)"
proof -
  have "template_builders_new = builders_of []"
    by (simp add: template_builders_new_def builders_of_def)
  then show ?thesis using template_loop_eq [of flt entries "[]"] by simp
qed

text \<open>The columns, as arrays.\<close>

definition template_arrays :: "template_builders \<Rightarrow> arrow_array list" where
  "template_arrays b =
     (let child = StructArray field_struct_fields
                    [Flat DtUInt16 (tb_ie_id b), Flat DtUInt32 (tb_ent b), Flat DtUInt16 (tb_len b),
                     Flat DtUtf8 (tb_name b), Flat DtUtf8 (tb_type b)] None;
          fields_list = ListArray (field_new ''item'' (DtStruct field_struct_fields) False)
                          (tb_offsets b) child
      in [Flat DtUtf8 (tb_exporter b), Flat DtUInt32 (tb_obs_domain b), Flat DtUInt16 (tb_template_id b),
          Flat DtUtf8 (tb_kind b), Flat DtUInt32 (tb_field_count b), fields_list,
          Flat DtUInt16 (tb_scope_field_count b),
          Flat ts (map (opt_cell time_cell) (tb_first_seen b)),
          Flat ts (map (opt_cell time_cell) (tb_last_seen b)),
          Flat DtUInt64 (tb_use_count b)])"

lemma listing_bytes:
  "byte_total (tb_exporter (builders_of es)) = sum_list (map (\<lambda>p. length (tk_exporter (fst p))) es)"
  "byte_total (tb_kind (builders_of es)) = sum_list (map (\<lambda>p. length (kind_as_str (te_kind (snd p)))) es)"
  "byte_total (tb_name (builders_of es)) =
     sum_list (map (\<lambda>p. sum_list (map (length \<circ> fs_name) (te_fields (snd p)))) es)"
  "byte_total (tb_type (builders_of es)) =
     sum_list (map (\<lambda>p. sum_list (map (length \<circ> fs_ie_type) (te_fields (snd p)))) es)"
  by (induction es) (simp_all add: builders_of_def Let_def byte_total_def comp_def)

lemma template_columns_ok:
  assumes "listing_fits es"
  shows "template_columns (builders_of es) = Inr (template_arrays (builders_of es))"
proof -
  from assms have fit: "sum_list (map size es) < 2 ^ 31" if "size \<in> set listing_sizes" for size
    using that by (simp add: listing_fits_def list_all_iff)
  have "byte_total (tb_exporter (builders_of es)) < 2 ^ 31" "byte_total (tb_kind (builders_of es)) < 2 ^ 31"
    "byte_total (tb_name (builders_of es)) < 2 ^ 31" "byte_total (tb_type (builders_of es)) < 2 ^ 31"
    unfolding listing_bytes by (rule fit, simp add: listing_sizes_def)+
  then show ?thesis
    unfolding template_columns_def template_arrays_def Let_def by (simp add: finish_bytes_ok del: finish_bytes_Inr)
qed

lemma listing_fits_fields: "listing_fits es \<Longrightarrow> fields_total es < 2 ^ 31"
  by (simp add: listing_fits_def listing_sizes_def fields_total_def)


definition fields_column :: "(template_key \<times> template_entry) list \<Rightarrow> arrow_array" where
  "fields_column es = template_arrays (builders_of es) ! 5"

lemma fields_column_props:
  "array_type (fields_column es) = fields_list_type" "array_len (fields_column es) = length es"
  by (simp_all add: fields_column_def template_arrays_def Let_def fields_list_type_def builders_of_def)

lemma fields_column_valid: "fields_total es < 2 ^ 31 \<Longrightarrow> array_valid (fields_column es)"
  using offsets_valid_running [of "map (length \<circ> te_fields \<circ> snd) es"]
  by (simp add: fields_column_def template_arrays_def Let_def builders_of_def field_struct_fields_def
      list_all_iff no_nulls_def length_concat fields_total_def comp_def case_prod_beta)

lemma fields_column_cell:
  assumes "fields_total es < 2 ^ 31" and "i < length es"
  shows "array_cell (fields_column es) i = CList (map field_cell (te_fields (snd (es ! i))))"
proof -
  let ?fs = "concat (map (te_fields \<circ> snd) es)"
  let ?child = "StructArray field_struct_fields
     [Flat DtUInt16 (map (word_cell \<circ> fs_ie_id) ?fs), Flat DtUInt32 (map (word_cell \<circ> fs_enterprise_number) ?fs),
      Flat DtUInt16 (map (word_cell \<circ> fs_length) ?fs), Flat DtUtf8 (map (CText \<circ> fs_name) ?fs),
      Flat DtUtf8 (map (CText \<circ> fs_ie_type) ?fs)] None"
  let ?xss = "map (\<lambda>e. map field_cell (te_fields (snd e))) es"
  have all: "concat ?xss = map field_cell ?fs" by (simp add: map_concat comp_def)
  have child: "array_cell ?child j = concat ?xss ! j" if "j < length (concat ?xss)" for j
    using that unfolding all by (simp add: field_cell_def)
  have col: "fields_column es = ListArray (field_new ''item'' (DtStruct field_struct_fields) False)
      (map of_nat (running_offsets 0 (map length ?xss))) ?child"
    by (simp add: fields_column_def template_arrays_def Let_def builders_of_def comp_def)
  have "sum_list (map length ?xss) < 2 ^ 31" "i < length ?xss"
    using assms by (simp_all add: fields_total_def comp_def case_prod_beta)
  from list_cells [OF this child] show ?thesis
    using assms(2) unfolding col array_cell.simps by simp
qed

lemma template_arrays_eq:
  "template_arrays (builders_of es) =
     [Flat DtUtf8 (map (CText \<circ> tk_exporter \<circ> fst) es), Flat DtUInt32 (map (word_cell \<circ> tk_obs_domain \<circ> fst) es),
      Flat DtUInt16 (map (word_cell \<circ> tk_template_id \<circ> fst) es),
      Flat DtUtf8 (map (CText \<circ> kind_as_str \<circ> te_kind \<circ> snd) es),
      Flat DtUInt32 (map (\<lambda>(_, e). word_cell (of_nat (length (te_fields e)) :: u32)) es),
      fields_column es,
      Flat DtUInt16 (map (word_cell \<circ> te_scope_field_count \<circ> snd) es),
      Flat ts (map (time_cell \<circ> te_first_seen \<circ> snd) es), Flat ts (map (time_cell \<circ> te_last_seen \<circ> snd) es),
      Flat DtUInt64 (map (word_cell \<circ> te_use_count \<circ> snd) es)]"
  by (simp add: fields_column_def template_arrays_def Let_def builders_of_def)

lemma output_schema_nullable: "\<forall>f \<in> set output_schema. field_nullable f"
  by (simp add: output_schema_def col_def)

lemma template_arrays_fit:
  assumes "fields_total es < 2 ^ 31"
  shows "batch_fits output_schema (template_arrays (builders_of es))"
  using fields_column_valid [OF assms]
  by (simp add: batch_fits_def template_arrays_eq output_schema_def col_def fields_column_props
      list_all_iff ts_def case_prod_beta)

lemma template_rows:
  assumes "fields_total es < 2 ^ 31"
  shows "batch_rows \<lparr>rb_schema = s, rb_columns = template_arrays (builders_of es)\<rparr> = map template_row es"
proof (rule batch_rows_eq)
  fix i assume i: "i < length es"
  obtain key e where e: "es ! i = (key, e)" by (cases "es ! i")
  show "map (\<lambda>a. array_cell a i) (rb_columns \<lparr>rb_schema = s, rb_columns = template_arrays (builders_of es)\<rparr>) =
      template_row (es ! i)"
    using fields_column_cell [OF assms i] i by (simp add: template_arrays_eq e)
qed (simp add: batch_len_def template_arrays_eq)

section \<open>The global projection\<close>

lemma upsert_known_or_room:
  assumes "cache_ok c" and "cache_peek c key \<noteq> None \<or> length (tc_entries c) < unat (tc_cap_entries c)"
  shows "cache_peek (upsert key entry c) = (cache_peek c)(key \<mapsto> merged_entry c key entry)"
proof -
  have "tc_entries (upsert key entry c) = bt_insert key (merged_entry c key entry) (tc_entries c)"
    using assms(1)
  proof (cases rule: upsert_entries_cases [where key = key and entry = entry])
    case evicts
    then show ?thesis
      using assms by (auto simp: cache_ok_def cache_peek_def length_bt_insert split: if_splits)
  qed
  then show ?thesis by (auto simp: cache_peek_def bt_get_insert)
qed

lemma card_entries: "bt_ok m \<Longrightarrow> card (fst ` set m) = length m"
  using distinct_card [OF bt_distinct_keys [of m]] by simp

lemma merge_peek:
  assumes "cache_ok g" and "distinct (map fst es)"
    and "card (fst ` set (tc_entries g) \<union> fst ` set es) \<le> unat (tc_cap_entries g)"
  shows "cache_peek (fold (\<lambda>(k, v) g. upsert k v g) es g) j =
    (case map_of es j of None \<Rightarrow> cache_peek g j | Some e \<Rightarrow> Some (merged_entry g j e))"
  using assms
proof (induction es arbitrary: g)
  case (Cons p es)
  obtain k v where p: "p = (k, v)" by (cases p)
  have ok: "bt_ok (tc_entries g)" using Cons.prems(1) by (simp add: cache_ok_def)
  have room: "cache_peek g k \<noteq> None \<or> length (tc_entries g) < unat (tc_cap_entries g)"
  proof (rule disjCI)
    assume "\<not> length (tc_entries g) < unat (tc_cap_entries g)"
    then have "card (fst ` set (tc_entries g) \<union> fst ` set (p # es)) \<le> card (fst ` set (tc_entries g))"
      using Cons.prems(3) card_entries [OF ok] by simp
    then have "fst ` set (tc_entries g) \<union> fst ` set (p # es) = fst ` set (tc_entries g)"
      by (metis card_seteq finite_UnI finite_imageI finite_set sup_ge1)
    then have "k \<in> fst ` set (tc_entries g)" by (auto simp: p)
    then show "cache_peek g k \<noteq> None"
      by (auto simp: cache_peek_def bt_get_def map_of_eq_None_iff)
  qed
  note peek = upsert_known_or_room [OF Cons.prems(1) room, of v]
  have keys: "fst ` set (tc_entries (upsert k v g)) = insert k (fst ` set (tc_entries g))"
  proof -
    have "map_of (tc_entries (upsert k v g)) = (map_of (tc_entries g))(k \<mapsto> merged_entry g k v)"
      using peek by (auto simp: cache_peek_def bt_get_def fun_eq_iff)
    from arg_cong [OF this, of Map.dom] show ?thesis by (simp add: dom_map_of_conv_image_fst)
  qed
  have "merged_entry (upsert k v g) j e = merged_entry g j e" if "j \<noteq> k" for e
    using that fun_cong [OF peek, of j] by (simp add: merged_entry_def cache_peek_def [symmetric])
  moreover have "map_of es k = None" using Cons.prems(2) by (simp add: p map_of_eq_None_iff)
  moreover have "cache_peek (fold (\<lambda>(k, v) g. upsert k v g) es (upsert k v g)) j =
      (case map_of es j of None \<Rightarrow> cache_peek (upsert k v g) j | Some e \<Rightarrow> Some (merged_entry (upsert k v g) j e))"
    using Cons.prems by (intro Cons.IH) (simp_all add: cache_ok_upsert keys p)
  ultimately show ?case by (auto simp: p peek split: option.splits)
qed simp

lemma merge_ok: "cache_ok g \<Longrightarrow> cache_ok (merge_entries c g)"
proof -
  have "cache_ok g \<Longrightarrow> cache_ok (fold (\<lambda>(k, v) g. upsert k v g) es g)" for es
    by (induction es arbitrary: g) (auto simp: cache_ok_upsert)
  then show "cache_ok g \<Longrightarrow> ?thesis" by (simp add: merge_entries_def)
qed

lemma global_after_store:
  assumes "storage_laws sv" and "codec_laws sv" and "pp_storage p \<noteq> None"
    and "pp_execution_id p \<noteq> GLOBAL_SCOPE" and "cache_ok (global_cache sv (pp_storage p))"
  shows "global_cache sv (pp_storage (store_scan_cache sv p c)) =
    merge_entries c (global_cache sv (pp_storage p))"
proof -
  obtain s where s: "pp_storage p = Some s" using assms(3) by auto
  have get: "sv_get sv (sv_put sv s (pp_execution_id p) CACHE_KEY b) GLOBAL_SCOPE CACHE_KEY =
      sv_get sv s GLOBAL_SCOPE CACHE_KEY" for b
    using assms(1,4) by (simp add: storage_laws_def)
  have put: "sv_get sv (sv_put sv t GLOBAL_SCOPE CACHE_KEY b) GLOBAL_SCOPE CACHE_KEY = Some b" for t b
    using assms(1) by (simp add: storage_laws_def)
  show ?thesis
    using codec_roundtrip [OF assms(2) merge_ok [OF assms(5), of c]]
    by (simp add: global_cache_def store_scan_cache_def s get put Let_def)
qed

lemma global_projection:
  assumes "storage_laws sv" and "codec_laws sv" and "pp_storage p \<noteq> None"
    and "pp_execution_id p \<noteq> GLOBAL_SCOPE" and "cache_ok (global_cache sv (pp_storage p))" and "cache_ok c"
    and "card (fst ` set (tc_entries (global_cache sv (pp_storage p))) \<union> fst ` set (tc_entries c)) \<le>
      unat (tc_cap_entries (global_cache sv (pp_storage p)))"
  shows "cache_peek (global_cache sv (pp_storage (store_scan_cache sv p c))) j =
    (case cache_peek c j of
       None \<Rightarrow> cache_peek (global_cache sv (pp_storage p)) j
     | Some e \<Rightarrow> Some (merged_entry (global_cache sv (pp_storage p)) j e))"
  using merge_peek [OF assms(5) bt_distinct_keys assms(7), of j] assms(6)
  by (simp add: global_after_store [OF assms(1-5)] merge_entries_def cache_peek_def [of c] bt_get_def cache_ok_def)

section \<open>Properties\<close>

lemma next_batch_fits:
  assumes "try_new_laws try_new" and "listing_fits (listed flt (tc_entries c))"
  shows "next_batch try_new \<lparr>tp_schema = output_schema, tp_cache = c, tp_filter = flt, tp_done = False\<rparr> =
    (Inr (Some \<lparr>rb_schema = output_schema,
       rb_columns = template_arrays (builders_of (listed flt (tc_entries c)))\<rparr>),
     \<lparr>tp_schema = output_schema, tp_cache = c, tp_filter = flt, tp_done = True\<rparr>)"
proof -
  have "try_new output_schema (template_arrays (builders_of (listed flt (tc_entries c)))) = None"
    using assms(1) template_arrays_fit [OF listing_fits_fields [OF assms(2)]]
    by (simp add: try_new_laws_def template_arrays_eq)
  then show ?thesis
    by (simp add: next_batch_def template_loop_start make_batch_def Let_def template_columns_ok [OF assms(2)])
qed

text \<open>
  C37. What \<open>templates()\<close> returns.  One batch, then the end: the batch has one row per template of
  the global cache in key order, those of the exporter only when one is given, each with its key,
  kind, statistics and the list of all its field specifiers in order.  (The texts
  and field lists of the batch fit 32-bit offsets; Arrow accepts columns that fit the schema.)
\<close>

theorem templates_listing:
  assumes "try_new_laws try_new"
    and "listing_fits (listed flt (tc_entries (global_cache sv (pp_storage params))))"
  shows "\<exists>b p. next_batch try_new (producer sv flt params output_schema) = (Inr (Some b), p) \<and>
    rb_schema b = output_schema \<and>
    batch_rows b = map template_row (listed flt (tc_entries (global_cache sv (pp_storage params)))) \<and>
    next_batch try_new p = (Inr None, p)"
  unfolding producer_def next_batch_fits [OF assms]
  by (simp add: template_rows [OF listing_fits_fields [OF assms(2)]] next_batch_def)

text \<open>A worker that has learnt one template, of exporter \<open>r\<close>.\<close>

definition taught_params where
  "taught_params = store_scan_cache sample_services fresh_params one_slot_cache"

lemma fresh_params_ok: "pp_storage fresh_params \<noteq> None" "pp_execution_id fresh_params \<noteq> GLOBAL_SCOPE"
  by (simp_all add: fresh_params_def GLOBAL_SCOPE_def ascii_bytes_def)

lemma taught_load: "load_scan_cache sample_services taught_params = one_slot_cache"
  using load_store_same [OF sample_storage sample_codec one_slot_cache_ok fresh_params_ok]
  by (simp add: taught_params_def)

lemma fresh_global: "global_cache sample_services (pp_storage fresh_params) = cache_new"
  by (simp add: global_cache_def sample_services_def fresh_params_def from_bytes_def)

lemma taught_global:
  "global_cache sample_services (pp_storage taught_params) = cache_new\<lparr>tc_entries := tc_entries one_slot_cache\<rparr>"
proof -
  have "cache_ok (global_cache sample_services (pp_storage fresh_params))"
    by (simp add: fresh_global cache_ok_new)
  from global_after_store [OF sample_storage sample_codec fresh_params_ok this] show ?thesis
    by (simp add: taught_params_def fresh_global merge_entries_def one_slot_cache_def upsert_def
        evict_if_needed_def evict_entries.simps bt_get_def cache_new_def DEFAULT_CAP_ENTRIES_def)
qed

theorem templates_listing_witness:
  "\<exists>b p. next_batch checking_try_new (producer sample_services (Some ''r'') taught_params output_schema) =
      (Inr (Some b), p) \<and>
    batch_rows b = [[CText ''r'', CInt 0, CInt 256, CText ''data'', CInt 0, CList [], CInt 0, CInt 10, CInt 10, CInt 0]]"
proof -
  have "listed (Some ''r'') (tc_entries (global_cache sample_services (pp_storage taught_params))) =
      tc_entries one_slot_cache"
    by (simp add: taught_global listed_def one_slot_cache_def)
  moreover have "listing_fits (tc_entries one_slot_cache)"
    by (simp add: listing_fits_def listing_sizes_def one_slot_cache_def)
  moreover have "map template_row (tc_entries one_slot_cache) =
      [[CText ''r'', CInt 0, CInt 256, CText ''data'', CInt 0, CList [], CInt 0, CInt 10, CInt 10, CInt 0]]"
    by (simp add: one_slot_cache_def word_cell_def time_cell_def)
  ultimately show ?thesis
    using templates_listing [OF checking_try_new_laws, of "Some ''r''" sample_services taught_params] by auto
qed

text \<open>
  C21. \<open>templates()\<close> sees what the scans learn.  After a batch, the global cache has every template
  of the scan's own cache with the layout of that cache; a template it did not have before comes
  with its statistics, one it had keeps the \<open>first_seen\<close> and the \<open>use_count\<close> it had; the other
  templates are as they were.  (While the templates of both fit the cap of the global cache.)
\<close>

theorem templates_see_scans:
  assumes "storage_laws sv" and "codec_laws sv" and "pp_storage p \<noteq> None"
    and "pp_execution_id p \<noteq> GLOBAL_SCOPE" and "scan_ok (load_scan_cache sv p)"
    and "G = global_cache sv (pp_storage p)" and "cache_ok G"
    and "decode_batch sv debug fd p now batch = Inr (rows, p')"
    and "card (fst ` set (tc_entries G) \<union> fst ` set (tc_entries (load_scan_cache sv p'))) \<le> unat (tc_cap_entries G)"
  shows "cache_peek (global_cache sv (pp_storage p')) k =
    (case cache_peek (load_scan_cache sv p') k of
       None \<Rightarrow> cache_peek G k
     | Some e \<Rightarrow>
         Some (case cache_peek G k of
                 None \<Rightarrow> e
               | Some old \<Rightarrow> e\<lparr>te_first_seen := te_first_seen old, te_use_count := te_use_count old\<rparr>))"
proof -
  obtain calls where "batch_calls debug fd now batch = Inr calls"
    and p': "p' = store_scan_cache sv p (snd (run_calls (fd_restrict fd) calls (load_scan_cache sv p)))"
    using assms(8) by (auto simp: process_calls case_prod_beta Let_def split: sum.splits)
  define c where "c = snd (run_calls (fd_restrict fd) calls (load_scan_cache sv p))"
  have ok: "cache_ok c" using run_calls_ok [OF assms(5)] by (simp add: c_def scan_ok_def)
  have load: "load_scan_cache sv p' = c"
    using load_store_same [OF assms(1,2) ok assms(3,4)] by (simp add: p' c_def)
  have p': "p' = store_scan_cache sv p c" by (simp add: p' c_def)
  have "cache_ok (global_cache sv (pp_storage p))" using assms(6,7) by simp
  from global_projection [OF assms(1-4) this ok assms(9) [unfolded load assms(6)], of k] show ?thesis
    unfolding load assms(6) by (simp add: p' merged_entry_def cache_peek_def split: option.split)
qed

lemma probe_Nil: "probe_version [] = None"
  by (simp add: probe_version_def cursor_new_def cur_u16_def cur_take_def cur_remaining_def)

theorem templates_see_scans_witness:
  "\<exists>rows p'. decode_batch sample_services (\<lambda>_. []) fd_flows taught_params 5 (one_datagram []) = Inr (rows, p') \<and>
    cache_peek (global_cache sample_services (pp_storage p')) (TemplateKey ''r'' 0 256) =
      Some \<lparr>te_kind = TkData, te_fields = [], te_scope_field_count = 0, te_first_seen = 10,
        te_last_seen = 10, te_use_count = 0\<rparr>"
proof -
  let ?G = "cache_new\<lparr>tc_entries := tc_entries one_slot_cache\<rparr>"
  have still: "snd (run_calls (fd_restrict fd_flows) [([], default_options\<lparr>do_now_micros := 5\<rparr>)] one_slot_cache) = one_slot_cache"
    by (simp add: fd_flows_def decode_datagram_def probe_Nil Let_def)
  define p' where "p' = store_scan_cache sample_services taught_params one_slot_cache"
  obtain rows where run: "decode_batch sample_services (\<lambda>_. []) fd_flows taught_params 5 (one_datagram []) = Inr (rows, p')"
    using still one_datagram_calls [of "\<lambda>_. []" 5 "[]"]
    by (simp add: process_calls taught_load p'_def default_options_def case_prod_beta Let_def)
  have st: "pp_storage taught_params \<noteq> None" "pp_execution_id taught_params \<noteq> GLOBAL_SCOPE"
    using fresh_params_ok by (simp_all add: taught_params_def)
  have load: "load_scan_cache sample_services p' = one_slot_cache"
    using load_store_same [OF sample_storage sample_codec one_slot_cache_ok st] by (simp add: p'_def)
  have "scan_ok (load_scan_cache sample_services taught_params)"
    unfolding taught_load
    by (rule scan_ok_empty [OF one_slot_cache_ok]) (simp add: pending_is_empty_def one_slot_cache_def cache_new_def)
  moreover have "cache_ok ?G"
    by (simp add: one_slot_cache_def cache_ok_def cache_new_def bt_ok_def pending_total_def
        bt_weight_def DEFAULT_CAP_PENDING_BYTES_def DEFAULT_CAP_ENTRIES_def)
  moreover have "card (fst ` set (tc_entries ?G) \<union> fst ` set (tc_entries (load_scan_cache sample_services p'))) \<le>
      unat (tc_cap_entries ?G)"
    by (simp add: load one_slot_cache_def cache_new_def DEFAULT_CAP_ENTRIES_def)
  ultimately have "cache_peek (global_cache sample_services (pp_storage p')) (TemplateKey ''r'' 0 256) =
      Some \<lparr>te_kind = TkData, te_fields = [], te_scope_field_count = 0, te_first_seen = 10,
        te_last_seen = 10, te_use_count = 0\<rparr>"
    using templates_see_scans [OF sample_storage sample_codec st _ taught_global [symmetric] _ run, of "TemplateKey ''r'' 0 256"]
    by (simp add: load) (simp add: one_slot_cache_def cache_peek_def bt_get_def)
  with run show ?thesis by blast
qed

end
