(* ===== verification/Reorder.thy ===== *)
theory Reorder
  imports Decode "HOL-Library.Multiset"
begin

text \<open>
  Reordering: export datagrams travel over UDP, so data may arrive before the template it
  needs.  This theory shows that the buffer and retry of the decoder make the order of a
  template datagram and a data datagram irrelevant to the rows of the scan.
\<close>

section \<open>Buffering a run of Data Sets\<close>

lemma pending_empty_iff: "cache_ok c \<Longrightarrow> pending_is_empty c \<longleftrightarrow> (\<forall>k. pending_of c k = [])"
proof
  assume ok: "cache_ok c" and "\<forall>k. pending_of c k = []"
  then have none: "k \<notin> set (pending_keys c)" for k using pending_keys_in(2) [OF ok, of k] by simp
  have "pending_keys c = []"
  proof (cases "pending_keys c")
    case (Cons k ks)
    with none [of k] show ?thesis by simp
  qed
  then show "pending_is_empty c" by (simp add: pending_keys_def bt_keys_def pending_is_empty_def)
qed (simp add: pending_is_empty_def pending_of_def bt_get_def)

lemma pending_total_empty: "pending_is_empty c \<Longrightarrow> pending_total c = 0"
  by (simp add: pending_is_empty_def pending_total_def bt_weight_def)

lemma push_pending_room:
  assumes "cache_ok c" and "length (pr_bytes rec) < 2 ^ 32"
    and "pending_total c + length (pr_bytes rec) \<le> unat (tc_cap_pending_bytes c)"
  shows "\<exists>c'. push_pending key rec c = (True, c') \<and> cache_ok c' \<and> tc_entries c' = tc_entries c \<and>
    tc_cap_entries c' = tc_cap_entries c \<and> tc_cap_pending_bytes c' = tc_cap_pending_bytes c \<and>
    pending_total c' = pending_total c + length (pr_bytes rec) \<and>
    (\<forall>k. pending_of c' k = pending_of c k @ (if k = key then [rec] else []))"
proof -
  obtain c' where c': "c' = snd (push_pending key rec c)" by simp
  have "push_pending key rec c = (True, c')"
    using assms(3) by (simp add: c' push_pending_eq [OF assms(1,2)])
  moreover have "cache_ok c'" unfolding c' by (rule cache_ok_push [OF assms(1,2)])
  moreover have "pending_total c' = pending_total c + length (pr_bytes rec)"
    using assms(3) pending_total_insert [OF assms(1)] by (simp add: c' push_pending_eq [OF assms(1,2)])
  moreover have "pending_of c' k = pending_of c k @ (if k = key then [rec] else [])" for k
    using assms(3) by (simp add: c' push_pending_eq [OF assms(1,2)] bt_get_insert pending_of_def [of c])
  moreover have "tc_entries c' = tc_entries c" "tc_cap_entries c' = tc_cap_entries c"
    "tc_cap_pending_bytes c' = tc_cap_pending_bytes c" by (simp_all add: c')
  ultimately show ?thesis by blast
qed

definition bodies :: "flow_set list \<Rightarrow> nat" where
  "bodies ss = sum_list (map (\<lambda>s. length (set_body s)) ss)"

context data_pass
begin

lemma pass_template_sets:
  "\<forall>s \<in> set ss. set_id s < 256 \<Longrightarrow> pass ex dm hdr now fo ss c = ([], c)"
  by (induction ss) (simp_all add: pass_Nil pass_skip)

lemma pass_buffers:
  assumes "cache_ok c" and "\<forall>s \<in> set ss. \<not> set_id s < 256 \<and> length (set_body s) < 2 ^ 32"
    and "\<forall>s \<in> set ss. cache_peek c (set_key ex dm s) = None"
    and "pending_total c + bodies ss \<le> unat (tc_cap_pending_bytes c)"
  shows "\<exists>c'. pass ex dm hdr now fo ss c = ([], c') \<and> cache_ok c' \<and> tc_entries c' = tc_entries c \<and>
    tc_cap_entries c' = tc_cap_entries c \<and>
    (\<forall>k. pending_of c' k = pending_of c k @
       map (set_pending version (uptime hdr) hdr) (filter (\<lambda>s. set_key ex dm s = k) ss))"
  using assms
proof (induction ss arbitrary: c)
  case (Cons s ss)
  let ?rec = "set_pending version (uptime hdr) hdr s"
  have body: "pr_bytes ?rec = set_body s" by (simp add: set_pending_def)
  from Cons.prems have "length (pr_bytes ?rec) < 2 ^ 32"
    "pending_total c + length (pr_bytes ?rec) \<le> unat (tc_cap_pending_bytes c)"
    by (simp_all add: body bodies_def)
  from push_pending_room [OF Cons.prems(1) this, of "set_key ex dm s"]
  obtain c1 where c1: "push_pending (set_key ex dm s) ?rec c = (True, c1)" "cache_ok c1"
    "tc_entries c1 = tc_entries c" "tc_cap_entries c1 = tc_cap_entries c"
    "tc_cap_pending_bytes c1 = tc_cap_pending_bytes c"
    "pending_total c1 = pending_total c + length (set_body s)"
    "\<forall>k. pending_of c1 k = pending_of c k @ (if k = set_key ex dm s then [?rec] else [])"
    unfolding body by blast
  then have peek: "cache_peek c1 = cache_peek c" by (simp add: cache_peek_def fun_eq_iff)
  from Cons.prems c1 peek obtain c' where c': "pass ex dm hdr now fo ss c1 = ([], c')" "cache_ok c'"
    "tc_entries c' = tc_entries c1" "tc_cap_entries c' = tc_cap_entries c1"
    "\<forall>k. pending_of c' k = pending_of c1 k @
       map (set_pending version (uptime hdr) hdr) (filter (\<lambda>s. set_key ex dm s = k) ss)"
    using Cons.IH [OF c1(2)] by (auto simp: bodies_def)
  have "data_set_step version (uptime hdr) ex dm hdr now fo s c = ([], c1)"
    using Cons.prems(3) c1(1) by (simp add: data_set_step_def use_template_eq)
  then have "pass ex dm hdr now fo (s # ss) c = ([], c')"
    using Cons.prems(2) c'(1) by (simp add: pass_step)
  then show ?case using c1 c' by auto
qed (simp add: pass_Nil)

lemma pass_known_pending:
  assumes "cache_ok c" and "\<forall>s \<in> set ss. length (set_body s) < 2 ^ 32"
    and "\<forall>s \<in> set ss. \<not> set_id s < 256 \<longrightarrow> cache_peek c (set_key ex dm s) \<noteq> None"
    and "pending_is_empty c"
  shows "pending_is_empty (snd (pass ex dm hdr now fo ss c))"
proof -
  obtain rows c' where p: "pass ex dm hdr now fo ss c = (rows, c')"
    by (cases "pass ex dm hdr now fo ss c")
  from pass_fates [OF assms(1,2) p] obtain fates
    where fates: "list_all2 (fate_ok version (uptime hdr) ex dm hdr fo c c')
        (filter (\<lambda>s. \<not> set_id s < 256) ss) fates"
      "\<forall>key. pending_of c' key = pending_of c key @ concat (map (fate_buffered key) fates)"
      "pass_frame c c'" by blast
  have known: "\<forall>s \<in> set (filter (\<lambda>s. \<not> set_id s < 256) ss). cache_peek c (set_key ex dm s) \<noteq> None"
    using assms(3) by auto
  from fates(1) known have "concat (map (fate_buffered key) fates) = []" for key
    by (induction rule: list_all2_induct) (auto simp: fate_ok_def)
  with fates(2) assms(1,4) have "\<forall>k. pending_of c' k = []" by (simp add: pending_empty_iff)
  with fates(3) p show ?thesis by (simp add: pending_empty_iff pass_frame_def)
qed

end

section \<open>Retrying them\<close>

lemma retry_loop_unknown:
  "\<forall>k \<in> set keys. cache_peek c k = None \<Longrightarrow> retry_loop keys now fo c = ([], c)"
  by (induction keys) auto

lemma mset_partition:
  "distinct ks \<Longrightarrow> f ` set xs \<subseteq> set ks \<Longrightarrow>
     mset (concat (map (\<lambda>k. concat (map g (filter (\<lambda>x. f x = k) xs))) ks)) = mset (concat (map g xs))"
proof (induction xs)
  case (Cons x xs)
  have one: "mset (concat (map (\<lambda>k. concat (map g (filter (\<lambda>x. f x = k) (x # xs)))) ks)) =
      mset (concat (map (\<lambda>k. concat (map g (filter (\<lambda>x. f x = k) xs))) ks)) +
      (if f x \<in> set ks then mset (g x) else {#})"
    using Cons.prems(1) by (induction ks) auto
  with Cons show ?case by simp
qed simp

lemma retry_ctx_pending:
  assumes "version = ''9'' \<or> version = ''10''"
  shows "retry_ctx (set_key ex dm s) (set_pending version up hdr s) = set_ctx version up ex dm hdr s"
  using assms by (auto simp: retry_ctx_def set_key_def set_pending_def set_ctx_def)

text \<open>What the Data Sets of a datagram are worth under a list of definitions.\<close>

definition defined_rows ::
  "string \<Rightarrow> u64 option \<Rightarrow> string \<Rightarrow> u32 \<Rightarrow> export_header \<Rightarrow> bool \<Rightarrow> (u16 \<times> template_entry) list \<Rightarrow>
   flow_set \<Rightarrow> flow_record list" where
  "defined_rows version up ex dm hdr fo defs s =
     decode_data_set (the (map_of (rev defs) (set_id s))) (set_body s) (set_ctx version up ex dm hdr s) fo"

lemma learnt_layout:
  assumes "cache_ok c" and "length (tc_entries c) + length defs \<le> unat (tc_cap_entries c)"
    and "set_id s \<in> fst ` set defs"
  shows "\<exists>e. cache_peek (learn_all ex dm defs c) (set_key ex dm s) = Some e \<and>
    decode_data_set e (set_body s) (set_ctx version up ex dm hdr s) fo =
      defined_rows version up ex dm hdr fo defs s"
  using learn_all_room [OF assms(1,2), of "set_key ex dm s" ex dm] assms(3)
  by (auto simp: set_key_def defined_rows_def dest: decode_data_set_cong)

lemma retry_rows_or_empty:
  assumes "cache_ok c"
  shows "fst (if pending_is_empty c then ([], c) else retry_pending c now fo) = fst (retry_pending c now fo)"
  using assms by (auto simp: pending_is_empty_def retry_pending_def pending_keys_def bt_keys_def)

lemma retry_none_known:
  assumes "cache_ok c" and "\<And>k. pending_of c k \<noteq> [] \<Longrightarrow> cache_peek c k = None"
  shows "retry_pending c now fo = ([], c)"
  using assms pending_keys_in(2) [OF assms(1)]
  by (auto simp: retry_pending_def intro!: retry_loop_unknown)

text \<open>One datagram, once its templates are known as definitions: learn, decode, retry.\<close>

definition learn_pass_retry ::
  "(string \<Rightarrow> u32 \<Rightarrow> export_header \<Rightarrow> i64 \<Rightarrow> bool \<Rightarrow> flow_set list \<Rightarrow> template_cache \<Rightarrow>
      flow_record list \<times> template_cache) \<Rightarrow>
   string \<Rightarrow> u32 \<Rightarrow> (u16 \<times> template_entry) list \<Rightarrow> i64 \<Rightarrow> bool \<Rightarrow> export_header \<Rightarrow> flow_set list \<Rightarrow>
   template_cache \<Rightarrow> flow_record list \<times> template_cache" where
  "learn_pass_retry pass ex dm defs now fo hdr sets c =
     (let (out, c) = pass ex dm hdr now fo sets (learn_all ex dm defs c)
      in if pending_is_empty c then (out, c)
         else let (rows, c) = retry_pending c now fo in (out @ rows, c))"

context data_pass
begin

lemma retry_buffered:
  assumes v: "version = ''9'' \<or> version = ''10''"
    and ok: "cache_ok c" and room: "length (tc_entries c) + length defs \<le> unat (tc_cap_entries c)"
    and ids: "\<forall>s \<in> set ss. set_id s \<in> fst ` set defs"
    and pend: "\<forall>k. pending_of c k =
       map (set_pending version (uptime hdr) hdr) (filter (\<lambda>s. set_key ex dm s = k) ss)"
  shows "mset (fst (retry_pending (learn_all ex dm defs c) now fo)) =
    mset (concat (map (defined_rows version (uptime hdr) ex dm hdr fo defs) ss))"
proof -
  let ?c = "learn_all ex dm defs c" and ?D = "defined_rows version (uptime hdr) ex dm hdr fo defs"
  obtain rows c' where r: "retry_pending ?c now fo = (rows, c')" by (cases "retry_pending ?c now fo")
  have okL: "cache_ok ?c" by (rule cache_ok_learn_all [OF ok])
  have pendL: "pending_of ?c k = pending_of c k" for k by (simp add: pending_of_def)
  have keys: "set (pending_keys ?c) = set_key ex dm ` set ss"
    using pending_keys_in(2) [OF okL] pend by (force simp: pendL filter_empty_conv)
  have layout: "\<exists>e. cache_peek ?c (set_key ex dm s) = Some e \<and>
      decode_data_set e (set_body s) (set_ctx version (uptime hdr) ex dm hdr s) fo = ?D s"
    if "s \<in> set ss" for s
    using learnt_layout [OF ok room] ids that by blast
  have known: "filter (\<lambda>k. cache_peek ?c k \<noteq> None) (pending_keys ?c) = pending_keys ?c"
    using layout keys by (intro filter_True) force
  have row: "retried_rows fo ?c k = concat (map ?D (filter (\<lambda>s. set_key ex dm s = k) ss))" for k
  proof -
    have "decode_data_set (the (cache_peek ?c k)) (pr_bytes (set_pending version (uptime hdr) hdr s))
        (retry_ctx k (set_pending version (uptime hdr) hdr s)) fo = ?D s"
      if "s \<in> set ss" "set_key ex dm s = k" for s
      using layout [OF that(1)] that(2) retry_ctx_pending [OF v, of ex dm s "uptime hdr" hdr]
      by (auto simp: set_pending_def)
    then show ?thesis
      unfolding retried_rows_def pendL pend [rule_format] map_map o_def
      by (intro arg_cong [where f = concat] map_cong refl) auto
  qed
  from retry_loop_spec [OF okL pending_keys_in(1) [OF okL] r [unfolded retry_pending_def]]
  have "rows = concat (map (retried_rows fo ?c) (filter (\<lambda>k. cache_peek ?c k \<noteq> None) (pending_keys ?c)))"
    by blast
  then have "rows = concat (map (\<lambda>k. concat (map ?D (filter (\<lambda>s. set_key ex dm s = k) ss))) (pending_keys ?c))"
    unfolding known row .
  with mset_partition [OF pending_keys_in(1) [OF okL], of "set_key ex dm" ss ?D] keys r
  show ?thesis by simp
qed

lemma pass_defined:
  assumes "cache_ok c" and "length (tc_entries c) + length defs \<le> unat (tc_cap_entries c)"
    and "\<forall>s \<in> set ss. \<not> set_id s < 256 \<and> length (set_body s) < 2 ^ 32"
    and "\<forall>s \<in> set ss. set_id s \<in> fst ` set defs" and "pending_is_empty c"
  shows "fst (pass ex dm hdr now fo ss (learn_all ex dm defs c)) =
      concat (map (defined_rows version (uptime hdr) ex dm hdr fo defs) ss)"
    and "pending_is_empty (snd (pass ex dm hdr now fo ss (learn_all ex dm defs c)))"
proof -
  let ?c = "learn_all ex dm defs c"
  have ok: "cache_ok ?c" by (rule cache_ok_learn_all [OF assms(1)])
  have len: "\<forall>s \<in> set ss. length (set_body s) < 2 ^ 32" using assms(3) by blast
  have layout: "\<exists>e. cache_peek ?c (set_key ex dm s) = Some e \<and>
      decode_data_set e (set_body s) (set_ctx version (uptime hdr) ex dm hdr s) fo =
        defined_rows version (uptime hdr) ex dm hdr fo defs s"
    if "s \<in> set ss" for s
    using learnt_layout [OF assms(1,2)] assms(4) that by blast
  have known: "\<forall>s \<in> set ss. \<not> set_id s < 256 \<longrightarrow> cache_peek ?c (set_key ex dm s) \<noteq> None"
    using layout by fastforce
  have data: "filter (\<lambda>s. \<not> set_id s < 256) ss = ss" using assms(3) by (intro filter_True) blast
  show "fst (pass ex dm hdr now fo ss ?c) =
      concat (map (defined_rows version (uptime hdr) ex dm hdr fo defs) ss)"
    unfolding pass_known [OF ok len known] data
    using layout by (intro arg_cong [where f = concat] map_cong refl) force
  have "pending_is_empty ?c" using assms(5) by (simp add: pending_is_empty_def)
  with pass_known_pending [OF ok len known]
  show "pending_is_empty (snd (pass ex dm hdr now fo ss ?c))" by blast
qed

lemma pass_reordering:
  assumes v: "version = ''9'' \<or> version = ''10''"
    and ok: "cache_ok c" and empty: "pending_is_empty c"
    and ts: "\<forall>s \<in> set ts. set_id s < 256"
    and ds: "\<forall>s \<in> set ds. \<not> set_id s < 256 \<and> length (set_body s) < 2 ^ 32"
    and room: "length (tc_entries c) + length defs \<le> unat (tc_cap_entries c)"
    and ids: "\<forall>s \<in> set ds. set_id s \<in> fst ` set defs"
    and unknown: "\<forall>s \<in> set ds. cache_peek c (set_key ex dm s) = None"
    and fits: "bodies ds \<le> unat (tc_cap_pending_bytes c)"
    and early: "learn_pass_retry pass ex dm [] now fo hdr1 ds c = (rows1, c1)"
    and late: "learn_pass_retry pass ex dm defs now fo hdr2 ts c1 = (rows2, c2)"
    and first: "learn_pass_retry pass ex dm defs now fo hdr2 ts c = (rows3, c3)"
    and then_data: "learn_pass_retry pass ex dm [] now fo hdr1 ds c3 = (rows4, c4)"
  shows "mset (rows1 @ rows2) = mset (rows3 @ rows4) \<and>
    rows3 @ rows4 = concat (map (defined_rows version (uptime hdr1) ex dm hdr1 fo defs) ds)"
proof -
  let ?L = "learn_all ex dm defs"
  have none: "\<forall>k. pending_of c k = []" using ok empty by (simp add: pending_empty_iff)
  have total: "pending_total c = 0" using ok empty by (simp add: pending_total_empty)
  have templates: "pass ex dm hdr2 now fo ts x = ([], x)" for x by (rule pass_template_sets [OF ts])
  \<comment> \<open>the data first\<close>
  from pass_buffers [OF ok ds unknown, of hdr1 now fo] fits total
  obtain p where p: "pass ex dm hdr1 now fo ds c = ([], p)" "cache_ok p"
    "tc_entries p = tc_entries c" "tc_cap_entries p = tc_cap_entries c"
    "\<forall>k. pending_of p k = map (set_pending version (uptime hdr1) hdr1) (filter (\<lambda>s. set_key ex dm s = k) ds)"
    using none by auto
  have peek: "cache_peek p = cache_peek c" using p(3) by (simp add: cache_peek_def fun_eq_iff)
  have "retry_pending p now fo = ([], p)"
    using p(5) unknown by (intro retry_none_known [OF p(2)]) (auto simp: peek filter_empty_conv)
  with early p(1) have e: "rows1 = []" "c1 = p" by (auto simp: learn_pass_retry_def split: if_splits)
  have rows2: "rows2 = fst (retry_pending (?L p) now fo)"
    using late retry_rows_or_empty [OF cache_ok_learn_all [OF p(2)], of ex dm defs now fo]
    by (auto simp: e(2) learn_pass_retry_def templates split: if_splits prod.splits)
  have "mset rows2 = mset (concat (map (defined_rows version (uptime hdr1) ex dm hdr1 fo defs) ds))"
    unfolding rows2 using retry_buffered [OF v p(2) _ ids p(5)] room p(3,4) by simp
  moreover
  \<comment> \<open>the templates first\<close>
  have emptyL: "pending_is_empty (?L c)" using empty by (simp add: pending_is_empty_def)
  with first have f: "rows3 = []" "c3 = ?L c" by (auto simp: learn_pass_retry_def templates)
  from pass_defined [OF ok room ds ids empty, of ex dm hdr1 now fo] then_data
  have rows4: "rows4 = concat (map (defined_rows version (uptime hdr1) ex dm hdr1 fo defs) ds)"
    by (auto simp: f learn_pass_retry_def split: prod.splits)
  ultimately show ?thesis using e f rows4 by simp
qed

end

section \<open>Data before its template\<close>

definition v9_datagram :: "u16 \<Rightarrow> u32 \<Rightarrow> u32 \<Rightarrow> u32 \<Rightarrow> u32 \<Rightarrow> flow_set list \<Rightarrow> bytes" where
  "v9_datagram n u secs q src sets = v9_header n u secs q src @ concat (map put_set sets)"

definition call_options :: "string \<Rightarrow> i64 \<Rightarrow> bool \<Rightarrow> decode_options" where
  "call_options ex now fo = \<lparr>do_exporter = ex, do_obs_domain_override = None,
     do_mode = (if fo then FlowsOnly else Auto), do_now_micros = now\<rparr>"

lemma call_mode: "mode_flows_only (do_mode (call_options ex now fo)) = fo"
  by (simp add: call_options_def)

definition decode_v9 :: "string \<Rightarrow> i64 \<Rightarrow> bool \<Rightarrow> bytes \<Rightarrow> template_cache \<Rightarrow> flow_record list \<times> template_cache" where
  "decode_v9 ex now fo data c = decode_datagram data (call_options ex now fo) c AnyFormat"

lemma decode_v9_written:
  assumes "\<forall>s \<in> set sets. set_fits s"
  shows "decode_v9 ex now fo (v9_datagram n u secs q src sets) c =
    learn_pass_retry v9_data_pass ex src (concat (map (v9_set_defs now) sets)) now fo (v9_hdr n u secs q src) sets c"
proof -
  have "probe_version (v9_datagram n u secs q src sets) = Some ''9''"
    by (simp add: v9_datagram_def probe_v9_header)
  moreover obtain rows c' where p: "v9_data_pass ex src (v9_hdr n u secs q src) now fo sets
        (learn_all ex src (concat (map (v9_set_defs now) sets)) c) = (rows, c')"
    by (cases "v9_data_pass ex src (v9_hdr n u secs q src) now fo sets
        (learn_all ex src (concat (map (v9_set_defs now) sets)) c)")
  moreover have "v9_decode (v9_datagram n u secs q src sets) ex None c now fo = (rows, c')"
    using v9_decode_written [OF assms, of "[]" n u secs q src ex None c now fo] p by (simp add: v9_datagram_def)
  ultimately show ?thesis
    unfolding learn_pass_retry_def by (simp add: decode_v9_def decode_datagram_def call_mode, simp add: call_options_def)
qed

lemma v9_no_defs:
  assumes "\<forall>s \<in> set sets. \<not> set_id s < 256"
  shows "concat (map (v9_set_defs now) sets) = []"
proof -
  have "v9_set_defs now s = []" if "\<not> set_id s < 256" for s
    using that unfolding v9_set_defs_def by (cases "set_id s \<in> {0, 1, 2, 3}") (elim insertE, simp_all)
  with assms show ?thesis by simp
qed

text \<open>
  The order of datagrams does not lose data: Data Sets that arrive before the templates
  they need are buffered, and the rows that come out once the templates have arrived are, as a
  multiset, the rows that come out when the templates arrive first, each decoded with the times
  and the sequence number of its own datagram.
\<close>

theorem v9_reordering:
  assumes ok: "cache_ok c" and empty: "pending_is_empty c"
    and ts: "\<forall>s \<in> set ts. set_fits s \<and> set_id s < 256"
    and ds: "\<forall>s \<in> set ds. set_fits s \<and> \<not> set_id s < 256"
    and defs: "defs = concat (map (v9_set_defs now) ts)"
    and room: "length (tc_entries c) + length defs \<le> unat (tc_cap_entries c)"
    and ids: "\<forall>s \<in> set ds. set_id s \<in> fst ` set defs"
    and unknown: "\<forall>s \<in> set ds. cache_peek c (set_key ex src s) = None"
    and fits: "bodies ds \<le> unat (tc_cap_pending_bytes c)"
    and early: "decode_v9 ex now fo (v9_datagram n1 u1 s1 q1 src ds) c = (rows1, c1)"
    and late: "decode_v9 ex now fo (v9_datagram n2 u2 s2 q2 src ts) c1 = (rows2, c2)"
    and first: "decode_v9 ex now fo (v9_datagram n2 u2 s2 q2 src ts) c = (rows3, c3)"
    and then_data: "decode_v9 ex now fo (v9_datagram n1 u1 s1 q1 src ds) c3 = (rows4, c4)"
  shows "mset (rows1 @ rows2) = mset (rows3 @ rows4) \<and>
    rows3 @ rows4 =
      concat (map (defined_rows ''9'' (Some (ucast u1)) ex src (v9_hdr n1 u1 s1 q1 src) fo defs) ds)"
proof -
  have fit: "\<forall>s \<in> set ts. set_fits s" "\<forall>s \<in> set ds. set_fits s" using ts ds by auto
  have tmpl: "\<forall>s \<in> set ts. set_id s < 256" using ts by blast
  have body: "\<forall>s \<in> set ds. \<not> set_id s < 256 \<and> length (set_body s) < 2 ^ 32"
    using ds set_fits_length by blast
  have no_defs: "concat (map (v9_set_defs now) ds) = []" using ds by (intro v9_no_defs) blast
  note written = decode_v9_written [OF fit(1)] decode_v9_written [OF fit(2), where now = now, unfolded no_defs]
  from v9_pass.pass_reordering [OF disjI1 [OF refl] ok empty tmpl body room ids unknown fits,
      OF early [unfolded written] late [unfolded written, folded defs]
        first [unfolded written, folded defs] then_data [unfolded written]]
  moreover have "map_option ucast (eh_sys_uptime (v9_hdr n1 u1 s1 q1 src)) = Some (ucast u1 :: u64)"
    by (simp add: v9_hdr_def)
  ultimately show ?thesis by (simp only:)
qed

text \<open>The sample datagram cut in two: its Data Set, and its template.\<close>

theorem v9_reordering_witness:
  "let data = v9_datagram 1 1000 1700000000 7 3 (take 1 v9_sample_sets);
       tmpl = v9_datagram 1 2000 1700000001 8 3 (drop 1 v9_sample_sets);
       d1 = decode_v9 ''r'' 10 False data cache_new;
       d2 = decode_v9 ''r'' 10 False tmpl (snd d1);
       d3 = decode_v9 ''r'' 10 False tmpl cache_new;
       d4 = decode_v9 ''r'' 10 False data (snd d3)
   in mset (fst d1 @ fst d2) = mset (fst d3 @ fst d4) \<and>
      fst d3 @ fst d4 = concat (map (defined_rows ''9'' (Some 1000) ''r'' 3 (v9_hdr 1 1000 1700000000 7 3)
        False [v9_template_def 10 (256, [(8, 4), (7, 2)])]) (take 1 v9_sample_sets))"
proof -
  have defs: "[v9_template_def 10 (256, [(8, 4), (7, 2)])] =
      concat (map (v9_set_defs 10) (drop 1 v9_sample_sets))"
    using v9_sample_defs [of 10] by (simp add: v9_sample_sets_def v9_set_defs_def)
  have u: "(ucast (1000 :: u32) :: u64) = 1000" by simp
  show ?thesis
    unfolding Let_def u [symmetric]
    by (rule v9_reordering [OF cache_ok_new _ _ _ defs _ _ _ _ prod.collapse [symmetric]
          prod.collapse [symmetric] prod.collapse [symmetric] prod.collapse [symmetric]])
      (simp_all add: v9_sample_sets_def set_fits_def length_put_v9_template cache_new_def bodies_def
        pending_is_empty_def cache_peek_def bt_get_def DEFAULT_CAP_ENTRIES_def
        DEFAULT_CAP_PENDING_BYTES_def v9_template_def_def)
qed

text \<open>The same for IPFIX, whose messages carry no uptime.\<close>

definition ipfix_datagram :: "u16 \<Rightarrow> u32 \<Rightarrow> u32 \<Rightarrow> u32 \<Rightarrow> flow_set list \<Rightarrow> bytes" where
  "ipfix_datagram l secs q d sets = ipfix_header l secs q d @ concat (map put_set sets)"

lemma decode_ipfix_written:
  assumes "\<forall>s \<in> set sets. set_fits s"
  shows "decode_datagram (ipfix_datagram l secs q d sets) (call_options ex now fo) c AnyFormat =
    learn_pass_retry ipfix_data_pass ex d (concat (map (ipfix_set_defs now) sets)) now fo (ipfix_hdr secs q d) sets c"
proof -
  have "probe_version (ipfix_datagram l secs q d sets) = Some ''10''"
    by (simp add: ipfix_datagram_def probe_ipfix_header)
  moreover obtain rows c' where p: "ipfix_data_pass ex d (ipfix_hdr secs q d) now fo sets
        (learn_all ex d (concat (map (ipfix_set_defs now) sets)) c) = (rows, c')"
    by (cases "ipfix_data_pass ex d (ipfix_hdr secs q d) now fo sets
        (learn_all ex d (concat (map (ipfix_set_defs now) sets)) c)")
  moreover have "ipfix_decode (ipfix_datagram l secs q d sets) ex None c now fo = (rows, c')"
    using ipfix_decode_written [OF assms, of "[]" l secs q d ex None c now fo] p by (simp add: ipfix_datagram_def)
  ultimately show ?thesis
    unfolding learn_pass_retry_def by (simp add: decode_datagram_def call_mode, simp add: call_options_def)
qed

lemma ipfix_no_defs:
  assumes "\<forall>s \<in> set sets. \<not> set_id s < 256"
  shows "concat (map (ipfix_set_defs now) sets) = []"
proof -
  have "ipfix_set_defs now s = []" if "\<not> set_id s < 256" for s
    using that unfolding ipfix_set_defs_def by (cases "set_id s \<in> {0, 1, 2, 3}") (elim insertE, simp_all)
  with assms show ?thesis by simp
qed

text \<open>
  The order of datagrams does not lose data in IPFIX either: variable-length and
  enterprise fields, Options Templates and all, the Data Sets of a message that came too early
  are decoded when the message with their templates comes, to the rows they would have had.
\<close>

theorem ipfix_reordering:
  assumes ok: "cache_ok c" and empty: "pending_is_empty c"
    and ts: "\<forall>s \<in> set ts. set_fits s \<and> set_id s < 256"
    and ds: "\<forall>s \<in> set ds. set_fits s \<and> \<not> set_id s < 256"
    and defs: "defs = concat (map (ipfix_set_defs now) ts)"
    and room: "length (tc_entries c) + length defs \<le> unat (tc_cap_entries c)"
    and ids: "\<forall>s \<in> set ds. set_id s \<in> fst ` set defs"
    and unknown: "\<forall>s \<in> set ds. cache_peek c (set_key ex d s) = None"
    and fits: "bodies ds \<le> unat (tc_cap_pending_bytes c)"
    and opts: "opts = call_options ex now fo"
    and early: "decode_datagram (ipfix_datagram l1 s1 q1 d ds) opts c AnyFormat = (rows1, c1)"
    and late: "decode_datagram (ipfix_datagram l2 s2 q2 d ts) opts c1 AnyFormat = (rows2, c2)"
    and first: "decode_datagram (ipfix_datagram l2 s2 q2 d ts) opts c AnyFormat = (rows3, c3)"
    and then_data: "decode_datagram (ipfix_datagram l1 s1 q1 d ds) opts c3 AnyFormat = (rows4, c4)"
  shows "mset (rows1 @ rows2) = mset (rows3 @ rows4) \<and>
    rows3 @ rows4 = concat (map (defined_rows ''10'' None ex d (ipfix_hdr s1 q1 d) fo defs) ds)"
proof -
  have fit: "\<forall>s \<in> set ts. set_fits s" "\<forall>s \<in> set ds. set_fits s" using ts ds by auto
  have tmpl: "\<forall>s \<in> set ts. set_id s < 256" using ts by blast
  have body: "\<forall>s \<in> set ds. \<not> set_id s < 256 \<and> length (set_body s) < 2 ^ 32"
    using ds set_fits_length by blast
  have no_defs: "concat (map (ipfix_set_defs now) ds) = []" using ds by (intro ipfix_no_defs) blast
  note written = decode_ipfix_written [OF fit(1)] decode_ipfix_written [OF fit(2), where now = now, unfolded no_defs]
  from ipfix_pass.pass_reordering [OF disjI2 [OF refl] ok empty tmpl body room ids unknown fits,
      OF early [unfolded opts written] late [unfolded opts written, folded defs]
        first [unfolded opts written, folded defs] then_data [unfolded opts written]]
  show ?thesis by (simp only:)
qed

text \<open>The sample message cut in two: its Data Set, and its template.\<close>

theorem ipfix_reordering_witness:
  "let data = ipfix_datagram 0 1700000000 7 3 (take 1 ipfix_sample_sets);
       tmpl = ipfix_datagram 0 1700000001 8 3 (drop 1 ipfix_sample_sets);
       d1 = decode_datagram data (call_options ''r'' 10 False) cache_new AnyFormat;
       d2 = decode_datagram tmpl (call_options ''r'' 10 False) (snd d1) AnyFormat;
       d3 = decode_datagram tmpl (call_options ''r'' 10 False) cache_new AnyFormat;
       d4 = decode_datagram data (call_options ''r'' 10 False) (snd d3) AnyFormat
   in mset (fst d1 @ fst d2) = mset (fst d3 @ fst d4) \<and>
      fst d3 @ fst d4 = concat (map (defined_rows ''10'' None ''r'' 3 (ipfix_hdr 1700000000 7 3)
        False [ipfix_template_def 10 False (256, 0, [(0, 8, 4), (6876, 890, 0xFFFF)])])
        (take 1 ipfix_sample_sets))"
proof -
  have defs: "[ipfix_template_def 10 False (256, 0, [(0, 8, 4), (6876, 890, 0xFFFF)])] =
      concat (map (ipfix_set_defs 10) (drop 1 ipfix_sample_sets))"
    using ipfix_sample_defs [of 10] by (simp add: ipfix_sample_sets_def ipfix_set_defs_def)
  show ?thesis
    unfolding Let_def
    by (rule ipfix_reordering [OF cache_ok_new _ _ _ defs _ _ _ _ refl prod.collapse [symmetric]
          prod.collapse [symmetric] prod.collapse [symmetric] prod.collapse [symmetric]])
      (simp_all add: ipfix_sample_sets_def set_fits_def put_ipfix_template_def put_ipfix_field_def
        cache_new_def bodies_def pending_is_empty_def cache_peek_def bt_get_def DEFAULT_CAP_ENTRIES_def
        DEFAULT_CAP_PENDING_BYTES_def ipfix_template_def_def)
qed

end
