(* ===== verification/Concurrency.thy ===== *)
theory Concurrency
  imports Interleaving Templates Reorder
begin

text \<open>
  Calls that overlap in time.  A call loads the state of its execution, computes, puts the new
  state, gets the global projection and puts it back with its own templates merged in
  (\<open>state.rs\<close>): four accesses to the shared storage, between which other executions may have
  theirs.  Each execution makes its calls one after the other.
\<close>

section \<open>Threads\<close>

type_synonym call_output = "string + record_batch list"

text \<open>Between calls; after the load; after the first put; after the projection has been read.\<close>

datatype phase =
    Ready
  | Loaded template_cache
  | Saved call_output template_cache
  | Fetched call_output template_cache template_cache

record thread =
  th_todo :: "call list"
  th_phase :: phase
  th_outs :: "call_output list"

record 's system =
  sy_store :: 's
  sy_threads :: "bytes \<Rightarrow> thread"

definition update_thread :: "bytes \<Rightarrow> thread \<Rightarrow> 's system \<Rightarrow> 's system" where
  "update_thread ex t s = s\<lparr>sy_threads := (sy_threads s)(ex := t)\<rparr>"

definition put_cache :: "'s services \<Rightarrow> bytes \<Rightarrow> template_cache \<Rightarrow> 's system \<Rightarrow> 's system" where
  "put_cache sv scope c s = s\<lparr>sy_store := sv_put sv (sy_store s) scope CACHE_KEY (to_bytes (sv_to_vec sv) c)\<rparr>"

text \<open>
  The parameter \<open>result\<close> is what a call computes from the loaded state: its output, and the new
  state unless it fails before storing one.
\<close>

inductive micro_step ::
  "'s services \<Rightarrow> (call \<Rightarrow> template_cache \<Rightarrow> call_output \<times> template_cache option) \<Rightarrow>
   's system \<Rightarrow> 's system \<Rightarrow> bool" for sv result where
  Load: "sy_threads s ex = \<lparr>th_todo = call # todo, th_phase = Ready, th_outs = outs\<rparr> \<Longrightarrow>
    micro_step sv result s
      (update_thread ex \<lparr>th_todo = call # todo, th_phase = Loaded (loaded sv ex (Some (sy_store s))),
         th_outs = outs\<rparr> s)"
| Fail: "sy_threads s ex = \<lparr>th_todo = call # todo, th_phase = Loaded c, th_outs = outs\<rparr> \<Longrightarrow>
    result call c = (out, None) \<Longrightarrow>
    micro_step sv result s
      (update_thread ex \<lparr>th_todo = todo, th_phase = Ready, th_outs = outs @ [out]\<rparr> s)"
| Save: "sy_threads s ex = \<lparr>th_todo = call # todo, th_phase = Loaded c, th_outs = outs\<rparr> \<Longrightarrow>
    result call c = (out, Some c') \<Longrightarrow>
    micro_step sv result s
      (update_thread ex \<lparr>th_todo = call # todo, th_phase = Saved out c', th_outs = outs\<rparr> (put_cache sv ex c' s))"
| Fetch: "sy_threads s ex = \<lparr>th_todo = call # todo, th_phase = Saved out c', th_outs = outs\<rparr> \<Longrightarrow>
    micro_step sv result s
      (update_thread ex \<lparr>th_todo = call # todo,
         th_phase = Fetched out c' (global_cache sv (Some (sy_store s))), th_outs = outs\<rparr> s)"
| Mirror: "sy_threads s ex = \<lparr>th_todo = call # todo, th_phase = Fetched out c' g, th_outs = outs\<rparr> \<Longrightarrow>
    micro_step sv result s
      (update_thread ex \<lparr>th_todo = todo, th_phase = Ready, th_outs = outs @ [out]\<rparr>
         (put_cache sv GLOBAL_SCOPE (merge_entries c' g) s))"

inductive_cases micro_stepE: "micro_step sv result s t"

definition start_system :: "'s \<Rightarrow> (bytes \<Rightarrow> call list) \<Rightarrow> 's system" where
  "start_system st prog =
     \<lparr>sy_store = st, sy_threads = (\<lambda>ex. \<lparr>th_todo = prog ex, th_phase = Ready, th_outs = []\<rparr>)\<rparr>"

inductive overlapped ::
  "'s services \<Rightarrow> (call \<Rightarrow> template_cache \<Rightarrow> call_output \<times> template_cache option) \<Rightarrow>
   's \<Rightarrow> (bytes \<Rightarrow> call list) \<Rightarrow> 's system \<Rightarrow> bool" for sv result st prog where
  Begin: "overlapped sv result st prog (start_system st prog)"
| Micro: "overlapped sv result st prog s \<Longrightarrow> micro_step sv result s t \<Longrightarrow> overlapped sv result st prog t"

text \<open>The three accesses after the load, without interruption, are \<open>store_scan_cache\<close>.\<close>

lemma accesses_compose:
  "Some (sy_store (put_cache sv GLOBAL_SCOPE
      (merge_entries c (global_cache sv (Some (sy_store (put_cache sv ex c s))))) (put_cache sv ex c s))) =
     pp_storage (store_scan_cache sv \<lparr>pp_storage = Some (sy_store s), pp_execution_id = ex\<rparr> c)"
  by (simp add: put_cache_def store_scan_cache_def global_cache_def Let_def)

section \<open>Alone\<close>

definition rehydrate :: "'s services \<Rightarrow> template_cache \<Rightarrow> template_cache" where
  "rehydrate sv c = from_bytes (sv_from_slice sv) (to_bytes (sv_to_vec sv) c)"

text \<open>The calls of one execution from a loaded state on.\<close>

fun run_alone ::
  "'s services \<Rightarrow> (call \<Rightarrow> template_cache \<Rightarrow> call_output \<times> template_cache option) \<Rightarrow> call list \<Rightarrow>
   template_cache \<Rightarrow> call_output list" where
  "run_alone sv result [] c = []"
| "run_alone sv result (call # calls) c =
     (let (out, stored) = result call c
      in out # run_alone sv result calls (case stored of None \<Rightarrow> c | Some c' \<Rightarrow> rehydrate sv c'))"

lemma loaded_put:
  assumes "storage_laws sv"
  shows "loaded sv ex (Some (sv_put sv st scope CACHE_KEY (to_bytes (sv_to_vec sv) c))) =
    (if ex = scope then rehydrate sv c else loaded sv ex (Some st))"
  using assms by (simp add: load_scan_cache_def storage_laws_def rehydrate_def)

lemma run_schedule_alone:
  assumes "storage_laws sv" and "ex \<noteq> GLOBAL_SCOPE"
  shows "run_schedule sv debug try_new schema (map (Pair ex) calls) (Some st) =
    map (Pair ex) (run_alone sv (call_result debug try_new schema) calls (loaded sv ex (Some st)))"
proof (induction calls arbitrary: st)
  case (Cons call calls)
  obtain out stored where r: "call_result debug try_new schema call (loaded sv ex (Some st)) = (out, stored)"
    by force
  show ?case
  proof (cases stored)
    case None
    with r Cons [of st] show ?thesis by (simp add: do_call_eq)
  next
    case (Some c)
    let ?p = "store_scan_cache sv \<lparr>pp_storage = Some st, pp_execution_id = ex\<rparr> c"
    obtain st' where st': "pp_storage ?p = Some st'" by (cases "pp_storage ?p") auto
    have "loaded sv ex (Some st') = rehydrate sv c"
      using load_store_bytes [OF assms, of "Some st" c] st' by (simp add: rehydrate_def)
    with r Some Cons [of st'] st' show ?thesis by (simp add: do_call_eq)
  qed
qed simp

section \<open>The invariant\<close>

text \<open>What is still to come of an execution, on top of what it has put out.\<close>

definition on_course ::
  "'s services \<Rightarrow> (call \<Rightarrow> template_cache \<Rightarrow> call_output \<times> template_cache option) \<Rightarrow> bytes \<Rightarrow>
   call_output list \<Rightarrow> 's system \<Rightarrow> bool" where
  "on_course sv result ex due s \<longleftrightarrow>
     (let t = sy_threads s ex; c = loaded sv ex (Some (sy_store s))
      in case th_phase t of
           Ready \<Rightarrow> due = th_outs t @ run_alone sv result (th_todo t) c
         | Loaded c0 \<Rightarrow> c0 = c \<and> due = th_outs t @ run_alone sv result (th_todo t) c
         | Saved out c' \<Rightarrow> due = th_outs t @ out # run_alone sv result (tl (th_todo t)) c
         | Fetched out c' g \<Rightarrow> due = th_outs t @ out # run_alone sv result (tl (th_todo t)) c)"

lemma on_course_other:
  "sy_threads t ex = sy_threads s ex \<Longrightarrow>
   loaded sv ex (Some (sy_store t)) = loaded sv ex (Some (sy_store s)) \<Longrightarrow>
   on_course sv result ex due t \<longleftrightarrow> on_course sv result ex due s"
  by (simp add: on_course_def)

lemma micro_step_on_course:
  assumes "storage_laws sv" and "ex \<noteq> GLOBAL_SCOPE" and "micro_step sv result s t"
    and "on_course sv result ex due s"
  shows "on_course sv result ex due t"
  using assms(3,4)
proof cases
  case (Load ex' call todo outs)
  with assms(4) show ?thesis by (cases "ex' = ex") (auto simp: on_course_def update_thread_def Let_def)
next
  case (Fail ex' call todo c outs out)
  with assms(4) show ?thesis by (cases "ex' = ex") (auto simp: on_course_def update_thread_def Let_def)
next
  case (Save ex' call todo c outs out c')
  with assms(4) loaded_put [OF assms(1)] show ?thesis
    by (cases "ex' = ex") (auto simp: on_course_def update_thread_def Let_def put_cache_def)
next
  case (Fetch ex' call todo out c' outs)
  with assms(4) show ?thesis by (cases "ex' = ex") (auto simp: on_course_def update_thread_def Let_def)
next
  case (Mirror ex' call todo out c' g outs)
  with assms(2,4) loaded_put [OF assms(1)] show ?thesis
    by (cases "ex' = ex") (auto simp: on_course_def update_thread_def Let_def put_cache_def)
qed

lemma overlapped_on_course:
  assumes "overlapped sv result st prog s" and "storage_laws sv" and "ex \<noteq> GLOBAL_SCOPE"
  shows "on_course sv result ex (run_alone sv result (prog ex) (loaded sv ex (Some st))) s"
  using assms(1)
proof induction
  case Begin
  show ?case by (simp add: on_course_def start_system_def)
next
  case (Micro s t)
  then show ?case by (blast intro: micro_step_on_course [OF assms(2,3)])
qed

section \<open>The projection\<close>

lemma merge_absent:
  assumes "cache_ok g" and "k \<notin> fst ` set (tc_entries c)" and "cache_peek g k = None"
  shows "cache_peek (merge_entries c g) k = None"
proof -
  have "cache_ok g \<Longrightarrow> k \<notin> fst ` set es \<Longrightarrow> cache_peek g k = None \<Longrightarrow>
      cache_peek (fold (\<lambda>(k, v) g. upsert k v g) es g) k = None" for es
  proof (induction es arbitrary: g)
    case (Cons x es)
    obtain j e where x: "x = (j, e)" by (cases x)
    have "cache_peek (upsert j e g) k = None"
      using upsert_peek_other [OF Cons.prems(1), of k j e] Cons.prems(2,3) by (auto simp: x)
    with Cons.IH [OF cache_ok_upsert [OF Cons.prems(1)]] Cons.prems(2) show ?case by (simp add: x)
  qed simp
  with assms show ?thesis by (simp add: merge_entries_def)
qed

lemma global_put:
  assumes "storage_laws sv"
  shows "global_cache sv (Some (sv_put sv st scope CACHE_KEY (to_bytes (sv_to_vec sv) c))) =
    (if scope = GLOBAL_SCOPE then rehydrate sv c else global_cache sv (Some st))"
  using assms by (auto simp: global_cache_def storage_laws_def rehydrate_def)

text \<open>Two executions, all others having nothing to do.\<close>

definition pair_system :: "bytes \<Rightarrow> bytes \<Rightarrow> 's \<Rightarrow> thread \<Rightarrow> thread \<Rightarrow> 's system" where
  "pair_system a b st ta tb = \<lparr>sy_store = st, sy_threads = (\<lambda>ex.
     if ex = a then ta else if ex = b then tb else \<lparr>th_todo = [], th_phase = Ready, th_outs = []\<rparr>)\<rparr>"

definition two_programs :: "bytes \<Rightarrow> call \<Rightarrow> bytes \<Rightarrow> call \<Rightarrow> bytes \<Rightarrow> call list" where
  "two_programs a x b y = (\<lambda>ex. if ex = a then [x] else if ex = b then [y] else [])"

definition all_finished :: "'s system \<Rightarrow> bool" where
  "all_finished s \<longleftrightarrow> (\<forall>ex. th_todo (sy_threads s ex) = [] \<and> th_phase (sy_threads s ex) = Ready)"

lemma pair_swap: "a \<noteq> b \<Longrightarrow> pair_system a b st ta tb = pair_system b a st tb ta"
  by (auto simp: pair_system_def fun_eq_iff)

lemma pair_simps:
  "sy_threads (pair_system a b st ta tb) a = ta" "sy_store (pair_system a b st ta tb) = st"
  "update_thread a t (pair_system a b st ta tb) = pair_system a b st t tb"
  "put_cache sv scope c (pair_system a b st ta tb) =
     pair_system a b (sv_put sv st scope CACHE_KEY (to_bytes (sv_to_vec sv) c)) ta tb"
  by (auto simp: pair_system_def update_thread_def put_cache_def fun_eq_iff)

lemma pair_load:
  "micro_step sv result (pair_system a b st \<lparr>th_todo = x # xs, th_phase = Ready, th_outs = os\<rparr> tb)
     (pair_system a b st \<lparr>th_todo = x # xs, th_phase = Loaded (loaded sv a (Some st)), th_outs = os\<rparr> tb)"
  using Load [of "pair_system a b st \<lparr>th_todo = x # xs, th_phase = Ready, th_outs = os\<rparr> tb" a x xs os sv result]
  by (simp add: pair_simps)

lemma pair_save:
  "result x c = (out, Some c') \<Longrightarrow>
   micro_step sv result (pair_system a b st \<lparr>th_todo = x # xs, th_phase = Loaded c, th_outs = os\<rparr> tb)
     (pair_system a b (sv_put sv st a CACHE_KEY (to_bytes (sv_to_vec sv) c'))
        \<lparr>th_todo = x # xs, th_phase = Saved out c', th_outs = os\<rparr> tb)"
  using Save [of "pair_system a b st \<lparr>th_todo = x # xs, th_phase = Loaded c, th_outs = os\<rparr> tb" a x xs c os
      result out c' sv]
  by (simp add: pair_simps)

lemma pair_fetch:
  "micro_step sv result (pair_system a b st \<lparr>th_todo = x # xs, th_phase = Saved out c', th_outs = os\<rparr> tb)
     (pair_system a b st
        \<lparr>th_todo = x # xs, th_phase = Fetched out c' (global_cache sv (Some st)), th_outs = os\<rparr> tb)"
  using Fetch [of "pair_system a b st \<lparr>th_todo = x # xs, th_phase = Saved out c', th_outs = os\<rparr> tb" a x xs out c'
      os sv result]
  by (simp add: pair_simps)

lemma pair_mirror:
  "micro_step sv result (pair_system a b st \<lparr>th_todo = x # xs, th_phase = Fetched out c' g, th_outs = os\<rparr> tb)
     (pair_system a b (sv_put sv st GLOBAL_SCOPE CACHE_KEY (to_bytes (sv_to_vec sv) (merge_entries c' g)))
        \<lparr>th_todo = xs, th_phase = Ready, th_outs = os @ [out]\<rparr> tb)"
  using Mirror [of "pair_system a b st \<lparr>th_todo = x # xs, th_phase = Fetched out c' g, th_outs = os\<rparr> tb" a x xs
      out c' g os sv result]
  by (simp add: pair_simps)

lemmas pair_steps = pair_load pair_save pair_fetch pair_mirror

text \<open>Both load, both save, both read the projection, and then both write it.\<close>

lemma overlapped_two:
  assumes laws: "storage_laws sv" and ids: "a \<noteq> b" "a \<noteq> GLOBAL_SCOPE" "b \<noteq> GLOBAL_SCOPE"
    and x: "result x (loaded sv a (Some st)) = (o1, Some c1)"
    and y: "result y (loaded sv b (Some st)) = (o2, Some c2)"
  shows "\<exists>s. overlapped sv result st (two_programs a x b y) s \<and> all_finished s \<and>
    loaded sv a (Some (sy_store s)) = rehydrate sv c1 \<and> loaded sv b (Some (sy_store s)) = rehydrate sv c2 \<and>
    global_cache sv (Some (sy_store s)) = rehydrate sv (merge_entries c2 (global_cache sv (Some st)))"
proof -
  let ?on = "overlapped sv result st (two_programs a x b y)" and ?g = "global_cache sv (Some st)"
  have swap: "pair_system b a = (\<lambda>st tb ta. pair_system a b st ta tb)"
    by (intro ext) (rule pair_swap [OF ids(1) [symmetric]])
  note left = pair_steps [where a = a and b = b and sv = sv and result = result]
  note right = pair_steps [where a = b and b = a and sv = sv and result = result, unfolded swap]
  note step = overlapped.Micro [where sv = sv and result = result and st = st and prog = "two_programs a x b y"]
  have "start_system st (two_programs a x b y) = pair_system a b st \<lparr>th_todo = [x], th_phase = Ready, th_outs = []\<rparr>
      \<lparr>th_todo = [y], th_phase = Ready, th_outs = []\<rparr>"
    by (simp add: start_system_def two_programs_def pair_system_def fun_eq_iff)
  with overlapped.Begin [of sv result st "two_programs a x b y"]
  have start: "?on (pair_system a b st \<lparr>th_todo = [x], th_phase = Ready, th_outs = []\<rparr>
      \<lparr>th_todo = [y], th_phase = Ready, th_outs = []\<rparr>)" by simp
  note loaded = step [OF step [OF start left(1)] right(1)]
  note saved = step [OF step [OF loaded left(2) [OF x]] right(2) [OF y]]
  note fetched = step [OF step [OF saved left(3)] right(3)]
  note mirrored = step [OF step [OF fetched left(4)] right(4)]
  show ?thesis
    by (rule exI, rule conjI, rule mirrored)
      (use ids in \<open>simp add: all_finished_def pair_system_def global_put [OF laws] loaded_put [OF laws]\<close>)
qed

section \<open>A concrete pair\<close>

text \<open>A datagram of one template; an execution that decodes it, while another makes its final call.\<close>

definition teaching :: bytes where
  "teaching = v9_datagram 1 2000 1700000001 8 3 (drop 1 v9_sample_sets)"

abbreviation taught_entry :: "i64 \<Rightarrow> u16 \<times> template_entry" where
  "taught_entry now \<equiv> v9_template_def now (256, [(8, 4), (7, 2)])"

lemma teaching_run:
  "run_calls AnyFormat [(teaching, call_options [] now False)] cache_new =
     ([], learn_all [] 3 [taught_entry now] cache_new)"
proof -
  let ?sets = "drop 1 v9_sample_sets" and ?hdr = "v9_hdr 1 2000 1700000001 8 3"
  have fits: "\<forall>s \<in> set ?sets. set_fits s"
    by (simp add: v9_sample_sets_def set_fits_def length_put_v9_template)
  have defs: "concat (map (v9_set_defs now) ?sets) = [taught_entry now]"
    using v9_sample_defs [of now] by (simp add: v9_sample_sets_def v9_set_defs_def)
  have pass: "v9_data_pass [] 3 ?hdr now False ?sets c = ([], c)" for c
    using v9_pass.pass_skip [of "hd ?sets" "[]" 3 ?hdr now False "[]" c] by (simp add: v9_sample_sets_def)
  have "decode_datagram teaching (call_options [] now False) cache_new AnyFormat =
      learn_pass_retry v9_data_pass [] 3 [taught_entry now] now False ?hdr ?sets cache_new"
    using decode_v9_written [OF fits, of "[]" now False 1 2000 1700000001 8 3 cache_new]
    unfolding decode_v9_def defs teaching_def .
  moreover have "pending_is_empty (learn_all [] 3 [taught_entry now] cache_new)"
    by (simp add: pending_is_empty_def cache_new_def)
  ultimately show ?thesis by (simp add: learn_pass_retry_def pass del: One_nat_def)
qed

text \<open>Their results on an empty storage.\<close>

abbreviation sample_result :: "call \<Rightarrow> template_cache \<Rightarrow> call_output \<times> template_cache option" where
  "sample_result \<equiv> call_result (\<lambda>_. []) checking_try_new flow_schema"

abbreviation sample_programs :: "bytes \<Rightarrow> call list" where
  "sample_programs \<equiv> two_programs [1] (Batch fd_flows 5 (one_datagram teaching)) [2] Finish"

lemma nothing_loaded:
  "loaded sample_services ex (Some (\<lambda>_. None)) = cache_new" "global_cache sample_services (Some (\<lambda>_. None)) = cache_new"
  by (simp_all add: load_scan_cache_def global_cache_def sample_services_def from_bytes_def)

lemma teaching_result:
  "\<exists>out. sample_result (Batch fd_flows 5 (one_datagram teaching)) (loaded sample_services [1] (Some (\<lambda>_. None))) =
     (out, Some (learn_all [] 3 [taught_entry 5] cache_new))"
proof -
  have "fd_restrict fd_flows = AnyFormat" by (simp add: fd_flows_def)
  then show ?thesis
    using teaching_run [of 5]
    by (simp add: call_result_def one_datagram_calls nothing_loaded call_options_def default_options_def
        del: run_calls.simps)
qed

lemma finish_result:
  "\<exists>out. sample_result Finish (loaded sample_services [2] (Some (\<lambda>_. None))) = (out, Some cache_new)"
  by (simp add: call_result_def nothing_loaded flush_pending_def drain_pending_def cache_new_def)

lemma sample_ids: "[1 :: 8 word] \<noteq> [2]" "[1] \<noteq> GLOBAL_SCOPE" "[2] \<noteq> GLOBAL_SCOPE"
  by (simp_all add: GLOBAL_SCOPE_def ascii_bytes_def)

section \<open>The properties\<close>

text \<open>
  C20. Overlapping scans are race-free.  Let any number of executions make their calls at the same
  time, each access to the storage falling anywhere between those of the others.  At every moment
  the outputs of an execution are the first outputs of its calls run alone on the storage as it
  was at the start, and when its last call has ended they are all of them.
\<close>

theorem overlapping_race_free:
  assumes "storage_laws sv" and "ex \<noteq> GLOBAL_SCOPE"
    and "overlapped sv (call_result debug try_new schema) st prog s"
  shows "\<exists>rest. run_schedule sv debug try_new schema (map (Pair ex) (prog ex)) (Some st) =
      map (Pair ex) (th_outs (sy_threads s ex) @ rest) \<and>
    (th_todo (sy_threads s ex) = [] \<and> th_phase (sy_threads s ex) = Ready \<longrightarrow> rest = [])"
proof -
  let ?due = "run_alone sv (call_result debug try_new schema) (prog ex) (loaded sv ex (Some st))"
  have "on_course sv (call_result debug try_new schema) ex ?due s"
    by (rule overlapped_on_course [OF assms(3,1,2)])
  then have "\<exists>rest. ?due = th_outs (sy_threads s ex) @ rest \<and>
      (th_todo (sy_threads s ex) = [] \<and> th_phase (sy_threads s ex) = Ready \<longrightarrow> rest = [])"
    by (auto simp: on_course_def Let_def split: phase.splits)
  then show ?thesis unfolding run_schedule_alone [OF assms(1,2)] by auto
qed

theorem overlapping_race_free_witness:
  "\<exists>s. overlapped sample_services sample_result (\<lambda>_. None) sample_programs s \<and> all_finished s \<and>
    run_schedule sample_services (\<lambda>_. []) checking_try_new flow_schema
        [([1], Batch fd_flows 5 (one_datagram teaching))] (Some (\<lambda>_. None)) =
      map (Pair [1]) (th_outs (sy_threads s [1]))"
proof -
  obtain o1 o2 where "sample_result (Batch fd_flows 5 (one_datagram teaching))
        (loaded sample_services [1] (Some (\<lambda>_. None))) = (o1, Some (learn_all [] 3 [taught_entry 5] cache_new))"
      "sample_result Finish (loaded sample_services [2] (Some (\<lambda>_. None))) = (o2, Some cache_new)"
    using teaching_result finish_result by blast
  from overlapped_two [OF sample_storage sample_ids this] obtain s
    where s: "overlapped sample_services sample_result (\<lambda>_. None) sample_programs s" "all_finished s" by blast
  from overlapping_race_free [OF sample_storage sample_ids(2) s(1)] s show ?thesis
    by (auto simp: all_finished_def two_programs_def)
qed

text \<open>
  C39. The projection can lose what a scan has learnt.  Two executions whose calls overlap can
  both end so that a template one of them has learnt is in its own state and not in the global
  projection that \<open>templates()\<close> reads, whatever the other execution has learnt, if neither it nor
  the projection had the template before.
\<close>

theorem projection_update_lost:
  assumes "storage_laws sv" and "codec_laws sv" and "a \<noteq> b" and "a \<noteq> GLOBAL_SCOPE" and "b \<noteq> GLOBAL_SCOPE"
    and "call_result debug try_new schema x (loaded sv a (Some st)) = (o1, Some c1)"
    and "call_result debug try_new schema y (loaded sv b (Some st)) = (o2, Some c2)"
    and "cache_ok c1" and "cache_ok c2" and "cache_ok (global_cache sv (Some st))"
    and "cache_peek c1 k = Some e" and "cache_peek c2 k = None" and "cache_peek (global_cache sv (Some st)) k = None"
  shows "\<exists>s. overlapped sv (call_result debug try_new schema) st (two_programs a x b y) s \<and> all_finished s \<and>
    cache_peek (loaded sv a (Some (sy_store s))) k = Some e \<and>
    cache_peek (global_cache sv (Some (sy_store s))) k = None"
proof -
  have id: "cache_ok c \<Longrightarrow> rehydrate sv c = c" for c
    by (simp add: rehydrate_def codec_roundtrip [OF assms(2)])
  have "k \<notin> fst ` set (tc_entries c2)"
    using assms(12) by (simp add: cache_peek_def bt_get_def map_of_eq_None_iff)
  from merge_absent [OF assms(10) this assms(13)]
  have "cache_peek (merge_entries c2 (global_cache sv (Some st))) k = None" .
  with overlapped_two [OF assms(1,3-7)] assms(8,11) show ?thesis
    by (auto simp: id merge_ok [OF assms(10)])
qed

theorem projection_update_lost_witness:
  "\<exists>s e. overlapped sample_services sample_result (\<lambda>_. None) sample_programs s \<and> all_finished s \<and>
    cache_peek (loaded sample_services [1] (Some (sy_store s))) (TemplateKey [] 3 256) = Some e \<and>
    cache_peek (global_cache sample_services (Some (sy_store s))) (TemplateKey [] 3 256) = None"
proof -
  let ?L = "learn_all [] 3 [taught_entry 5] cache_new" and ?k = "TemplateKey [] 3 256"
  obtain o1 where x: "sample_result (Batch fd_flows 5 (one_datagram teaching))
      (loaded sample_services [1] (Some (\<lambda>_. None))) = (o1, Some ?L)" using teaching_result by blast
  obtain o2 where y: "sample_result Finish (loaded sample_services [2] (Some (\<lambda>_. None))) = (o2, Some cache_new)"
    using finish_result by blast
  have absent: "cache_peek cache_new ?k = None" by (simp add: cache_peek_def cache_new_def bt_get_def)
  have "length (tc_entries cache_new) + length [taught_entry 5] \<le> unat (tc_cap_entries cache_new)"
    by (simp add: cache_new_def DEFAULT_CAP_ENTRIES_def)
  from learn_all_room [OF cache_ok_new this, of ?k "[]" 3]
  obtain e where e: "cache_peek ?L ?k = Some e" by (auto simp: v9_template_def_def)
  from projection_update_lost [OF sample_storage sample_codec sample_ids x y cache_ok_learn_all [OF cache_ok_new]
      cache_ok_new _ e absent] nothing_loaded(2) absent cache_ok_new
  show ?thesis by auto
qed

end
