(* ===== verification/Row_Laws.thy ===== *)
theory Row_Laws
  imports Decode
begin

text \<open>
  Laws of rows.  A predicate that holds of every row a record, a sample or a truncated or missing
  piece can give holds of every row that any datagram, any retry and any flush put out, except for
  the one row that gives a whole datagram up.  The locale \<open>row_law\<close> states what has to be checked
  of a predicate, and proves the rest once for all decoders.
\<close>

section \<open>Giving a datagram up\<close>

definition rejected_note :: "string \<Rightarrow> string" where
  "rejected_note v = ''decode-error:format-'' @ v @ ''-not-accepted-here''"

text \<open>Why a datagram is given up, by the note of the row that says so.\<close>

definition given_up :: "bytes \<Rightarrow> restrict \<Rightarrow> string \<Rightarrow> bool" where
  "given_up data restrict d =
     (case probe_version data of
        None \<Rightarrow> d = ''decode-error:not-a-flow-datagram''
      | Some v \<Rightarrow>
          if \<not> accepted v restrict then d = rejected_note v
          else if v = ''5'' then d = ''decode-error:bad-v5-header'' \<and> parse_header data = None
          else if v = ''9'' then
            d = ''decode-error:bad-v9-header'' \<and> parse_header data = None \<or>
            d = ''set-length-overrun'' \<and> (\<exists>e. v9_split_flowsets (drop 20 data) = Inl e)
          else if v = ''10'' then
            d = ''decode-error:bad-ipfix-header'' \<and> parse_header data = None \<or>
            d = ''bad-ipfix-set'' \<and> (\<exists>e. ipfix_split_sets (drop 16 data) = Inl e)
          else d = ''decode-error:bad-sflow-header'' \<and> sflow_agent data = None)"

text \<open>A row with nothing but its provenance and a note.\<close>

definition note_row :: "string \<Rightarrow> flow_record \<Rightarrow> bool" where
  "note_row d r \<longleftrightarrow> (\<exists>ex v dm t s. r = diagnostic ex v dm t s d)"

lemma note_row_diagnostic [simp]: "note_row d (diagnostic ex v dm t s d') \<longleftrightarrow> d = d'"
proof
  show "note_row d (diagnostic ex v dm t s d') \<Longrightarrow> d = d'"
    by (auto simp: note_row_def dest: arg_cong [where f = fr_diagnostics])
qed (unfold note_row_def, blast)

section \<open>The two passes\<close>

lemma set_ctx_version [simp]: "cx_version (set_ctx v up ex dm hdr s) = v"
  by (simp add: set_ctx_def)

text \<open>The versions that need templates, and all versions a datagram can have.\<close>

definition template_versions :: "string set" where
  "template_versions = {''9'', ''10''}"

definition flow_versions :: "string set" where
  "flow_versions = {''5'', ''sflow5''} \<union> template_versions"

lemma versions [simp]: "''9'' \<in> template_versions" "''10'' \<in> template_versions"
  "''5'' \<in> flow_versions" "''sflow5'' \<in> flow_versions" "v \<in> template_versions \<Longrightarrow> v \<in> flow_versions"
  by (auto simp: template_versions_def flow_versions_def)

lemma retry_ctx_version [simp]: "cx_version (retry_ctx key rec) \<in> template_versions"
  by (simp add: retry_ctx_def)

context data_pass
begin

lemma pass_all:
  assumes "\<And>tpl bs cx r. cx_version cx = version \<Longrightarrow> r \<in> set (decode_data_set tpl bs cx fo) \<Longrightarrow> ok r"
    and "\<And>s. ok (missing_row version ex dm hdr s)"
    and "r \<in> set (fst (pass ex dm hdr now fo ss c))"
  shows "ok r"
  using assms(3)
proof (induction ss arbitrary: c)
  case (Cons s ss)
  have "ok r" if "r \<in> set (fst (data_set_step version (uptime hdr) ex dm hdr now fo s c))"
    using that assms(1) [of "set_ctx version (uptime hdr) ex dm hdr s"] assms(2)
    by (auto simp: data_set_step_def set_ctx_version split: option.splits bool.splits prod.splits)
  with Cons show ?case
    by (cases "set_id s < 256") (auto simp: pass_skip pass_step Let_def case_prod_beta)
qed (simp add: pass_Nil)

end

section \<open>The law\<close>

locale row_law =
  fixes ok :: "flow_record \<Rightarrow> bool"
  assumes record_ok: "cx_version cx \<in> template_versions \<Longrightarrow> decode_one_record tpl cx c = Some (r, c') \<Longrightarrow> ok r"
    and truncated_ok: "v \<in> flow_versions \<Longrightarrow> ok (diagnostic ex v dm t s ''truncated'')"
    and missing_ok: "v \<in> template_versions \<Longrightarrow> ok (diagnostic ex v dm t s (missing_template dm tid))"
    and v5_ok: "ok (v5_decode_record bs ex dm hdr boot)"
    and flow_sample_ok: "r \<in> set (decode_flow_sample bs ex sub sequence expanded) \<Longrightarrow> ok r"
    and counter_sample_ok: "ok (decode_counter_sample bs ex sub sequence expanded)"
begin

lemma record_loop_ok: "cx_version cx \<in> template_versions \<Longrightarrow> r \<in> set (record_loop tpl cx c) \<Longrightarrow> ok r"
proof (induction tpl cx c rule: record_loop.induct)
  case (1 tpl cx c)
  from "1.prems"(2) show ?case
    using "1.IH" "1.prems"(1) record_ok [of cx tpl c]
    by (subst (asm) record_loop.simps)
      (fastforce simp: Let_def truncated_row_def truncated_ok split: if_splits option.splits)
qed

lemma data_set_ok: "cx_version cx \<in> template_versions \<Longrightarrow> r \<in> set (decode_data_set tpl bs cx fo) \<Longrightarrow> ok r"
  using record_loop_ok by (auto simp: decode_data_set_def split: if_splits)

lemma retry_ok: "r \<in> set (fst (retry_loop keys now fo c)) \<Longrightarrow> ok r"
proof (induction keys arbitrary: c)
  case (Cons k keys)
  then show ?case
    by (auto simp: Let_def case_prod_beta dest: data_set_ok [rotated] split: if_splits option.splits)
qed simp

lemma flush_ok: "r \<in> set (fst (flush_pending c)) \<Longrightarrow> ok r"
  by (auto simp: flush_pending_def flush_rows_def Let_def case_prod_beta missing_ok
      simp del: append_Cons simp flip: missing_template_def)

lemma missing_row_ok: "v \<in> template_versions \<Longrightarrow> ok (missing_row v ex dm hdr s)"
  by (simp add: missing_row_def missing_ok)

lemma v5_decode_ok:
  "r \<in> set (v5_decode data ex) \<Longrightarrow>
     ok r \<or> parse_header data = None \<and> note_row ''decode-error:bad-v5-header'' r"
  by (auto simp: v5_decode_def v5_loop_eq v5_ok truncated_ok Let_def case_prod_beta split: option.splits if_splits)

lemma v9_pass_ok:
  assumes "r \<in> set (fst (v9_data_pass ex dm hdr now fo ss c))"
  shows "ok r"
  by (rule v9_pass.pass_all [where ok = ok, OF _ _ assms]) (auto simp: missing_row_ok elim!: data_set_ok [rotated])

lemma ipfix_pass_ok:
  assumes "r \<in> set (fst (ipfix_data_pass ex dm hdr now fo ss c))"
  shows "ok r"
  by (rule ipfix_pass.pass_all [where ok = ok, OF _ _ assms]) (auto simp: missing_row_ok elim!: data_set_ok [rotated])

lemma v9_decode_ok:
  "r \<in> set (fst (v9_decode data ex ov c now fo)) \<Longrightarrow>
     ok r \<or>
     parse_header data = None \<and> note_row ''decode-error:bad-v9-header'' r \<or>
     (\<exists>e. v9_split_flowsets (drop 20 data) = Inl e) \<and> note_row ''set-length-overrun'' r"
  using v9_sets.split_error [of "drop 20 data"]
  by (auto simp: v9_decode_def Let_def min_def split: option.splits sum.splits if_splits
      dest: v9_pass_ok)

lemma ipfix_decode_ok:
  "r \<in> set (fst (ipfix_decode data ex ov c now fo)) \<Longrightarrow>
     ok r \<or>
     parse_header data = None \<and> note_row ''decode-error:bad-ipfix-header'' r \<or>
     (\<exists>e. ipfix_split_sets (drop 16 data) = Inl e) \<and> note_row ''bad-ipfix-set'' r"
  using ipfix_sets.split_error [of "drop 16 data"]
  by (auto simp: ipfix_decode_def Let_def min_def split: option.splits sum.splits if_splits
      dest: ipfix_pass_ok)

lemma sample_rows_ok: "r \<in> set (sample_rows ex sub s fo x) \<Longrightarrow> ok r"
  by (auto simp: sample_rows_def Let_def counter_sample_ok dest: flow_sample_ok split: if_splits)

lemma samples_loop_ok: "r \<in> set (samples_loop n c ex sub s fo) \<Longrightarrow> ok r"
proof (induction n arbitrary: c)
  case (Suc n)
  then show ?case
    unfolding samples_loop_Suc
    by (auto simp: Let_def truncated_ok dest: sample_rows_ok split: if_splits simp del: samples_loop.simps)
qed simp

lemma sflow_decode_ok:
  "r \<in> set (sflow_decode data ex fo) \<Longrightarrow>
     ok r \<or> sflow_agent data = None \<and> note_row ''decode-error:bad-sflow-header'' r"
  by (auto simp: sflow_decode_eq sflow_bad_def dest: samples_loop_ok split: option.splits)

lemma datagram_out_ok:
  "r \<in> set (fst (datagram_out data opts c restr)) \<Longrightarrow>
     ok r \<or> (\<exists>d. note_row d r \<and> given_up data restr d)"
  using probe_version_cases [of data]
  by (auto simp: datagram_out_def given_up_def accepted_def rejected_note_def Let_def
      dest!: v5_decode_ok v9_decode_ok ipfix_decode_ok sflow_decode_ok split: if_splits) blast+

theorem datagram_ok:
  "r \<in> set (fst (decode_datagram data opts c restr)) \<Longrightarrow>
     ok r \<or> (\<exists>d. note_row d r \<and> given_up data restr d)"
  using datagram_out_ok [of r data opts c restr]
  by (auto simp: decode_datagram_eq Let_def case_prod_beta retry_pending_def dest: retry_ok split: if_splits)

end

end
