(* ===== verification/Typed_Rows.thy ===== *)
theory Typed_Rows
  imports Row_Laws Arrow_Map
begin

text \<open>
  Every decoded row is typed: its addresses have the 16 bytes of the \<open>[u8; 16]\<close> they are stored in,
  whatever the datagram.  This is what the Arrow builder of the address columns expects.
\<close>

section \<open>Addresses\<close>

lemma inet_typed_inet [simp]: "inet_typed (inet4 b)" "inet_typed (inet6 b)" "inet_typed None"
  by (auto simp: inet_typed_def inet4_def inet6_def to_le_bytes_def split: option.splits)

lemma inet_typed_opt_or: "inet_typed a \<Longrightarrow> inet_typed b \<Longrightarrow> inet_typed (opt_or a b)"
  by (cases a) simp_all

lemma row_typed_notes [simp]:
  "row_typed (note_diag d r) \<longleftrightarrow> row_typed r" "row_typed (put_raw n b r) \<longleftrightarrow> row_typed r"
  "row_typed (diagnostic ex v dm t s d)" "row_typed default_record"
  by (simp_all add: row_typed_def note_diag_def put_raw_def diagnostic_def default_record_def split: option.splits)

lemma row_typed_updates [simp]:
  "row_typed (r\<lparr>fr_src_port := a1\<rparr>) = row_typed r" "row_typed (r\<lparr>fr_dst_port := a2\<rparr>) = row_typed r"
  "row_typed (r\<lparr>fr_protocol := a3\<rparr>) = row_typed r" "row_typed (r\<lparr>fr_tos := a4\<rparr>) = row_typed r"
  "row_typed (r\<lparr>fr_tcp_flags := a5\<rparr>) = row_typed r" "row_typed (r\<lparr>fr_bytes := a6\<rparr>) = row_typed r"
  "row_typed (r\<lparr>fr_packets := a7\<rparr>) = row_typed r" "row_typed (r\<lparr>fr_input_snmp := a8\<rparr>) = row_typed r"
  "row_typed (r\<lparr>fr_output_snmp := a9\<rparr>) = row_typed r" "row_typed (r\<lparr>fr_src_as := b1\<rparr>) = row_typed r"
  "row_typed (r\<lparr>fr_dst_as := b2\<rparr>) = row_typed r" "row_typed (r\<lparr>fr_src_mask := b3\<rparr>) = row_typed r"
  "row_typed (r\<lparr>fr_dst_mask := b4\<rparr>) = row_typed r" "row_typed (r\<lparr>fr_sampling_rate := b5\<rparr>) = row_typed r"
  "row_typed (r\<lparr>fr_direction := b6\<rparr>) = row_typed r" "row_typed (r\<lparr>fr_flow_start := b7\<rparr>) = row_typed r"
  "row_typed (r\<lparr>fr_flow_end := b8\<rparr>) = row_typed r" "row_typed (r\<lparr>fr_exporter := b9\<rparr>) = row_typed r"
  by (simp_all add: row_typed_def)

lemma row_typed_addresses:
  "row_typed r \<Longrightarrow> inet_typed a \<Longrightarrow> row_typed (r\<lparr>fr_src_addr := opt_or a (fr_src_addr r)\<rparr>)"
  "row_typed r \<Longrightarrow> inet_typed a \<Longrightarrow> row_typed (r\<lparr>fr_dst_addr := opt_or a (fr_dst_addr r)\<rparr>)"
  "row_typed r \<Longrightarrow> inet_typed a \<Longrightarrow> row_typed (r\<lparr>fr_next_hop := opt_or a (fr_next_hop r)\<rparr>)"
  by (simp_all add: row_typed_def inet_typed_opt_or)

section \<open>Records\<close>

lemma map_field_typed: "row_typed (st_rec st) \<Longrightarrow> row_typed (st_rec (map_field f bs st))"
  by (simp add: map_field_def Let_def row_typed_addresses)

lemma decode_fields_typed:
  "decode_fields fs st c = Some (st', c') \<Longrightarrow> row_typed (st_rec st) \<Longrightarrow> row_typed (st_rec st')"
proof (induction fs arbitrary: st c)
  case (Cons f fs)
  from Cons.prems(1) obtain bs c1 where "decode_fields fs (map_field f bs st) c1 = Some (st', c')"
    by (auto split: if_splits Option.bind_splits)
  from Cons.IH [OF this map_field_typed [OF Cons.prems(2)]] show ?case .
qed simp

lemma resolve_times_typed [simp]: "row_typed (resolve_times cx s e r) \<longleftrightarrow> row_typed r"
  by (simp add: resolve_times_def row_typed_def Let_def split: option.splits)

lemma decode_one_record_typed: "decode_one_record tpl cx c = Some (r, c') \<Longrightarrow> row_typed r"
  by (auto simp: decode_one_record_def split: Option.bind_splits dest!: decode_fields_typed)
    (simp add: base_record_def default_record_def row_typed_def)

section \<open>Samples\<close>

lemma scale_counts_typed [simp]: "row_typed (scale_counts n r rec) \<longleftrightarrow> row_typed rec"
  by (simp add: scale_counts_def row_typed_def put_raw_def Let_def)

lemma parse_l4_typed [simp]: "row_typed (parse_l4 c p rec) \<longleftrightarrow> row_typed rec"
  by (simp add: parse_l4_def row_typed_def Let_def split: prod.splits)

lemma parse_headers_typed:
  assumes "row_typed rec"
  shows "row_typed (parse_ipv4 c rec)" "row_typed (parse_ipv6 c rec)"
  using assms by (simp_all add: parse_ipv4_def parse_ipv6_def Let_def split: prod.splits option.splits)
    (simp_all add: row_typed_def)

lemma parse_l2_typed: "row_typed rec \<Longrightarrow> row_typed (parse_l2 h rec)"
  by (simp add: parse_l2_def Let_def parse_headers_typed split: prod.splits bool.splits)

lemma parse_records_typed:
  assumes "row_typed rec"
  shows "row_typed (parse_raw_header b r rec)" "row_typed (parse_sampled_ipv4 b r rec)"
    "row_typed (parse_sampled_ipv6 b r rec)"
  using assms
  by (simp_all add: parse_raw_header_def parse_sampled_ipv4_def parse_sampled_ipv6_def Let_def parse_l2_typed
      split: prod.splits) (simp_all add: row_typed_def)

lemma flow_records_loop_typed: "row_typed rec \<Longrightarrow> row_typed (flow_records_loop n c r rec)"
proof (induction n arbitrary: c rec)
  case (Suc n)
  then show ?case by (simp add: Let_def parse_records_typed split: prod.splits option.splits)
qed simp

lemma counter_records_loop_typed [simp]: "row_typed (counter_records_loop n c rec) \<longleftrightarrow> row_typed rec"
  by (induction n arbitrary: c rec) (simp_all add: Let_def split: prod.splits option.splits)

lemma flow_sample_typed: "r \<in> set (decode_flow_sample b ex d s x) \<Longrightarrow> row_typed r"
  by (auto simp: decode_flow_sample_def Let_def default_record_def row_typed_def [of "_\<lparr>fr_exporter := _\<rparr>"]
      intro!: flow_records_loop_typed split: prod.splits) (simp_all add: row_typed_def)

lemma counter_sample_typed: "row_typed (decode_counter_sample b ex d s x)"
  by (simp add: decode_counter_sample_def Let_def split: prod.splits) (simp add: row_typed_def default_record_def)

section \<open>All rows\<close>

interpretation typed_law: row_law row_typed
proof
  show "row_typed (v5_decode_record bs ex dm hdr boot)" for bs ex dm hdr boot
    by (simp add: v5_decode_record_def Let_def row_typed_def split: prod.splits)
qed (simp_all add: decode_one_record_typed flow_sample_typed counter_sample_typed)

lemma note_row_typed: "note_row d r \<Longrightarrow> row_typed r"
  by (auto simp: note_row_def)

lemma datagram_typed: "list_all row_typed (fst (decode_datagram data opts c restr))"
  using typed_law.datagram_ok [of _ data opts c restr] note_row_typed by (auto simp: list_all_iff)

lemma flush_typed: "list_all row_typed (fst (flush_pending c))"
  using typed_law.flush_ok [of _ c] by (auto simp: list_all_iff)

lemma flush_raw: "raw_total (fst (flush_pending c)) = 0"
  by (auto simp: raw_total_def flush_pending_def flush_rows_def Let_def case_prod_beta diagnostic_def default_record_def)

end
