(* ===== verification/Pipeline.thy ===== *)
theory Pipeline
  imports Scan Typed_Rows Reorder
begin

text \<open>
  The worker from end to end: what the engine receives for an input relation, from the bytes of
  the datagram column to the cells of the Arrow batches that come back.  The calls of \<open>process\<close> and
  the final \<open>finish\<close> are taken as the framework makes them, each with the storage the last one left.
\<close>

section \<open>All calls of a scan\<close>

fun run_worker ::
  "'s services \<Rightarrow> (data_type \<Rightarrow> string) \<Rightarrow> (arrow_field list \<Rightarrow> arrow_array list \<Rightarrow> string option) \<Rightarrow>
   flow_decode \<Rightarrow> arrow_field list \<Rightarrow> (i64 \<times> record_batch) list \<Rightarrow> 's process_params \<Rightarrow>
   string + record_batch list" where
  "run_worker sv debug try_new fd schema [] params = fst (finish sv try_new params schema)"
| "run_worker sv debug try_new fd schema ((now, batch) # batches) params =
     (case process sv debug try_new fd params schema now batch of
        (Inl e, _) \<Rightarrow> Inl e
      | (Inr out, params) \<Rightarrow>
          (case run_worker sv debug try_new fd schema batches params of
             Inl e \<Rightarrow> Inl e
           | Inr rest \<Rightarrow> Inr (out @ rest)))"

text \<open>The specification: the datagrams decoded in order against one cache, then the flush.\<close>

definition scan_rows :: "restrict \<Rightarrow> (bytes \<times> decode_options) list \<Rightarrow> template_cache \<Rightarrow> flow_record list" where
  "scan_rows r calls c = (let (rows, c) = run_calls r calls c in rows @ fst (flush_pending c))"

lemma scan_rows_append:
  "scan_rows r (xs @ ys) c = fst (run_calls r xs c) @ scan_rows r ys (snd (run_calls r xs c))"
  by (simp add: scan_rows_def run_calls_append Let_def case_prod_beta)

lemma run_calls_typed: "list_all row_typed (fst (run_calls r calls c))"
  by (induction calls arbitrary: c) (auto simp: Let_def case_prod_beta datagram_typed)

definition cells_of :: "record_batch list \<Rightarrow> cell list list" where
  "cells_of out = concat (map batch_rows out)"

lemma run_worker_exact:
  assumes "storage_laws sv" and "codec_laws sv" and "try_new_laws try_new" and "scan_params p"
    and "scan_ok (load_scan_cache sv p)"
    and "list_all2 (\<lambda>(now, batch) calls. batch_calls debug fd now batch = Inr calls) batches css"
    and "rows_fit (scan_rows (fd_restrict fd) (concat css) (load_scan_cache sv p))"
  shows "\<exists>out. run_worker sv debug try_new fd flow_schema batches p = Inr out \<and>
    cells_of out = map row_cells (scan_rows (fd_restrict fd) (concat css) (load_scan_cache sv p))"
  using assms(6,4,5,7)
proof (induction batches css arbitrary: p rule: list_all2_induct)
  case Nil
  obtain rows q where flush: "flush_batch sv p = (rows, q)" by (cases "flush_batch sv p")
  then have rows: "rows = fst (flush_pending (load_scan_cache sv p))"
    by (auto simp: flush_batch_def Let_def case_prod_beta)
  have "list_all row_typed rows" by (simp add: rows flush_typed)
  moreover have fit: "rows_fit rows" using Nil.prems(3) by (simp add: scan_rows_def rows)
  ultimately show ?case using finish_emits [OF assms(3) _ _ flush] flow_batch_rows [OF rows_fit_raw [OF fit]]
    by (auto simp: scan_rows_def cells_of_def simp flip: rows)
next
  case (Cons b batches calls css)
  obtain now batch where b: "b = (now, batch)" by (cases b)
  let ?r = "fd_restrict fd" and ?c = "load_scan_cache sv p"
  obtain rows c where run: "run_calls ?r calls ?c = (rows, c)" by (cases "run_calls ?r calls ?c")
  let ?q = "store_scan_cache sv p c"
  have ok: "scan_ok c" using run_calls_ok [OF Cons.prems(2), of ?r calls] run by simp
  have load: "load_scan_cache sv ?q = c"
    using load_store_same [OF assms(1,2)] ok Cons.prems(1) by (simp add: scan_ok_def scan_params_def)
  have split: "scan_rows ?r (concat (calls # css)) ?c = rows @ scan_rows ?r (concat css) c"
    by (simp add: scan_rows_append run)
  have typed: "list_all row_typed rows" using run_calls_typed [of ?r calls ?c] run by simp
  have small: "rows_fit rows" "rows_fit (scan_rows ?r (concat css) c)"
    using rows_fit_append [OF Cons.prems(3) [unfolded split]] by simp_all
  have "decode_batch sv debug fd p now batch = Inr (rows, ?q)"
    using Cons.hyps(1) run by (simp add: b process_calls)
  from process_emits [OF assms(3) typed small(1) this] flow_batch_rows [OF rows_fit_raw [OF small(1)]]
    Cons.IH [of ?q] Cons.prems(1) ok load small(2)
  show ?case unfolding split by (auto simp: b cells_of_def)
qed

text \<open>
  C6. End to end.  The scan of an input relation whose batches can be read succeeds, and the batches
  the engine receives, read back cell by cell, are the rows of the specification in their order and
  nothing else: the datagrams of all batches decoded one after the other against a single cache,
  then the report of what is still buffered.  No row is lost, doubled or altered between the
  decoder and the engine, whatever the cuts of the relation.  (Storage, codec and Arrow keep their
  documented laws; the texts and raw fields of the scan fit Arrow's 32-bit offsets.)
\<close>

theorem worker_exact:
  assumes "storage_laws sv" and "codec_laws sv" and "try_new_laws try_new"
    and "pp_storage p \<noteq> None" and "pp_execution_id p \<noteq> GLOBAL_SCOPE"
    and "load_scan_cache sv p = cache_new"
    and "list_all2 (\<lambda>(now, batch) calls. batch_calls debug fd now batch = Inr calls) batches css"
    and "rows_fit (scan_rows (fd_restrict fd) (concat css) cache_new)"
  shows "\<exists>out. run_worker sv debug try_new fd flow_schema batches p = Inr out \<and>
    cells_of out = map row_cells (scan_rows (fd_restrict fd) (concat css) cache_new)"
proof -
  have "scan_params p" using assms(4,5) by (simp add: scan_params_def)
  from run_worker_exact [OF assms(1-3) this _ assms(7)] assms(6,8) scan_ok_new
  show ?thesis by simp
qed

text \<open>A datagram of one Data Set whose template never comes: its only row is the report of the flush.\<close>

definition orphan :: bytes where
  "orphan = v9_datagram 1 1000 1700000000 7 3 (take 1 v9_sample_sets)"

abbreviation orphan_row :: flow_record where
  "orphan_row \<equiv> missing_row ''9'' [] 3 (v9_hdr 1 1000 1700000000 7 3) (hd v9_sample_sets)"

lemma orphan_waits:
  "\<exists>p. run_calls AnyFormat [(orphan, call_options [] now False)] cache_new = ([], p) \<and>
     fst (flush_pending p) = [orphan_row]"
proof -
  let ?sets = "take 1 v9_sample_sets" and ?hdr = "v9_hdr 1 1000 1700000000 7 3"
  let ?k = "set_key [] 3 (hd v9_sample_sets)"
  have fits: "\<forall>s \<in> set ?sets. set_fits s" and data: "\<forall>s \<in> set ?sets. \<not> set_id s < 256"
    by (simp_all add: v9_sample_sets_def set_fits_def)
  have "\<forall>s \<in> set ?sets. cache_peek cache_new (set_key [] 3 s) = None"
    by (simp add: cache_peek_def cache_new_def bt_get_def)
  moreover have "pending_total cache_new + bodies ?sets \<le> unat (tc_cap_pending_bytes cache_new)"
    by (simp add: pending_total_empty pending_is_empty_def cache_new_def bodies_def v9_sample_sets_def
        DEFAULT_CAP_PENDING_BYTES_def)
  ultimately obtain p where p: "v9_data_pass [] 3 ?hdr now False ?sets cache_new = ([], p)" "cache_ok p"
    "tc_entries p = tc_entries cache_new"
    "\<forall>k. pending_of p k = pending_of cache_new k @
       map (set_pending ''9'' (map_option ucast (eh_sys_uptime ?hdr)) ?hdr) (filter (\<lambda>s. set_key [] 3 s = k) ?sets)"
    using v9_pass.pass_buffers [OF cache_ok_new, of ?sets "[]" 3 ?hdr now False] fits data set_fits_length
    by blast
  have "cache_peek p k = None" for k using p(3) by (simp add: cache_peek_def cache_new_def bt_get_def)
  with retry_none_known [OF p(2)] have "retry_pending p now False = ([], p)" by blast
  moreover have "decode_datagram orphan (call_options [] now False) cache_new AnyFormat =
      learn_pass_retry v9_data_pass [] 3 [] now False ?hdr ?sets cache_new"
    using decode_v9_written [OF fits, of "[]" now False 1 1000 1700000000 7 3 cache_new]
    unfolding decode_v9_def v9_no_defs [OF data] orphan_def .
  ultimately have run: "run_calls AnyFormat [(orphan, call_options [] now False)] cache_new = ([], p)"
    by (simp add: learn_pass_retry_def p(1) del: One_nat_def)
  have held: "pending_of p k = (if k = ?k
      then [set_pending ''9'' (map_option ucast (eh_sys_uptime ?hdr)) ?hdr (hd v9_sample_sets)] else [])" for k
    using p(4) by (simp add: pending_of_def cache_new_def bt_get_def v9_sample_sets_def)
  have "k \<in> set (pending_keys p) \<longleftrightarrow> k = ?k" for k
    using pending_keys_in(2) [OF p(2), of k] held [of k] by (auto split: if_splits)
  then have "set (pending_keys p) = {?k}" by blast
  with pending_keys_in(1) [OF p(2)] have keys: "pending_keys p = [?k]"
    by (cases "pending_keys p") (auto simp: subset_singleton_iff)
  have "fst (flush_pending p) = [orphan_row]"
    by (simp add: flush_by_key [OF p(2)] keys flushed_rows_def held missing_row_def set_pending_def set_key_def)
  with run show ?thesis by blast
qed

lemma orphan_scan: "scan_rows AnyFormat [(orphan, call_options [] now False)] cache_new = [orphan_row]"
  using orphan_waits [of now] by (auto simp: scan_rows_def simp del: run_calls.simps)

lemma orphan_row_fits: "rows_fit [orphan_row]"
  by (simp add: rows_fit_def row_sizes_def missing_row_def diagnostic_def default_record_def missing_template_def
      dec_of_word_def dec_of_nat.simps v9_sample_sets_def)

theorem worker_exact_witness:
  "\<exists>out. run_worker sample_services (\<lambda>_. []) checking_try_new fd_flows flow_schema [(5, one_datagram orphan)]
       fresh_params = Inr out \<and>
     cells_of out = [row_cells orphan_row]"
proof -
  have p: "pp_storage fresh_params \<noteq> None" "pp_execution_id fresh_params \<noteq> GLOBAL_SCOPE"
    by (simp_all add: fresh_params_def GLOBAL_SCOPE_def ascii_bytes_def)
  have all: "list_all2 (\<lambda>(now, batch) calls. batch_calls (\<lambda>_. []) fd_flows now batch = Inr calls)
      [(5, one_datagram orphan)] [[(orphan, call_options [] 5 False)]]"
    by (simp add: one_datagram_calls call_options_def)
  have r: "fd_restrict fd_flows = AnyFormat" by (simp add: fd_flows_def)
  have small: "rows_fit (scan_rows (fd_restrict fd_flows) (concat [[(orphan, call_options [] 5 False)]]) cache_new)"
    using orphan_row_fits by (simp add: r orphan_scan del: call_options_def)
  show ?thesis
    using worker_exact [OF sample_storage sample_codec checking_try_new_laws p fresh_load all small]
    unfolding r concat.simps append.simps orphan_scan list.map by blast
qed

end
