(* ===== verification/Scan_Spec.thy ===== *)
theory Scan_Spec
  imports Concurrency Pipeline
begin

text \<open>
  What a scan is worth.  The specification has no cache: it collects the template definitions of
  all datagrams of a capture, and gives every Data Set the rows of its layout, or one report when
  the capture has none.  The decoder, which learns, buffers, retries and flushes on the way, puts
  out the same rows.  The proof keeps a ledger: what a datagram brings in comes out as rows or
  waits (\<open>datagram_ledger\<close>), and the flush pays out what still waits (\<open>flush_ledger\<close>).
\<close>

section \<open>The content of a datagram\<close>

text \<open>A Data Set as it was received: the context of its own datagram, and its body.\<close>

type_synonym data_item = "ctx \<times> bytes"

definition item_key :: "data_item \<Rightarrow> template_key" where
  "item_key x = TemplateKey (cx_exporter (fst x)) (cx_obs_domain (fst x)) (cx_template_id (fst x))"

text \<open>Rows that need no template; definitions, in order; Data Sets, in order.\<close>

record content =
  ct_rows :: "flow_record list"
  ct_defs :: "(template_key \<times> template_entry) list"
  ct_items :: "data_item list"

abbreviation rows_only :: "flow_record list \<Rightarrow> content" where
  "rows_only rows \<equiv> \<lparr>ct_rows = rows, ct_defs = [], ct_items = []\<rparr>"

definition sets_content ::
  "string \<Rightarrow> u64 option \<Rightarrow> string \<Rightarrow> u32 \<Rightarrow> export_header \<Rightarrow> (u16 \<times> template_entry) list \<Rightarrow>
   flow_set list \<Rightarrow> content" where
  "sets_content version up ex dm hdr defs sets =
     \<lparr>ct_rows = [], ct_defs = map (\<lambda>(tid, e). (TemplateKey ex dm tid, e)) defs,
      ct_items = map (\<lambda>s. (set_ctx version up ex dm hdr s, set_body s)) (filter (\<lambda>s. \<not> set_id s < 256) sets)\<rparr>"

definition v9_content :: "bytes \<Rightarrow> string \<Rightarrow> u32 option \<Rightarrow> i64 \<Rightarrow> content" where
  "v9_content data ex override now =
     (case parse_header data of
        None \<Rightarrow> rows_only [diagnostic ex ''9'' 0 None None ''decode-error:bad-v9-header'']
      | Some hdr \<Rightarrow>
          let dm = unwrap_or override (unwrap_or (eh_obs_domain hdr) 0)
          in case v9_split_flowsets (drop (min 20 (length data)) data) of
               Inl err \<Rightarrow> rows_only [diagnostic ex ''9'' dm (eh_export_time hdr) (eh_sequence hdr) err]
             | Inr sets \<Rightarrow> sets_content ''9'' (map_option ucast (eh_sys_uptime hdr)) ex dm hdr
                 (concat (map (v9_set_defs now) sets)) sets)"

definition ipfix_content :: "bytes \<Rightarrow> string \<Rightarrow> u32 option \<Rightarrow> i64 \<Rightarrow> content" where
  "ipfix_content data ex override now =
     (case parse_header data of
        None \<Rightarrow> rows_only [diagnostic ex ''10'' 0 None None ''decode-error:bad-ipfix-header'']
      | Some hdr \<Rightarrow>
          let dm = unwrap_or override (unwrap_or (eh_obs_domain hdr) 0)
          in case ipfix_split_sets (drop (min 16 (length data)) data) of
               Inl err \<Rightarrow> rows_only [diagnostic ex ''10'' dm (eh_export_time hdr) (eh_sequence hdr) err]
             | Inr sets \<Rightarrow> sets_content ''10'' None ex dm hdr (concat (map (ipfix_set_defs now) sets)) sets)"

definition content_of :: "restrict \<Rightarrow> bytes \<times> decode_options \<Rightarrow> content" where
  "content_of r call =
     (let (data, opts) = call; ex = do_exporter opts in
      case probe_version data of
        None \<Rightarrow> rows_only [diagnostic ex [] 0 None None ''decode-error:not-a-flow-datagram'']
      | Some v \<Rightarrow>
          if \<not> accepted v r then
            rows_only [diagnostic ex v 0 None None (''decode-error:format-'' @ v @ ''-not-accepted-here'')]
          else if v = ''5'' then rows_only (v5_decode data ex)
          else if v = ''9'' then v9_content data ex (do_obs_domain_override opts) (do_now_micros opts)
          else if v = ''10'' then ipfix_content data ex (do_obs_domain_override opts) (do_now_micros opts)
          else rows_only (sflow_decode data ex (mode_flows_only (do_mode opts))))"

section \<open>Waiting Data Sets\<close>

text \<open>
  The value of what a cache has buffered, for any way to value a Data Set in a commutative monoid:
  its rows as a multiset, its bytes, its versions.
\<close>

abbreviation pending_item :: "template_key \<Rightarrow> pending_record \<Rightarrow> data_item" where
  "pending_item k rec \<equiv> (retry_ctx k rec, pr_bytes rec)"

definition items_of :: "template_cache \<Rightarrow> template_key \<Rightarrow> data_item list" where
  "items_of c k = map (pending_item k) (pending_of c k)"

definition waiting :: "(data_item \<Rightarrow> 'a :: comm_monoid_add) \<Rightarrow> template_cache \<Rightarrow> 'a" where
  "waiting W c = (\<Sum>k \<in> set (pending_keys c). sum_list (map W (items_of c k)))"

lemma item_key_pending [simp]: "item_key (pending_item k rec) = k"
  by (simp add: item_key_def retry_ctx_def)

lemma item_key_set [simp]: "item_key (set_ctx version up ex dm hdr s, b) = set_key ex dm s"
  by (simp add: item_key_def set_ctx_def set_key_def)

lemma items_of_Nil: "cache_ok c \<Longrightarrow> items_of c k = [] \<longleftrightarrow> k \<notin> set (pending_keys c)"
  using pending_keys_in(2) [of c k] by (auto simp: items_of_def)

lemma no_items: "cache_ok c \<Longrightarrow> k \<notin> set (pending_keys c) \<Longrightarrow> items_of c k = []"
  by (simp add: items_of_Nil)

lemma items_value: "cache_ok c \<Longrightarrow> sum_list (map W (items_of c k)) \<noteq> 0 \<Longrightarrow> k \<in> set (pending_keys c)"
  by (rule ccontr) (simp add: no_items)

lemma waiting_over:
  assumes "cache_ok c" and "finite K" and "set (pending_keys c) \<subseteq> K"
  shows "waiting W c = (\<Sum>k \<in> K. sum_list (map W (items_of c k)))"
  unfolding waiting_def using assms(2,3)
  by (intro sum.mono_neutral_left) (auto simp: no_items [OF assms(1)])

lemma sum_by_key:
  assumes "finite K" and "item_key ` set xs \<subseteq> K"
  shows "(\<Sum>k \<in> K. sum_list (map W (filter (\<lambda>x. item_key x = k) xs))) = (sum_list (map W xs) :: 'a :: comm_monoid_add)"
  using assms(2)
proof (induction xs)
  case (Cons x xs)
  have "(\<Sum>k \<in> K. sum_list (map W (filter (\<lambda>x. item_key x = k) (x # xs)))) =
      (\<Sum>k \<in> K. (if k = item_key x then W x else 0) + sum_list (map W (filter (\<lambda>x. item_key x = k) xs)))"
    by (intro sum.cong) auto
  with Cons assms(1) show ?case by (simp add: sum.distrib)
qed simp

text \<open>
  The ledger of one datagram: Data Sets arrive (\<open>items\<close>), those under a known key leave the buffer
  or never enter it, the others wait behind what waits for their key.
\<close>

lemma waiting_step:
  fixes W :: "data_item \<Rightarrow> 'a :: comm_monoid_add"
  assumes "cache_ok c" and "cache_ok c'"
    and "\<And>k. items_of c' k = (if known k then [] else items_of c k @ filter (\<lambda>x. item_key x = k) items)"
  shows "waiting W c' + ((\<Sum>k \<in> {k \<in> set (pending_keys c). known k}. sum_list (map W (items_of c k))) +
      sum_list (map W (filter (\<lambda>x. known (item_key x)) items))) = waiting W c + sum_list (map W items)"
proof -
  define K where "K = set (pending_keys c) \<union> set (pending_keys c') \<union> item_key ` set items"
  have fin: "finite K" by (simp add: K_def)
  let ?s = "\<lambda>xs. sum_list (map W xs)"
  have w: "waiting W c = (\<Sum>k \<in> K. ?s (items_of c k))" "waiting W c' = (\<Sum>k \<in> K. ?s (items_of c' k))"
    using waiting_over [OF assms(1) fin, of W] waiting_over [OF assms(2) fin, of W] by (auto simp: K_def)
  have left: "(\<Sum>k \<in> {k \<in> set (pending_keys c). known k}. ?s (items_of c k)) =
      (\<Sum>k \<in> K. if known k then ?s (items_of c k) else 0)"
  proof -
    have "(\<Sum>k \<in> {k \<in> set (pending_keys c). known k}. ?s (items_of c k)) =
        (\<Sum>k \<in> {k \<in> set (pending_keys c). known k}. if known k then ?s (items_of c k) else 0)"
      by (intro sum.cong) auto
    also have "\<dots> = (\<Sum>k \<in> K. if known k then ?s (items_of c k) else 0)"
      using fin by (intro sum.mono_neutral_left) (auto simp: K_def dest: items_value [OF assms(1)])
    finally show ?thesis .
  qed
  have arrived: "?s items = (\<Sum>k \<in> K. ?s (filter (\<lambda>x. item_key x = k) items))"
    by (rule sum_by_key [OF fin, symmetric]) (simp add: K_def)
  have both: "filter (\<lambda>x. item_key x = k) (filter (\<lambda>x. known (item_key x)) items) =
      (if known k then filter (\<lambda>x. item_key x = k) items else [])" for k
    by (induction items) auto
  have through: "?s (filter (\<lambda>x. known (item_key x)) items) =
      (\<Sum>k \<in> K. if known k then ?s (filter (\<lambda>x. item_key x = k) items) else 0)"
  proof -
    have "?s (filter (\<lambda>x. known (item_key x)) items) =
        (\<Sum>k \<in> K. ?s (filter (\<lambda>x. item_key x = k) (filter (\<lambda>x. known (item_key x)) items)))"
      by (rule sum_by_key [OF fin, symmetric]) (auto simp: K_def)
    also have "\<dots> = (\<Sum>k \<in> K. if known k then ?s (filter (\<lambda>x. item_key x = k) items) else 0)"
      by (intro sum.cong refl) (simp add: both del: filter_filter)
    finally show ?thesis .
  qed
  have "?s (items_of c' k) + ((if known k then ?s (items_of c k) else 0) +
      (if known k then ?s (filter (\<lambda>x. item_key x = k) items) else 0)) =
    ?s (items_of c k) + ?s (filter (\<lambda>x. item_key x = k) items)" for k
    by (simp add: assms(3))
  then show ?thesis
    unfolding w left arrived through sum.distrib [symmetric] by simp
qed

section \<open>Learning within the cap\<close>

definition known_keys :: "template_cache \<Rightarrow> template_key set" where
  "known_keys c = fst ` set (tc_entries c)"

lemma known_iff: "k \<in> known_keys c \<longleftrightarrow> cache_peek c k \<noteq> None"
  by (auto simp: known_keys_def cache_peek_def bt_get_def map_of_eq_None_iff)

lemma known_keysI: "(\<And>k. cache_peek c k \<noteq> None \<longleftrightarrow> k \<in> K) \<Longrightarrow> known_keys c = K"
  by (auto simp: set_eq_iff known_iff)

text \<open>The layouts of a cache, or of a list of definitions, are those of \<open>L\<close> where they exist.\<close>

type_synonym layouts = "template_key \<Rightarrow> template_entry option"

definition agrees :: "layouts \<Rightarrow> template_cache \<Rightarrow> bool" where
  "agrees L c \<longleftrightarrow> (\<forall>k e. cache_peek c k = Some e \<longrightarrow> (\<exists>e'. L k = Some e' \<and> same_layout e e'))"

definition defs_agree :: "layouts \<Rightarrow> (template_key \<times> template_entry) list \<Rightarrow> bool" where
  "defs_agree L ds \<longleftrightarrow> (\<forall>(k, e) \<in> set ds. \<exists>e'. L k = Some e' \<and> same_layout e e')"

definition learn_keys :: "(template_key \<times> template_entry) list \<Rightarrow> template_cache \<Rightarrow> template_cache" where
  "learn_keys ds c = fold (\<lambda>(k, e). upsert k e) ds c"

lemma learn_keys_simps [simp]:
  "learn_keys [] c = c"
  "learn_keys ((k, e) # ds) c = learn_keys ds (upsert k e c)"
  by (simp_all add: learn_keys_def)

lemma learn_keys_frame [simp]:
  "tc_pending (learn_keys ds c) = tc_pending c"
  "tc_cap_entries (learn_keys ds c) = tc_cap_entries c"
  "tc_cap_pending_bytes (learn_keys ds c) = tc_cap_pending_bytes c"
  by (induction ds arbitrary: c) auto

lemma learn_all_keys:
  "learn_all ex dm defs c = learn_keys (map (\<lambda>(tid, e). (TemplateKey ex dm tid, e)) defs) c"
  by (induction defs arbitrary: c) auto

lemma upsert_within:
  assumes "cache_ok c" and "card (insert k (known_keys c)) \<le> unat (tc_cap_entries c)"
  shows "cache_peek (upsert k e c) = (cache_peek c)(k \<mapsto> merged_entry c k e)"
proof (rule upsert_known_or_room [OF assms(1)])
  have "card (known_keys c) = length (tc_entries c)"
    using assms(1) card_entries [of "tc_entries c"] by (simp add: known_keys_def cache_ok_def)
  moreover have "finite (known_keys c)" by (simp add: known_keys_def)
  ultimately show "cache_peek c k \<noteq> None \<or> length (tc_entries c) < unat (tc_cap_entries c)"
    using assms(2) by (cases "k \<in> known_keys c") (simp_all add: known_iff [symmetric] insert_absorb del: not_None_eq)
qed

lemma learn_keys_within:
  assumes "cache_ok c" and "agrees L c" and "defs_agree L ds"
    and "card (known_keys c \<union> fst ` set ds) \<le> unat (tc_cap_entries c)"
  shows "cache_ok (learn_keys ds c) \<and> agrees L (learn_keys ds c) \<and>
    known_keys (learn_keys ds c) = known_keys c \<union> fst ` set ds"
  using assms
proof (induction ds arbitrary: c)
  case (Cons d ds)
  obtain k e where d: "d = (k, e)" by (cases d)
  have "finite (known_keys c)" by (simp add: known_keys_def)
  then have "card (insert k (known_keys c)) \<le> card (known_keys c \<union> fst ` set (d # ds))"
    by (intro card_mono) (auto simp: d)
  with Cons.prems(4) have "card (insert k (known_keys c)) \<le> unat (tc_cap_entries c)" by linarith
  note peek = upsert_within [OF Cons.prems(1) this, of e]
  have keys: "known_keys (upsert k e c) = insert k (known_keys c)"
    by (rule known_keysI) (simp add: peek known_iff)
  have "agrees L (upsert k e c)"
    using Cons.prems(2,3) same_layout_trans [OF same_layout_merged]
    by (fastforce simp: agrees_def defs_agree_def peek d split: if_splits)
  moreover have "defs_agree L ds" using Cons.prems(3) by (simp add: defs_agree_def d)
  ultimately show ?case
    using Cons.IH [of "upsert k e c"] Cons.prems(1,4) by (simp add: d keys cache_ok_upsert)
qed simp

section \<open>A pass that refuses nothing\<close>

context data_pass
begin

lemma step_room:
  assumes "cache_ok c" and "length (set_body s) < 2 ^ 32"
    and "cache_peek c (set_key ex dm s) = None \<Longrightarrow>
      pending_total c + length (set_body s) \<le> unat (tc_cap_pending_bytes c)"
  shows "\<exists>c'. data_set_step version (uptime hdr) ex dm hdr now fo s c =
      (case cache_peek c (set_key ex dm s) of None \<Rightarrow> []
       | Some e \<Rightarrow> decode_data_set e (set_body s) (set_ctx version (uptime hdr) ex dm hdr s) fo, c') \<and>
    cache_ok c' \<and> layout_kept c c' \<and> tc_cap_entries c' = tc_cap_entries c \<and>
    tc_cap_pending_bytes c' = tc_cap_pending_bytes c \<and>
    pending_total c' = pending_total c +
      (if cache_peek c (set_key ex dm s) = None then length (set_body s) else 0) \<and>
    (\<forall>k. pending_of c' k = pending_of c k @
      (if cache_peek c k = None \<and> set_key ex dm s = k then [set_pending version (uptime hdr) hdr s] else []))"
proof (cases "cache_peek c (set_key ex dm s)")
  case None
  let ?rec = "set_pending version (uptime hdr) hdr s"
  have body: "pr_bytes ?rec = set_body s" by (simp add: set_pending_def)
  from push_pending_room [OF assms(1), of ?rec, unfolded body, OF assms(2) assms(3) [OF None]]
  obtain c' where c': "push_pending (set_key ex dm s) ?rec c = (True, c')" "cache_ok c'"
    "tc_entries c' = tc_entries c" "tc_cap_entries c' = tc_cap_entries c"
    "tc_cap_pending_bytes c' = tc_cap_pending_bytes c" "pending_total c' = pending_total c + length (set_body s)"
    "\<forall>k. pending_of c' k = pending_of c k @ (if k = set_key ex dm s then [?rec] else [])" by blast
  have "layout_kept c c'" using c'(3) by (simp add: layout_kept_def cache_peek_def option.rel_refl)
  with None c' show ?thesis by (auto simp: data_set_step_def use_template_eq)
next
  case (Some e)
  let ?c = "snd (use_template (set_key ex dm s) now c)"
  have "pass_frame c ?c" by (rule pass_frame_use [OF assms(1)])
  moreover have "pending_total ?c = pending_total c" by (simp add: pending_total_def)
  moreover have "pending_of ?c k = pending_of c k" for k by (simp add: pending_of_def)
  moreover have "decode_data_set (touch now e) b x fo = decode_data_set e b x fo" for b x
    by (rule decode_data_set_cong) simp
  ultimately show ?thesis
    using Some by (auto simp: data_set_step_def use_template_eq pass_frame_def)
qed

lemma pass_room:
  assumes "cache_ok c" and "\<forall>s \<in> set ss. length (set_body s) < 2 ^ 32"
    and "pending_total c + bodies (filter (\<lambda>s. \<not> set_id s < 256 \<and> cache_peek c (set_key ex dm s) = None) ss)
      \<le> unat (tc_cap_pending_bytes c)"
  shows "\<exists>c'. pass ex dm hdr now fo ss c =
      (concat (map (\<lambda>s. case cache_peek c (set_key ex dm s) of None \<Rightarrow> []
        | Some e \<Rightarrow> decode_data_set e (set_body s) (set_ctx version (uptime hdr) ex dm hdr s) fo)
        (filter (\<lambda>s. \<not> set_id s < 256) ss)), c') \<and>
    cache_ok c' \<and> layout_kept c c' \<and> tc_cap_entries c' = tc_cap_entries c \<and>
    tc_cap_pending_bytes c' = tc_cap_pending_bytes c \<and>
    (\<forall>k. pending_of c' k = pending_of c k @ (if cache_peek c k = None then
      map (set_pending version (uptime hdr) hdr) (filter (\<lambda>s. \<not> set_id s < 256 \<and> set_key ex dm s = k) ss) else []))"
  using assms
proof (induction ss arbitrary: c)
  case (Cons s ss)
  show ?case
  proof (cases "set_id s < 256")
    case True
    with Cons.IH [OF Cons.prems(1)] Cons.prems(2,3) show ?thesis by (simp add: pass_skip cong: if_cong)
  next
    case False
    have len: "length (set_body s) < 2 ^ 32" using Cons.prems(2) by simp
    have "cache_peek c (set_key ex dm s) = None \<Longrightarrow>
        pending_total c + length (set_body s) \<le> unat (tc_cap_pending_bytes c)"
      using Cons.prems(3) False by (simp add: bodies_def)
    from step_room [OF Cons.prems(1) len this] obtain c1 where c1: "data_set_step version (uptime hdr) ex dm hdr now fo s c =
        (case cache_peek c (set_key ex dm s) of None \<Rightarrow> []
         | Some e \<Rightarrow> decode_data_set e (set_body s) (set_ctx version (uptime hdr) ex dm hdr s) fo, c1)"
      "cache_ok c1" "layout_kept c c1" "tc_cap_entries c1 = tc_cap_entries c"
      "tc_cap_pending_bytes c1 = tc_cap_pending_bytes c"
      "pending_total c1 = pending_total c +
        (if cache_peek c (set_key ex dm s) = None then length (set_body s) else 0)"
      "\<forall>k. pending_of c1 k = pending_of c k @
        (if cache_peek c k = None \<and> set_key ex dm s = k then [set_pending version (uptime hdr) hdr s] else [])"
      by blast
    have peek: "cache_peek c1 k = None \<longleftrightarrow> cache_peek c k = None" for k
      by (rule layout_kept_peek(1) [OF c1(3)])
    have same: "(case cache_peek c1 k of None \<Rightarrow> [] | Some e \<Rightarrow> decode_data_set e b x fo) =
        (case cache_peek c k of None \<Rightarrow> [] | Some e \<Rightarrow> decode_data_set e b x fo)" for k b x
      using layout_kept_peek(2) [OF c1(3), of k] peek [of k]
      by (auto split: option.splits dest: decode_data_set_cong)
    have "pending_total c1 + bodies (filter (\<lambda>s. \<not> set_id s < 256 \<and> cache_peek c1 (set_key ex dm s) = None) ss)
        \<le> unat (tc_cap_pending_bytes c1)"
      using Cons.prems(3) False by (auto simp: peek c1(5,6) bodies_def split: if_splits)
    moreover have "\<forall>s \<in> set ss. length (set_body s) < 2 ^ 32" using Cons.prems(2) by simp
    ultimately obtain c' where c': "pass ex dm hdr now fo ss c1 =
        (concat (map (\<lambda>s. case cache_peek c1 (set_key ex dm s) of None \<Rightarrow> []
          | Some e \<Rightarrow> decode_data_set e (set_body s) (set_ctx version (uptime hdr) ex dm hdr s) fo)
          (filter (\<lambda>s. \<not> set_id s < 256) ss)), c')" "cache_ok c'" "layout_kept c1 c'"
      "tc_cap_entries c' = tc_cap_entries c1" "tc_cap_pending_bytes c' = tc_cap_pending_bytes c1"
      "\<forall>k. pending_of c' k = pending_of c1 k @ (if cache_peek c1 k = None then
        map (set_pending version (uptime hdr) hdr) (filter (\<lambda>s. \<not> set_id s < 256 \<and> set_key ex dm s = k) ss) else [])"
      using Cons.IH [OF c1(2)] by blast
    have "layout_kept c c'" by (rule layout_kept_trans [OF c1(3) c'(3)])
    with False c1(4,5,7) c' show ?thesis by (auto simp: pass_step c1(1) same peek)
  qed
qed (simp add: pass_Nil)

end

section \<open>One datagram\<close>

text \<open>The keys known once a list of definitions has been learnt.\<close>

abbreviation after_learning :: "content \<Rightarrow> template_cache \<Rightarrow> template_key set" where
  "after_learning ct c \<equiv> known_keys c \<union> fst ` set (ct_defs ct)"

text \<open>Nothing of a datagram has to be refused for want of room.\<close>

definition has_room :: "content \<Rightarrow> template_cache \<Rightarrow> bool" where
  "has_room ct c \<longleftrightarrow> card (after_learning ct c) \<le> unat (tc_cap_entries c) \<and>
     pending_total c + sum_list (map (\<lambda>x. length (snd x))
       (filter (\<lambda>x. item_key x \<notin> after_learning ct c) (ct_items ct))) \<le> unat (tc_cap_pending_bytes c)"

text \<open>\<open>W\<close> values the Data Sets of known keys by the rows they decode to.\<close>

definition valued_by :: "layouts \<Rightarrow> bool \<Rightarrow> (data_item \<Rightarrow> flow_record multiset) \<Rightarrow> bool" where
  "valued_by L fo W \<longleftrightarrow>
     (\<forall>x e. L (item_key x) = Some e \<longrightarrow> W x = mset (decode_data_set e (snd x) (fst x) fo))"

lemma valued_byD:
  assumes "valued_by L fo W" and "agrees L c" and "cache_peek c (item_key x) = Some e"
  shows "mset (decode_data_set e (snd x) (fst x) fo) = W x"
proof -
  obtain e' where "L (item_key x) = Some e'" "same_layout e e'"
    using assms(2,3) unfolding agrees_def by blast
  with assms(1) show ?thesis by (cases x) (simp add: valued_by_def decode_data_set_cong)
qed

lemma mset_rows: "mset (concat (map f xs)) = sum_list (map (\<lambda>x. mset (f x)) xs)"
  by (induction xs) auto

lemma mset_singles: "mset (map f xs) = sum_list (map (\<lambda>x. {#f x#}) xs)"
  by (induction xs) auto

lemma agrees_kept:
  assumes "agrees L c" and "layout_kept c c'"
  shows "agrees L c'"
  unfolding agrees_def
proof (intro allI impI)
  fix k e
  assume "cache_peek c' k = Some e"
  then obtain e' where "cache_peek c k = Some e'" "same_layout e e'"
    using layout_kept_peek(2) [OF assms(2)] by blast
  with assms(1) show "\<exists>e'. L k = Some e' \<and> same_layout e e'"
    unfolding agrees_def by (blast intro: same_layout_trans)
qed

lemma known_kept: "layout_kept c c' \<Longrightarrow> known_keys c' = known_keys c"
  using layout_kept_peek(1) by (auto simp: set_eq_iff known_iff)

text \<open>What a decoder has done with a datagram of some content before the retry.\<close>

definition taken_in ::
  "layouts \<Rightarrow> (data_item \<Rightarrow> flow_record multiset) \<Rightarrow> content \<Rightarrow> template_cache \<Rightarrow>
   flow_record list \<times> template_cache \<Rightarrow> bool" where
  "taken_in L W ct c res \<longleftrightarrow>
     (let (out, c1) = res; K = after_learning ct c in
      cache_ok c1 \<and> agrees L c1 \<and> known_keys c1 = K \<and>
      tc_cap_entries c1 = tc_cap_entries c \<and> tc_cap_pending_bytes c1 = tc_cap_pending_bytes c \<and>
      mset out = mset (ct_rows ct) + sum_list (map W (filter (\<lambda>x. item_key x \<in> K) (ct_items ct))) \<and>
      (\<forall>k. items_of c1 k = items_of c k @ (if k \<in> K then [] else filter (\<lambda>x. item_key x = k) (ct_items ct))))"

lemma taken_in_rows_only:
  "cache_ok c \<Longrightarrow> agrees L c \<Longrightarrow> taken_in L W (rows_only rows) c (rows, c)"
  by (simp add: taken_in_def)

context data_pass
begin

lemma pass_taken_in:
  assumes v: "version = ''9'' \<or> version = ''10''" and ok: "cache_ok c" and "agrees L c"
    and ct: "ct = sets_content version (uptime hdr) ex dm hdr defs sets"
    and "defs_agree L (ct_defs ct)" and "valued_by L fo W" and room: "has_room ct c"
    and len: "\<forall>s \<in> set sets. length (set_body s) < 2 ^ 32"
  shows "taken_in L W ct c (pass ex dm hdr now fo sets (learn_all ex dm defs c))"
proof -
  let ?c = "learn_keys (ct_defs ct) c" and ?K = "after_learning ct c"
  let ?ctx = "set_ctx version (uptime hdr) ex dm hdr"
  have learn: "learn_all ex dm defs c = ?c" by (simp add: ct sets_content_def learn_all_keys)
  have L: "cache_ok ?c" "agrees L ?c" "known_keys ?c = ?K"
    using learn_keys_within [OF ok assms(3,5)] room by (simp_all add: has_room_def)
  have pend: "pending_of ?c k = pending_of c k" for k by (simp add: pending_of_def)
  have items: "ct_items ct = map (\<lambda>s. (?ctx s, set_body s)) (filter (\<lambda>s. \<not> set_id s < 256) sets)"
    by (simp add: ct sets_content_def)
  have unknown: "cache_peek ?c k = None \<longleftrightarrow> k \<notin> ?K" for k
    using known_iff [of k ?c] by (simp add: L(3))
  have "bodies (filter (\<lambda>s. \<not> set_id s < 256 \<and> cache_peek ?c (set_key ex dm s) = None) sets) =
      sum_list (map (\<lambda>x. length (snd x)) (filter (\<lambda>x. item_key x \<notin> ?K) (ct_items ct)))"
    unfolding items unknown by (induction sets) (auto simp: bodies_def)
  moreover have "pending_total ?c = pending_total c" by (simp add: pending_total_def)
  ultimately have "pending_total ?c +
      bodies (filter (\<lambda>s. \<not> set_id s < 256 \<and> cache_peek ?c (set_key ex dm s) = None) sets)
        \<le> unat (tc_cap_pending_bytes ?c)"
    using room by (simp add: has_room_def)
  from pass_room [OF L(1) len this, of hdr now fo] obtain c1 where c1: "pass ex dm hdr now fo sets ?c =
      (concat (map (\<lambda>s. case cache_peek ?c (set_key ex dm s) of None \<Rightarrow> []
        | Some e \<Rightarrow> decode_data_set e (set_body s) (?ctx s) fo) (filter (\<lambda>s. \<not> set_id s < 256) sets)), c1)"
    "cache_ok c1" "layout_kept ?c c1" "tc_cap_entries c1 = tc_cap_entries c"
    "tc_cap_pending_bytes c1 = tc_cap_pending_bytes c"
    "\<forall>k. pending_of c1 k = pending_of ?c k @ (if cache_peek ?c k = None then map (set_pending version (uptime hdr) hdr)
      (filter (\<lambda>s. \<not> set_id s < 256 \<and> set_key ex dm s = k) sets) else [])" by auto
  have "pending_item (set_key ex dm s) (set_pending version (uptime hdr) hdr s) = (?ctx s, set_body s)" for s
    using retry_ctx_pending [OF v, of ex dm s "uptime hdr" hdr] by (simp add: set_pending_def)
  then have buffered: "map (pending_item k) (map (set_pending version (uptime hdr) hdr)
      (filter (\<lambda>s. \<not> set_id s < 256 \<and> set_key ex dm s = k) sets)) =
    filter (\<lambda>x. item_key x = k) (ct_items ct)" for k
    unfolding items by (induction sets) auto
  have "items_of c1 k = items_of c k @ (if k \<in> ?K then [] else filter (\<lambda>x. item_key x = k) (ct_items ct))" for k
    using c1(6) buffered [of k] unknown [of k] by (simp add: pend items_of_def)
  moreover
  have "mset (concat (map (\<lambda>s. case cache_peek ?c (set_key ex dm s) of None \<Rightarrow> []
        | Some e \<Rightarrow> decode_data_set e (set_body s) (?ctx s) fo) (filter (\<lambda>s. \<not> set_id s < 256) sets))) =
    sum_list (map W (filter (\<lambda>x. item_key x \<in> ?K) (ct_items ct)))"
  proof -
    have "mset (case cache_peek ?c (set_key ex dm s) of None \<Rightarrow> []
        | Some e \<Rightarrow> decode_data_set e (set_body s) (?ctx s) fo) =
      (if set_key ex dm s \<in> ?K then W (?ctx s, set_body s) else {#})" for s
      using valued_byD [OF assms(6) L(2), of "(?ctx s, set_body s)"] unknown [of "set_key ex dm s"]
      by (auto split: option.splits)
    then show ?thesis unfolding mset_rows items by (induction sets) auto
  qed
  moreover have "ct_rows ct = []" by (simp add: ct sets_content_def)
  ultimately show ?thesis
    using c1(1-5) agrees_kept [OF L(2) c1(3)] known_kept [OF c1(3)]
    by (simp add: taken_in_def learn L(3))
qed

end

lemma v9_taken_in:
  assumes "cache_ok c" and "agrees L c" and "ct = v9_content data ex ov now" and "defs_agree L (ct_defs ct)"
    and "valued_by L fo W" and "has_room ct c"
  shows "taken_in L W ct c (v9_decode data ex ov c now fo)"
  using assms split_sets_fit(1) taken_in_rows_only [OF assms(1,2)]
  by (auto simp: v9_decode_def v9_content_def v9_learn_pass_eq Let_def simp del: learn_all_simps
      intro!: v9_pass.pass_taken_in split: option.splits sum.splits)

lemma ipfix_taken_in:
  assumes "cache_ok c" and "agrees L c" and "ct = ipfix_content data ex ov now" and "defs_agree L (ct_defs ct)"
    and "valued_by L fo W" and "has_room ct c"
  shows "taken_in L W ct c (ipfix_decode data ex ov c now fo)"
  using assms split_sets_fit(2) taken_in_rows_only [OF assms(1,2)]
  by (auto simp: ipfix_decode_def ipfix_content_def ipfix_learn_pass_eq Let_def simp del: learn_all_simps
      intro!: ipfix_pass.pass_taken_in split: option.splits sum.splits)

lemma datagram_taken_in:
  assumes "cache_ok c" and "agrees L c" and "defs_agree L (ct_defs (content_of r (data, opts)))"
    and "valued_by L (mode_flows_only (do_mode opts)) W" and "has_room (content_of r (data, opts)) c"
  shows "taken_in L W (content_of r (data, opts)) c (datagram_out data opts c r)"
proof -
  consider (garbage) "probe_version data = None"
    | (rejected) v where "probe_version data = Some v" "\<not> accepted v r"
    | (accepted) v where "probe_version data = Some v" "accepted v r" by (cases "probe_version data") auto
  then show ?thesis
  proof cases
    case garbage
    with taken_in_rows_only [OF assms(1,2)] show ?thesis by (simp add: content_of_def datagram_out_def)
  next
    case rejected
    then show ?thesis
      using taken_in_rows_only [OF assms(1,2)]
      by (auto simp: content_of_def datagram_out_def accepted_def Let_def)
  next
    case (accepted v)
    have v: "v \<in> {''5'', ''9'', ''10'', ''sflow5''}"
      using accepted(1) by (auto simp: probe_version_eq Let_def split: if_splits)
    show ?thesis
      using v accepted taken_in_rows_only [OF assms(1,2)] assms v9_taken_in [OF assms(1,2) refl _ assms(4)]
        ipfix_taken_in [OF assms(1,2) refl _ assms(4)]
      by (elim insertE) (auto simp: content_of_def datagram_out_def accepted_def Let_def)
  qed
qed

text \<open>Under the invariant of a scan, every datagram may be thought to end in a retry.\<close>

lemma decode_then_retry:
  assumes "scan_ok c" and "datagram_out data opts c r = (out, c1)" and "cache_ok c1"
  shows "decode_datagram data opts c r =
    (let (rows, c2) = retry_pending c1 (do_now_micros opts) (mode_flows_only (do_mode opts)) in (out @ rows, c2))"
proof (cases "probe_version data \<in> {Some ''9'', Some ''10''} \<and> \<not> pending_is_empty c1")
  case False
  have "pending_of c1 k \<noteq> [] \<Longrightarrow> cache_peek c1 k = None" for k
  proof (cases "pending_is_empty c1")
    case True
    then show "pending_of c1 k \<noteq> [] \<Longrightarrow> ?thesis" by (simp add: pending_is_empty_def pending_of_def bt_get_def)
  next
    case f: False
    with False have "c1 = c" using datagram_out_stateless [of data opts c r] assms(2) by simp
    with assms(1) show "pending_of c1 k \<noteq> [] \<Longrightarrow> ?thesis" by (auto simp: scan_ok_def)
  qed
  from retry_none_known [OF assms(3) this] False assms(2) show ?thesis by (auto simp: decode_datagram_eq)
qed (simp add: decode_datagram_eq assms(2))

lemma retry_ledger:
  assumes "cache_ok c" and "agrees L c" and "valued_by L fo W" and "retry_pending c now fo = (rows, c')"
  shows "cache_ok c' \<and> agrees L c' \<and> known_keys c' = known_keys c \<and>
    (\<forall>k. items_of c' k = (if k \<in> known_keys c then [] else items_of c k)) \<and>
    mset rows = (\<Sum>k \<in> {k \<in> set (pending_keys c). k \<in> known_keys c}. sum_list (map W (items_of c k)))"
proof -
  let ?ks = "filter (\<lambda>k. cache_peek c k \<noteq> None) (pending_keys c)"
  from retry_loop_spec [OF assms(1) pending_keys_in(1) [OF assms(1)] assms(4) [unfolded retry_pending_def]]
  have r: "rows = concat (map (retried_rows fo c) ?ks)" "cache_ok c'" "layout_kept c c'"
    "\<forall>k. pending_of c' k = (if k \<in> set (pending_keys c) \<and> cache_peek c k \<noteq> None then [] else pending_of c k)"
    by auto
  have "mset (retried_rows fo c k) = sum_list (map W (items_of c k))" if "cache_peek c k = Some e" for k e
    using that valued_byD [OF assms(3,2), of "pending_item k _" e]
    by (simp add: retried_rows_def mset_rows items_of_def o_def)
  then have "mset rows = sum_list (map (\<lambda>k. sum_list (map W (items_of c k))) ?ks)"
    unfolding r(1) mset_rows by (intro arg_cong [where f = sum_list] map_cong refl) auto
  also have "\<dots> = (\<Sum>k \<in> set ?ks. sum_list (map W (items_of c k)))"
    using pending_keys_in(1) [OF assms(1)] by (intro sum_list_distinct_conv_sum_set) simp
  also have "set ?ks = {k \<in> set (pending_keys c). k \<in> known_keys c}"
    by (auto simp: known_iff)
  finally have "mset rows = (\<Sum>k \<in> {k \<in> set (pending_keys c). k \<in> known_keys c}. sum_list (map W (items_of c k)))" .
  moreover have "items_of c' k = (if k \<in> known_keys c then [] else items_of c k)" for k
    using r(4) no_items [OF assms(1), of k] by (auto simp: items_of_def known_iff)
  ultimately show ?thesis
    using r(2) agrees_kept [OF assms(2) r(3)] known_kept [OF r(3)] by simp
qed

text \<open>
  The conservation law of the decoder: what a datagram brings in comes out as rows or waits.
\<close>

lemma datagram_ledger:
  assumes "scan_ok c" and "agrees L c" and "defs_agree L (ct_defs ct)"
    and "valued_by L (mode_flows_only (do_mode opts)) W" and "has_room ct c" and ct: "ct = content_of r (data, opts)"
    and "decode_datagram data opts c r = (rows, c')"
  shows "scan_ok c' \<and> agrees L c' \<and> known_keys c' = after_learning ct c \<and>
    tc_cap_entries c' = tc_cap_entries c \<and> tc_cap_pending_bytes c' = tc_cap_pending_bytes c \<and>
    (\<forall>k. items_of c' k = (if k \<in> after_learning ct c then []
      else items_of c k @ filter (\<lambda>x. item_key x = k) (ct_items ct))) \<and>
    mset rows + waiting W c' = mset (ct_rows ct) + waiting W c + sum_list (map W (ct_items ct))"
proof -
  let ?K = "after_learning ct c" and ?fo = "mode_flows_only (do_mode opts)"
  have ok: "cache_ok c" using assms(1) by (simp add: scan_ok_def)
  obtain out c1 where o: "datagram_out data opts c r = (out, c1)" by fastforce
  from datagram_taken_in [OF ok assms(2) assms(3,4,5) [unfolded ct]]
  have t: "cache_ok c1" "agrees L c1" "known_keys c1 = ?K"
    "mset out = mset (ct_rows ct) + sum_list (map W (filter (\<lambda>x. item_key x \<in> ?K) (ct_items ct)))"
    "\<forall>k. items_of c1 k = items_of c k @ (if k \<in> ?K then [] else filter (\<lambda>x. item_key x = k) (ct_items ct))"
    by (simp_all add: taken_in_def o ct Let_def)
  obtain rest c2 where r: "retry_pending c1 (do_now_micros opts) ?fo = (rest, c2)" by fastforce
  have d: "rows = out @ rest" "c' = c2" using decode_then_retry [OF assms(1) o t(1)] assms(7) r by simp_all
  note ret = retry_ledger [OF t(1,2) assms(4) r, unfolded t(3)]
  have "k \<in> set (pending_keys c1) \<longleftrightarrow> k \<in> set (pending_keys c)" if "k \<in> ?K" for k
    using that items_of_Nil [OF ok, of k] items_of_Nil [OF t(1), of k] t(5) by (auto split: if_splits)
  then have "{k \<in> set (pending_keys c1). k \<in> ?K} = {k \<in> set (pending_keys c). k \<in> ?K}" by blast
  then have rest: "mset rest = (\<Sum>k \<in> {k \<in> set (pending_keys c). k \<in> ?K}. sum_list (map W (items_of c k)))"
    using ret t(5) by simp
  have items: "items_of c' k = (if k \<in> ?K then [] else items_of c k @ filter (\<lambda>x. item_key x = k) (ct_items ct))" for k
    using ret t(5) d(2) by simp
  have ok': "cache_ok c'" using ret d(2) by simp
  from waiting_step [OF ok ok', of "\<lambda>k. k \<in> ?K" "ct_items ct" W, OF items]
  have "mset rows + waiting W c' = mset (ct_rows ct) + waiting W c + sum_list (map W (ct_items ct))"
    unfolding d(1) mset_append t(4) rest by (simp add: ac_simps)
  with items ret d(2) scan_ok_decode [OF assms(1), of data opts r] assms(7) show ?thesis by simp
qed

section \<open>A whole scan\<close>

type_synonym calls = "(bytes \<times> decode_options) list"

definition scan_fixed :: "restrict \<Rightarrow> calls \<Rightarrow> flow_record list" where
  "scan_fixed r calls = concat (map (\<lambda>call. ct_rows (content_of r call)) calls)"

definition scan_defs :: "restrict \<Rightarrow> calls \<Rightarrow> (template_key \<times> template_entry) list" where
  "scan_defs r calls = concat (map (\<lambda>call. ct_defs (content_of r call)) calls)"

definition scan_items :: "restrict \<Rightarrow> calls \<Rightarrow> data_item list" where
  "scan_items r calls = concat (map (\<lambda>call. ct_items (content_of r call)) calls)"

text \<open>At no moment does a scan need more layouts or more buffer than the caps allow.\<close>

fun never_full :: "restrict \<Rightarrow> calls \<Rightarrow> template_cache \<Rightarrow> bool" where
  "never_full r [] c \<longleftrightarrow> True"
| "never_full r ((data, opts) # calls) c \<longleftrightarrow>
     has_room (content_of r (data, opts)) c \<and> never_full r calls (snd (decode_datagram data opts c r))"

text \<open>The specification: every Data Set with the layout its key has somewhere in the scan.\<close>

definition missing_item :: "data_item \<Rightarrow> flow_record" where
  "missing_item x =
     (let cx = fst x in
      diagnostic (cx_exporter cx) (cx_version cx) (cx_obs_domain cx) (cx_export_time cx) (cx_sequence cx)
        (missing_template (cx_obs_domain cx) (cx_template_id cx)))"

definition item_rows :: "layouts \<Rightarrow> bool \<Rightarrow> data_item \<Rightarrow> flow_record list" where
  "item_rows L fo x =
     (case L (item_key x) of
        Some e \<Rightarrow> decode_data_set e (snd x) (fst x) fo
      | None \<Rightarrow> [missing_item x])"

definition spec_rows :: "bool \<Rightarrow> restrict \<Rightarrow> calls \<Rightarrow> flow_record list" where
  "spec_rows fo r calls =
     scan_fixed r calls @ concat (map (item_rows (map_of (scan_defs r calls)) fo) (scan_items r calls))"

text \<open>
  What is asked of a scan: no template is redefined with another layout, no exporter uses an id
  of a domain in both protocols, and one mode.
\<close>

definition one_layout :: "(template_key \<times> template_entry) list \<Rightarrow> bool" where
  "one_layout ds \<longleftrightarrow> (\<forall>(k, e) \<in> set ds. \<forall>(k', e') \<in> set ds. k = k' \<longrightarrow> same_layout e e')"

definition one_version :: "data_item list \<Rightarrow> bool" where
  "one_version xs \<longleftrightarrow> (\<forall>x \<in> set xs. \<forall>y \<in> set xs. item_key x = item_key y \<longrightarrow> cx_version (fst x) = cx_version (fst y))"

definition one_mode :: "bool \<Rightarrow> calls \<Rightarrow> bool" where
  "one_mode fo calls \<longleftrightarrow> (\<forall>call \<in> set calls. mode_flows_only (do_mode (snd call)) = fo)"

lemma map_of_agrees:
  assumes "one_layout ds"
  shows "defs_agree (map_of ds) ds"
  unfolding defs_agree_def
proof (intro ballI, clarify)
  fix k e
  assume e: "(k, e) \<in> set ds"
  then obtain e' where e': "map_of ds k = Some e'" by (meson weak_map_of_SomeI)
  from assms e map_of_SomeD [OF e'] have "same_layout e e'" unfolding one_layout_def by fastforce
  with e' show "\<exists>e'. map_of ds k = Some e' \<and> same_layout e e'" by blast
qed

lemma scan_Cons [simp]:
  "scan_fixed r (call # calls) = ct_rows (content_of r call) @ scan_fixed r calls"
  "scan_defs r (call # calls) = ct_defs (content_of r call) @ scan_defs r calls"
  "scan_items r (call # calls) = ct_items (content_of r call) @ scan_items r calls"
  by (simp_all add: scan_fixed_def scan_defs_def scan_items_def)

lemma scan_Nil [simp]: "scan_fixed r [] = []" "scan_defs r [] = []" "scan_items r [] = []"
  by (simp_all add: scan_fixed_def scan_defs_def scan_items_def)

lemma defs_agree_append [simp]: "defs_agree L (xs @ ys) \<longleftrightarrow> defs_agree L xs \<and> defs_agree L ys"
  by (simp only: defs_agree_def set_append ball_Un)

lemma one_mode_Cons [simp]:
  "one_mode fo (call # calls) \<longleftrightarrow> mode_flows_only (do_mode (snd call)) = fo \<and> one_mode fo calls"
  by (simp add: one_mode_def)

lemma run_ledger:
  assumes "scan_ok c" and "agrees L c" and "defs_agree L (scan_defs r calls)" and "one_mode fo calls"
    and "valued_by L fo W" and "never_full r calls c" and "run_calls r calls c = (rows, c')"
  shows "scan_ok c' \<and> known_keys c' = known_keys c \<union> fst ` set (scan_defs r calls) \<and>
    (\<forall>k. set (items_of c' k) \<subseteq> set (items_of c k) \<union> set (scan_items r calls)) \<and>
    mset rows + waiting W c' = mset (scan_fixed r calls) + waiting W c + sum_list (map W (scan_items r calls))"
  using assms
proof (induction calls arbitrary: c rows)
  case (Cons call calls)
  obtain data opts where call: "call = (data, opts)" by (cases call)
  let ?ct = "content_of r (data, opts)"
  obtain out c1 where o: "decode_datagram data opts c r = (out, c1)" by fastforce
  obtain rest where rest: "run_calls r calls c1 = (rest, c')" and rows: "rows = out @ rest"
    using Cons.prems(7) by (cases "run_calls r calls c1") (simp add: call o)
  have "valued_by L (mode_flows_only (do_mode opts)) W" using Cons.prems(4,5) by (simp add: call)
  from datagram_ledger [OF Cons.prems(1,2) _ this _ refl o] Cons.prems(3,6)
  have d: "scan_ok c1" "agrees L c1" "known_keys c1 = after_learning ?ct c"
    "\<forall>k. items_of c1 k = (if k \<in> after_learning ?ct c then []
      else items_of c k @ filter (\<lambda>x. item_key x = k) (ct_items ?ct))"
    "mset out + waiting W c1 = mset (ct_rows ?ct) + waiting W c + sum_list (map W (ct_items ?ct))"
    by (auto simp: call)
  have "defs_agree L (scan_defs r calls)" "one_mode fo calls" "never_full r calls c1"
    using Cons.prems(3,4,6) o by (simp_all add: call)
  from Cons.IH [OF d(1,2) this(1,2) Cons.prems(5) this(3) rest]
  have ih: "scan_ok c'" "known_keys c' = known_keys c1 \<union> fst ` set (scan_defs r calls)"
    "\<forall>k. set (items_of c' k) \<subseteq> set (items_of c1 k) \<union> set (scan_items r calls)"
    "mset rest + waiting W c' = mset (scan_fixed r calls) + waiting W c1 + sum_list (map W (scan_items r calls))"
    by auto
  have "set (items_of c' k) \<subseteq> set (items_of c k) \<union> set (scan_items r (call # calls))" for k
  proof -
    have "set (items_of c1 k) \<subseteq> set (items_of c k) \<union> set (ct_items ?ct)" using d(4) by auto
    with ih(3) show ?thesis by (auto simp: call)
  qed
  moreover have "known_keys c' = known_keys c \<union> fst ` set (scan_defs r (call # calls))"
    unfolding ih(2) d(3) by (auto simp: call)
  moreover have "mset rows + waiting W c' =
      mset (scan_fixed r (call # calls)) + waiting W c + sum_list (map W (scan_items r (call # calls)))"
  proof -
    have "mset rows + waiting W c' = mset out + (mset (scan_fixed r calls) + waiting W c1 +
        sum_list (map W (scan_items r calls)))"
      by (simp add: rows ih(4) [symmetric])
    also have "\<dots> = mset (scan_fixed r calls) + (mset out + waiting W c1) + sum_list (map W (scan_items r calls))"
      by (simp add: ac_simps)
    finally show ?thesis by (simp add: d(5) call ac_simps)
  qed
  ultimately show ?case using ih(1) by blast
qed simp

text \<open>The flush pays out what is left waiting.\<close>

lemma flush_ledger:
  assumes "cache_ok c" and "\<And>k. one_version (items_of c k)"
    and "\<And>k x. x \<in> set (items_of c k) \<Longrightarrow> W x = {#missing_item x#}"
  shows "mset (fst (flush_pending c)) = waiting W c"
proof -
  have "flushed_rows c k = map missing_item (items_of c k)" for k
  proof -
    have "(if pr_version (hd (pending_of c k)) = ''10'' then ''10'' else ''9'') = cx_version (retry_ctx k rec)"
      if "rec \<in> set (pending_of c k)" for rec
    proof -
      have "hd (pending_of c k) \<in> set (pending_of c k)" using that by (cases "pending_of c k") auto
      with that have "pending_item k (hd (pending_of c k)) \<in> set (items_of c k)"
        "pending_item k rec \<in> set (items_of c k)" by (auto simp: items_of_def)
      from assms(2) [unfolded one_version_def, rule_format, OF this]
      have "cx_version (retry_ctx k (hd (pending_of c k))) = cx_version (retry_ctx k rec)" by simp
      then show ?thesis by (simp add: retry_ctx_def)
    qed
    then show ?thesis
      by (auto simp: flushed_rows_def items_of_def missing_item_def retry_ctx_def Let_def cong: map_cong)
  qed
  moreover have "map W (items_of c k) = map (\<lambda>x. {#missing_item x#}) (items_of c k)" for k
    by (intro map_cong refl assms(3))
  ultimately have "mset (flushed_rows c k) = sum_list (map W (items_of c k))" for k
    by (simp only: mset_singles)
  then show ?thesis
    unfolding flush_by_key [OF assms(1)] mset_rows waiting_def
    using pending_keys_in(1) [OF assms(1)] by (simp add: sum_list_distinct_conv_sum_set)
qed

lemma waiting_cong:
  "(\<And>k x. x \<in> set (items_of c k) \<Longrightarrow> W x = W' x) \<Longrightarrow> waiting W c = waiting W' c"
  unfolding waiting_def by (intro sum.cong refl arg_cong [where f = sum_list] map_cong)

lemma items_of_new [simp]: "items_of cache_new k = []"
  by (simp add: items_of_def pending_of_def cache_new_def bt_get_def)

lemma waiting_new [simp]: "waiting W cache_new = 0"
  by (simp add: waiting_def)

lemma known_new [simp]: "known_keys cache_new = {}"
  by (simp add: known_keys_def cache_new_def)

lemma agrees_new [simp]: "agrees L cache_new"
  by (simp add: agrees_def cache_peek_def cache_new_def bt_get_def)

lemma items_of_key: "x \<in> set (items_of c k) \<Longrightarrow> item_key x = k"
  by (auto simp: items_of_def)

lemma item_rows_valued: "valued_by L fo (\<lambda>x. mset (item_rows L fo x))"
  by (simp add: valued_by_def item_rows_def)

lemma scan_rows_spec:
  assumes "one_layout (scan_defs r calls)" and "one_version (scan_items r calls)" and "one_mode fo calls"
    and "never_full r calls cache_new"
  shows "mset (scan_rows r calls cache_new) = mset (spec_rows fo r calls)"
proof -
  let ?L = "map_of (scan_defs r calls)"
  let ?W = "\<lambda>x. mset (item_rows ?L fo x)"
  obtain rows c where run: "run_calls r calls cache_new = (rows, c)" by fastforce
  from run_ledger [OF scan_ok_new agrees_new map_of_agrees [OF assms(1)] assms(3) item_rows_valued assms(4) run]
  have l: "scan_ok c" "known_keys c = fst ` set (scan_defs r calls)"
    "\<And>k. set (items_of c k) \<subseteq> set (scan_items r calls)"
    "mset rows + waiting ?W c = mset (scan_fixed r calls) + sum_list (map ?W (scan_items r calls))" by auto
  have ok: "cache_ok c" using l(1) by (simp add: scan_ok_def)
  have none: "?W x = {#missing_item x#}" if x: "x \<in> set (items_of c k)" for x k
  proof -
    have "cache_peek c k = None" using l(1) x by (auto simp: scan_ok_def items_of_def)
    then have "k \<notin> fst ` set (scan_defs r calls)" using known_iff [of k c] by (simp add: l(2))
    then show ?thesis using items_of_key [OF x] by (simp add: item_rows_def map_of_eq_None_iff [symmetric])
  qed
  have "one_version (items_of c k)" for k
    using assms(2) l(3) [of k] unfolding one_version_def by blast
  from flush_ledger [OF ok this none] have "mset (fst (flush_pending c)) = waiting ?W c" .
  then show ?thesis
    using l(4) by (simp add: scan_rows_def run spec_rows_def mset_rows)
qed

section \<open>Small scans are never full\<close>

lemma pending_total_waiting: "cache_ok c \<Longrightarrow> pending_total c = waiting (\<lambda>x. length (snd x)) c"
proof -
  assume ok: "cache_ok c"
  have "sum_list (map (\<lambda>x. length (snd x)) (items_of c k)) = records_bytes (pending_of c k)" for k
    by (simp add: items_of_def records_bytes_def o_def)
  then have "waiting (\<lambda>x. length (snd x)) c = sum_list (map (\<lambda>k. records_bytes (pending_of c k)) (pending_keys c))"
    using pending_keys_in(1) [OF ok] by (simp add: waiting_def sum_list_distinct_conv_sum_set)
  also have "\<dots> = pending_total c"
    using pending_of_entry [OF ok]
    by (auto simp: pending_keys_def bt_keys_def pending_total_def bt_weight_def o_def
        intro!: arg_cong [where f = sum_list] map_cong)
  finally show ?thesis ..
qed

lemma never_full_total:
  assumes "scan_ok c" and "agrees L c" and "defs_agree L (scan_defs r calls)" and "one_mode fo calls"
    and "card (known_keys c \<union> fst ` set (scan_defs r calls)) \<le> unat (tc_cap_entries c)"
    and "pending_total c + sum_list (map (\<lambda>x. length (snd x)) (scan_items r calls)) \<le> unat (tc_cap_pending_bytes c)"
  shows "never_full r calls c"
  using assms
proof (induction calls arbitrary: c)
  case (Cons call calls)
  obtain data opts where call: "call = (data, opts)" by (cases call)
  let ?ct = "content_of r (data, opts)" and ?len = "\<lambda>x :: data_item. length (snd x)"
  have "card (after_learning ?ct c) \<le> card (known_keys c \<union> fst ` set (scan_defs r (call # calls)))"
    by (intro card_mono) (auto simp: known_keys_def call)
  moreover have "sum_list (map ?len (filter P xs)) \<le> sum_list (map ?len xs)" for P xs
    by (induction xs) auto
  from this [of "\<lambda>x. item_key x \<notin> after_learning ?ct c" "ct_items ?ct"]
  have "pending_total c + sum_list (map ?len (filter (\<lambda>x. item_key x \<notin> after_learning ?ct c) (ct_items ?ct)))
      \<le> unat (tc_cap_pending_bytes c)"
    using Cons.prems(6) by (simp add: call)
  ultimately have room: "has_room ?ct c" using Cons.prems(5) by (simp add: has_room_def)
  obtain out c1 where o: "decode_datagram data opts c r = (out, c1)" by fastforce
  have "valued_by L (mode_flows_only (do_mode opts)) (\<lambda>x. mset (item_rows L (mode_flows_only (do_mode opts)) x))"
    by (rule item_rows_valued)
  from datagram_ledger [OF Cons.prems(1,2) _ this room refl o] Cons.prems(3)
  have d: "scan_ok c1" "agrees L c1" "known_keys c1 = after_learning ?ct c"
    "tc_cap_entries c1 = tc_cap_entries c" "tc_cap_pending_bytes c1 = tc_cap_pending_bytes c"
    "\<And>k. items_of c1 k = (if k \<in> after_learning ?ct c then []
      else items_of c k @ filter (\<lambda>x. item_key x = k) (ct_items ?ct))"
    by (auto simp: call)
  have ok: "cache_ok c" "cache_ok c1" using Cons.prems(1) d(1) by (simp_all add: scan_ok_def)
  have "pending_total c1 \<le> pending_total c + sum_list (map ?len (ct_items ?ct))"
    using waiting_step [OF ok, of "\<lambda>k. k \<in> after_learning ?ct c" "ct_items ?ct" ?len, OF d(6)]
    by (simp add: pending_total_waiting ok)
  then have "never_full r calls c1"
    using Cons.prems(3-6) d(3-5) by (intro Cons.IH [OF d(1,2)]) (simp_all add: call Un_assoc image_Un)
  with room o show ?case by (simp add: call)
qed simp

lemma never_full_small:
  assumes "one_layout (scan_defs r calls)" and "one_mode fo calls"
    and "card (fst ` set (scan_defs r calls)) \<le> 100000"
    and "sum_list (map (\<lambda>x. length (snd x)) (scan_items r calls)) \<le> 4 * 1024 * 1024"
  shows "never_full r calls cache_new"
proof (rule never_full_total [OF scan_ok_new agrees_new map_of_agrees [OF assms(1)] assms(2)])
  show "card (known_keys cache_new \<union> fst ` set (scan_defs r calls)) \<le> unat (tc_cap_entries cache_new)"
    using assms(3) by (simp add: cache_new_def DEFAULT_CAP_ENTRIES_def known_keys_def)
  have "pending_total cache_new = 0" by (simp add: pending_total_waiting cache_ok_new)
  then show "pending_total cache_new + sum_list (map (\<lambda>x. length (snd x)) (scan_items r calls))
      \<le> unat (tc_cap_pending_bytes cache_new)"
    using assms(4) by (simp add: cache_new_def DEFAULT_CAP_PENDING_BYTES_def)
qed

section \<open>A small capture\<close>

lemma content_v9_written:
  assumes "\<forall>s \<in> set sets. set_fits s"
  shows "content_of AnyFormat (v9_datagram n u secs q src sets, call_options ex now fo) =
    sets_content ''9'' (Some (ucast u)) ex src (v9_hdr n u secs q src) (concat (map (v9_set_defs now) sets)) sets"
proof -
  let ?d = "v9_datagram n u secs q src sets"
  have "probe_version ?d = Some ''9''" by (simp add: v9_datagram_def probe_v9_header)
  moreover have "parse_header ?d = Some (v9_hdr n u secs q src)"
    by (simp add: v9_datagram_def parse_v9_header v9_hdr_def)
  moreover have "v9_split_flowsets (drop (min 20 (length ?d)) ?d) = Inr sets"
    unfolding v9_datagram_def drop_v9_header using v9_sets.split_put_sets [OF assms, of "[]"] by simp
  ultimately show ?thesis
    by (simp add: content_of_def accepted_def v9_content_def call_options_def v9_hdr_def Let_def)
qed

abbreviation orphan_call :: "i64 \<Rightarrow> bytes \<times> decode_options" where
  "orphan_call now \<equiv> (orphan, call_options [] now False)"

abbreviation teaching_call :: "i64 \<Rightarrow> bytes \<times> decode_options" where
  "teaching_call now \<equiv> (teaching, call_options [] now False)"

definition orphan_item :: data_item where
  "orphan_item = (set_ctx ''9'' (Some 1000) [] 3 (v9_hdr 1 1000 1700000000 7 3) \<lparr>set_id = 256, set_body = []\<rparr>,
     [10, 0, 0, 1, 0, 80])"

lemma orphan_content:
  "content_of AnyFormat (orphan_call now) = \<lparr>ct_rows = [], ct_defs = [], ct_items = [orphan_item]\<rparr>"
proof -
  have fits: "\<forall>s \<in> set (take 1 v9_sample_sets). set_fits s" by (simp add: v9_sample_sets_def set_fits_def)
  show ?thesis
    unfolding orphan_def content_v9_written [OF fits]
    by (simp add: v9_sample_sets_def sets_content_def orphan_item_def set_ctx_def v9_set_defs_def)
qed

lemma teaching_content:
  "content_of AnyFormat (teaching_call now) =
     \<lparr>ct_rows = [], ct_defs = [(TemplateKey [] 3 256, snd (taught_entry now))], ct_items = []\<rparr>"
proof -
  have fits: "\<forall>s \<in> set (drop 1 v9_sample_sets). set_fits s"
    by (simp add: v9_sample_sets_def set_fits_def length_put_v9_template)
  have defs: "concat (map (v9_set_defs now) (drop 1 v9_sample_sets)) = [taught_entry now]"
    using v9_sample_defs [of now] by (simp add: v9_sample_sets_def v9_set_defs_def)
  show ?thesis
    unfolding teaching_def content_v9_written [OF fits] defs
    by (simp add: v9_sample_sets_def sets_content_def v9_template_def_def)
qed

lemma small_capture:
  assumes "calls = [orphan_call t, teaching_call u] \<or> calls = [teaching_call u, orphan_call t]"
  shows "one_layout (scan_defs AnyFormat calls)" and "one_version (scan_items AnyFormat calls)"
    and "one_mode False calls" and "never_full AnyFormat calls cache_new"
proof -
  have d: "scan_defs AnyFormat calls = [(TemplateKey [] 3 256, snd (taught_entry u))]"
    "scan_items AnyFormat calls = [orphan_item]"
    using assms by (auto simp: orphan_content teaching_content)
  show layout: "one_layout (scan_defs AnyFormat calls)" by (simp add: d one_layout_def)
  show "one_version (scan_items AnyFormat calls)" by (simp add: d one_version_def)
  show mode: "one_mode False calls" using assms by (auto simp: call_options_def one_mode_def)
  show "never_full AnyFormat calls cache_new"
    by (rule never_full_small [OF layout mode]) (simp_all add: d orphan_item_def)
qed

lemma small_specs:
  "map (\<lambda>(ty, len). mk_field_spec 0 ty len) [(8, 4), (7, 2)] =
     [\<lparr>fs_ie_id = 8, fs_enterprise_number = 0, fs_length = 4, fs_name = ''sourceIPv4Address'', fs_ie_type = ''ipv4Address''\<rparr>,
      \<lparr>fs_ie_id = 7, fs_enterprise_number = 0, fs_length = 2, fs_name = ''sourceTransportPort'', fs_ie_type = ''unsigned16''\<rparr>]"
  by (simp add: mk_field_spec_def resolve_def iana_lookup_def REGISTRY_def registry_parts)

lemma orphan_item_rows:
  "decode_data_set (snd (taught_entry now)) (snd orphan_item) cx False =
     [(base_record cx)\<lparr>fr_src_addr := inet4 [10, 0, 0, 1], fr_src_port := Some 80\<rparr>]"
proof -
  let ?tpl = "snd (taught_entry now)"
  let ?row = "(base_record cx)\<lparr>fr_src_addr := inet4 [10, 0, 0, 1], fr_src_port := Some 80\<rparr>"
  have tpl: "te_fields ?tpl = map (\<lambda>(ty, len). mk_field_spec 0 ty len) [(8, 4), (7, 2)]"
    by (simp add: v9_template_def_def v9_entry_def)
  have "min_fixed ?tpl = 6" unfolding min_fixed_def tpl small_specs by (simp add: is_variable_def)
  moreover have "resolve_times cx None None ?row = ?row"
    by (simp add: resolve_times_def Let_def split: option.splits)
  moreover have "decode_fields (te_fields ?tpl) \<lparr>st_rec = base_record cx, st_start = None, st_end = None\<rparr>
      (cursor_new (snd orphan_item)) =
    Some (\<lparr>st_rec = ?row, st_start = None, st_end = None\<rparr>, \<lparr>cur_data = snd orphan_item, cur_pos = 6\<rparr>)"
    unfolding tpl small_specs orphan_item_def
    by (simp add: is_variable_def cur_take_def cursor_new_def cur_remaining_def slice_def
        map_field_def Let_def be_uint_def from_be_def be_nat_def base_record_def default_record_def opt_or_None)
  moreover have "cur_remaining (cursor_new (snd orphan_item)) = 6"
    by (simp add: orphan_item_def cursor_new_def cur_remaining_def)
  ultimately show ?thesis
    unfolding decode_data_set_def
    by (subst record_loop.simps)
      (simp add: decode_one_record_def, simp add: orphan_item_def cur_position_def cursor_new_def
        record_loop.simps cur_remaining_def)
qed

lemma small_spec:
  assumes "calls = [orphan_call t, teaching_call u] \<or> calls = [teaching_call u, orphan_call t]"
  shows "spec_rows False AnyFormat calls =
    [(base_record (fst orphan_item))\<lparr>fr_src_addr := inet4 [10, 0, 0, 1], fr_src_port := Some 80\<rparr>]"
proof -
  have "scan_defs AnyFormat calls = [(TemplateKey [] 3 256, snd (taught_entry u))]"
    "scan_items AnyFormat calls = [orphan_item]" "scan_fixed AnyFormat calls = []"
    using assms by (auto simp: orphan_content teaching_content)
  moreover have "item_key orphan_item = TemplateKey [] 3 256"
    by (simp add: item_key_def orphan_item_def set_ctx_def)
  ultimately show ?thesis by (simp add: spec_rows_def item_rows_def orphan_item_rows)
qed

section \<open>The decoder meets the specification\<close>

text \<open>
  C4. A scan puts out what its capture is worth.  For any datagrams of any exporters and formats,
  damaged ones included, the rows of the decoder with its cache, its buffer, its retries and its
  final flush are, as a multiset, those of the cacheless specification: the rows that need no
  template, and for every Data Set the rows under the layout its key has anywhere in the scan,
  with the times and the sequence number of its own datagram, or one report when the scan has no
  such layout.  (While the caps suffice, no layout is redefined differently, no exporter uses one id
  of a domain in both protocols, and all calls of the scan share one flows-only mode.)
\<close>

theorem scan_meets_spec:
  assumes "one_layout (scan_defs r calls)" and "one_version (scan_items r calls)" and "one_mode fo calls"
    and "never_full r calls cache_new" and "run_calls r calls cache_new = (rows, c)"
  shows "mset (rows @ fst (flush_pending c)) = mset (spec_rows fo r calls)"
  using scan_rows_spec [OF assms(1-4)] assms(5) by (simp add: scan_rows_def)

theorem scan_meets_spec_witness:
  "let (rows, c) = run_calls AnyFormat [orphan_call 5, teaching_call 6] cache_new
   in mset (rows @ fst (flush_pending c)) =
     {#(base_record (fst orphan_item))\<lparr>fr_src_addr := inet4 [10, 0, 0, 1], fr_src_port := Some 80\<rparr>#}"
proof -
  let ?calls = "[orphan_call 5, teaching_call 6]"
  have calls: "?calls = [orphan_call 5, teaching_call 6] \<or> ?calls = [teaching_call 6, orphan_call 5]" by simp
  obtain rows c where run: "run_calls AnyFormat ?calls cache_new = (rows, c)" by fastforce
  from scan_meets_spec [OF small_capture [OF calls] run] small_spec [OF calls] run show ?thesis
    by (simp only: Let_def prod.case mset.simps)
qed

end
