(* ===== verification/Scan_Order.thy ===== *)
theory Scan_Order
  imports Scan_Spec
begin

text \<open>
  The order of a capture.  The specification of \<open>Scan_Spec\<close> does not depend on the order of the
  datagrams nor on the clock, so neither do the rows of the decoder, nor what the worker puts out.
\<close>

section \<open>The clock\<close>

text \<open>Definitions read at two moments differ in their statistics only.\<close>

definition same_def :: "'k \<times> template_entry \<Rightarrow> 'k \<times> template_entry \<Rightarrow> bool" where
  "same_def d d' \<longleftrightarrow> fst d = fst d' \<and> same_layout (snd d) (snd d')"

lemma same_def_entry [simp]:
  "same_def (t, v9_entry k f s now) (t', v9_entry k' f' s' now') \<longleftrightarrow> t = t' \<and> k = k' \<and> f = f' \<and> s = s'"
  by (auto simp: same_def_def same_layout_def v9_entry_def)

lemma v9_template_defs_clock:
  "list_all2 same_def (v9_template_defs c now) (v9_template_defs c now')"
proof (induction c now rule: v9_template_defs.induct)
  case (1 c now)
  then show ?case by (subst (1 2) v9_template_defs.simps) (auto split: option.splits)
qed

lemma v9_options_defs_clock:
  "list_all2 same_def (v9_options_defs c now) (v9_options_defs c now')"
proof (induction c now rule: v9_options_defs.induct)
  case (1 c now)
  then show ?case by (subst (1 2) v9_options_defs.simps) (auto split: option.splits)
qed

lemma ipfix_template_defs_clock:
  "list_all2 same_def (ipfix_template_defs c now opt) (ipfix_template_defs c now' opt)"
proof (induction c now opt rule: ipfix_template_defs.induct)
  case (1 c now opt)
  then show ?case by (subst (1 2) ipfix_template_defs.simps) (auto simp: ipfix_entry_def split: option.splits)
qed

lemma set_defs_clock:
  "list_all2 same_def (concat (map (v9_set_defs now) sets)) (concat (map (v9_set_defs now') sets))"
  "list_all2 same_def (concat (map (ipfix_set_defs now) sets)) (concat (map (ipfix_set_defs now') sets))"
  by (induction sets)
    (auto simp: v9_set_defs_def ipfix_set_defs_def intro!: list_all2_appendI v9_template_defs_clock
      v9_options_defs_clock ipfix_template_defs_clock)

text \<open>A call without the reading of its clock.\<close>

definition timeless :: "bytes \<times> decode_options \<Rightarrow> bytes \<times> decode_options" where
  "timeless call = (fst call, (snd call)\<lparr>do_now_micros := 0\<rparr>)"

definition same_content :: "content \<Rightarrow> content \<Rightarrow> bool" where
  "same_content a b \<longleftrightarrow> ct_rows a = ct_rows b \<and> ct_items a = ct_items b \<and> list_all2 same_def (ct_defs a) (ct_defs b)"

lemma same_content_rows [simp]: "same_content (rows_only rows) (rows_only rows)"
  by (simp add: same_content_def)

lemma same_content_sets:
  assumes "list_all2 same_def defs defs'"
  shows "same_content (sets_content v up ex dm hdr defs sets) (sets_content v up ex dm hdr defs' sets)"
proof -
  have "list_all2 same_def (map (\<lambda>(tid, e). (TemplateKey ex dm tid, e)) defs)
      (map (\<lambda>(tid, e). (TemplateKey ex dm tid, e)) defs')"
    using assms by induction (auto simp: same_def_def)
  then show ?thesis by (simp add: same_content_def sets_content_def)
qed

lemma content_clock: "same_content (content_of r call) (content_of r (timeless call))"
proof -
  have "same_content (v9_content data ex ov now) (v9_content data ex ov now')" for data ex ov now now'
    by (auto simp: v9_content_def Let_def intro!: same_content_sets set_defs_clock split: option.splits sum.splits)
  moreover have "same_content (ipfix_content data ex ov now) (ipfix_content data ex ov now')" for data ex ov now now'
    by (auto simp: ipfix_content_def Let_def intro!: same_content_sets set_defs_clock split: option.splits sum.splits)
  ultimately show ?thesis
    by (auto simp: content_of_def timeless_def Let_def case_prod_beta split: option.splits)
qed

section \<open>The order\<close>

text \<open>The same datagrams with the same options, in any order and at any time.\<close>

definition same_capture :: "calls \<Rightarrow> calls \<Rightarrow> bool" where
  "same_capture calls calls' \<longleftrightarrow> mset (map timeless calls) = mset (map timeless calls')"

lemma mset_concat_cong:
  "mset xs = mset ys \<Longrightarrow> mset (concat (map f xs)) = mset (concat (map f ys))"
  unfolding mset_rows by (metis mset_map sum_mset_sum_list)

lemma capture_same:
  assumes "same_capture calls calls'"
  shows "mset (scan_fixed r calls) = mset (scan_fixed r calls')"
    and "mset (scan_items r calls) = mset (scan_items r calls')"
proof -
  have rows: "ct_rows (content_of r call) = ct_rows (content_of r (timeless call))"
    and items: "ct_items (content_of r call) = ct_items (content_of r (timeless call))" for call
    using content_clock [of r call] by (simp_all add: same_content_def)
  have c: "mset (map timeless calls) = mset (map timeless calls')" using assms by (simp add: same_capture_def)
  show "mset (scan_fixed r calls) = mset (scan_fixed r calls')"
    using mset_concat_cong [OF c, of "\<lambda>call. ct_rows (content_of r call)"]
    unfolding scan_fixed_def map_map o_def rows [symmetric] .
  show "mset (scan_items r calls) = mset (scan_items r calls')"
    using mset_concat_cong [OF c, of "\<lambda>call. ct_items (content_of r call)"]
    unfolding scan_items_def map_map o_def items [symmetric] .
qed

lemma same_layout_sym: "same_layout a b \<Longrightarrow> same_layout b a"
  by (simp add: same_layout_def)

lemma list_all2_partner: "list_all2 P xs ys \<Longrightarrow> x \<in> set xs \<Longrightarrow> \<exists>y \<in> set ys. P x y"
  by (induction rule: list_all2_induct) auto

lemma list_all2_partner': "list_all2 P xs ys \<Longrightarrow> y \<in> set ys \<Longrightarrow> \<exists>x \<in> set xs. P x y"
  by (induction rule: list_all2_induct) auto

lemma capture_defs:
  assumes "same_capture calls calls'" and "(k, e) \<in> set (scan_defs r calls)"
  shows "\<exists>e'. (k, e') \<in> set (scan_defs r calls') \<and> same_layout e e'"
proof -
  obtain call where call: "call \<in> set calls" "(k, e) \<in> set (ct_defs (content_of r call))"
    using assms(2) by (auto simp: scan_defs_def)
  have "timeless call \<in> set (map timeless calls')"
    using assms(1) call(1) unfolding same_capture_def by (metis imageI mset_eq_setD set_map)
  then obtain call' where call': "call' \<in> set calls'" "timeless call = timeless call'" by auto
  have clock: "list_all2 same_def (ct_defs (content_of r call)) (ct_defs (content_of r (timeless call)))" for call
    using content_clock [of r call] by (simp add: same_content_def)
  from list_all2_partner [OF clock call(2)] obtain e1
    where e1: "(k, e1) \<in> set (ct_defs (content_of r (timeless call')))" "same_layout e e1"
    by (auto simp: same_def_def call'(2))
  from list_all2_partner' [OF clock e1(1)] obtain e'
    where "(k, e') \<in> set (ct_defs (content_of r call'))" "same_layout e' e1"
    by (auto simp: same_def_def)
  with same_layout_trans [OF e1(2) same_layout_sym] call'(1) show ?thesis
    by (auto simp: scan_defs_def)
qed

lemma capture_sym: "same_capture calls calls' \<Longrightarrow> same_capture calls' calls"
  by (simp add: same_capture_def)

lemma capture_layouts:
  assumes "same_capture calls calls'" and "one_layout (scan_defs r calls)"
  shows "one_layout (scan_defs r calls')"
    and "rel_option same_layout (map_of (scan_defs r calls) k) (map_of (scan_defs r calls') k)"
proof -
  let ?D = "set (scan_defs r calls)" and ?D' = "set (scan_defs r calls')"
  have unique: "same_layout e e'" if "(k, e) \<in> ?D" "(k, e') \<in> ?D" for k e e'
    using assms(2) that unfolding one_layout_def by fastforce
  have earlier: "\<exists>e'. (k, e') \<in> ?D \<and> same_layout e e'" if "(k, e) \<in> ?D'" for k e
    by (rule capture_defs [OF capture_sym [OF assms(1)] that])
  show "one_layout (scan_defs r calls')"
    unfolding one_layout_def by (clarify) (meson earlier unique same_layout_trans same_layout_sym)
  show "rel_option same_layout (map_of (scan_defs r calls) k) (map_of (scan_defs r calls') k)"
  proof (cases "map_of (scan_defs r calls) k")
    case None
    then have "k \<notin> fst ` ?D'" using earlier by (force simp: map_of_eq_None_iff)
    with None show ?thesis by (simp add: map_of_eq_None_iff [symmetric])
  next
    case (Some e)
    then have e: "(k, e) \<in> ?D" by (rule map_of_SomeD)
    from capture_defs [OF assms(1) e] obtain e1 where "map_of (scan_defs r calls') k = Some e1"
      by (meson weak_map_of_SomeI)
    moreover from map_of_SomeD [OF this] obtain e2 where "(k, e2) \<in> ?D" "same_layout e1 e2" using earlier by blast
    ultimately show ?thesis using Some unique [OF e] by (auto intro: same_layout_trans same_layout_sym)
  qed
qed

lemma spec_rows_order:
  assumes "same_capture calls calls'" and "one_layout (scan_defs r calls)"
  shows "mset (spec_rows fo r calls) = mset (spec_rows fo r calls')"
proof -
  have "item_rows (map_of (scan_defs r calls)) fo x = item_rows (map_of (scan_defs r calls')) fo x" for x
    using capture_layouts(2) [OF assms, of "item_key x"]
    by (cases rule: option.rel_cases) (auto simp: item_rows_def dest: decode_data_set_cong)
  then have "mset (concat (map (item_rows (map_of (scan_defs r calls)) fo) (scan_items r calls))) =
      mset (concat (map (item_rows (map_of (scan_defs r calls')) fo) (scan_items r calls')))"
    using mset_concat_cong [OF capture_same(2) [OF assms(1)], of "item_rows (map_of (scan_defs r calls)) fo" r]
    by (simp cong: map_cong)
  then show ?thesis using capture_same(1) [OF assms(1)] by (simp add: spec_rows_def)
qed

lemma capture_versions:
  assumes "same_capture calls calls'" and "one_version (scan_items r calls)"
  shows "one_version (scan_items r calls')"
proof -
  have "set (scan_items r calls) = set (scan_items r calls')"
    by (rule mset_eq_setD [OF capture_same(2) [OF assms(1)]])
  with assms(2) show ?thesis by (simp only: one_version_def)
qed

lemma capture_mode:
  assumes "same_capture calls calls'" and "one_mode fo calls"
  shows "one_mode fo calls'"
  unfolding one_mode_def
proof
  fix call'
  assume "call' \<in> set calls'"
  then have "timeless call' \<in> set (map timeless calls)"
    using assms(1) unfolding same_capture_def by (metis imageI mset_eq_setD set_map)
  then obtain call where "call \<in> set calls" "timeless call' = timeless call" by auto
  with assms(2) show "mode_flows_only (do_mode (snd call')) = fo"
    by (cases "snd call'"; cases "snd call") (auto simp: timeless_def one_mode_def)
qed

lemma scan_rows_order:
  assumes "same_capture calls calls'" and "one_layout (scan_defs r calls)" and "one_version (scan_items r calls)"
    and "one_mode fo calls" and "never_full r calls cache_new" and "never_full r calls' cache_new"
  shows "mset (scan_rows r calls cache_new) = mset (scan_rows r calls' cache_new)"
proof -
  have "mset (scan_rows r calls' cache_new) = mset (spec_rows fo r calls')"
    by (rule scan_rows_spec [OF capture_layouts(1) [OF assms(1,2)] capture_versions [OF assms(1,3)]
          capture_mode [OF assms(1,4)] assms(6)])
  then show ?thesis
    using scan_rows_spec [OF assms(2-5)] spec_rows_order [OF assms(1,2)] by simp
qed

section \<open>The worker\<close>

text \<open>
  C5. The order of a capture does not matter as long as its templates are stable and the caps of
  the cache are not reached.  Two input relations with the same datagrams and options, in different
  orders, cut into different batches, read at different times, against different storages, make the
  worker put out the same rows of cells as often, although a template may come after the data that
  needs it in one and before it in the other.  Stable means that no layout is redefined
  differently within the capture and that no exporter uses one id of a domain in both protocols;
  besides, both scans start afresh, no cap is reached in either order, all calls share one
  flows-only mode, and the texts and raw fields of the scan fit Arrow's 32-bit offsets.  (Where one of the
  others fails, the order can matter, which is why the documentation asks for the capture order.)
\<close>

theorem worker_order_irrelevant:
  assumes "storage_laws sv" and "codec_laws sv" and "try_new_laws try_new"
    and "scan_params p" and "load_scan_cache sv p = cache_new" and "scan_params p'" and "load_scan_cache sv p' = cache_new"
    and "list_all2 (\<lambda>(now, batch) calls. batch_calls debug fd now batch = Inr calls) batches css"
    and "list_all2 (\<lambda>(now, batch) calls. batch_calls debug fd now batch = Inr calls) batches' css'"
    and "same_capture (concat css) (concat css')"
    and "one_layout (scan_defs (fd_restrict fd) (concat css))" and "one_version (scan_items (fd_restrict fd) (concat css))"
    and "one_mode fo (concat css)" and "never_full (fd_restrict fd) (concat css) cache_new"
    and "never_full (fd_restrict fd) (concat css') cache_new"
    and "rows_fit (spec_rows fo (fd_restrict fd) (concat css))"
  shows "\<exists>out out'. run_worker sv debug try_new fd flow_schema batches p = Inr out \<and>
    run_worker sv debug try_new fd flow_schema batches' p' = Inr out' \<and> mset (cells_of out) = mset (cells_of out')"
proof -
  let ?r = "fd_restrict fd"
  have spec: "mset (scan_rows ?r (concat css) cache_new) = mset (spec_rows fo ?r (concat css))"
    by (rule scan_rows_spec [OF assms(11-14)])
  have order: "mset (scan_rows ?r (concat css) cache_new) = mset (scan_rows ?r (concat css') cache_new)"
    by (rule scan_rows_order [OF assms(10-15)])
  have small: "rows_fit (scan_rows ?r (concat css) cache_new)" "rows_fit (scan_rows ?r (concat css') cache_new)"
    using assms(16) rows_fit_mset [OF spec] rows_fit_mset [OF order] by simp_all
  have "scan_ok (load_scan_cache sv p)" "scan_ok (load_scan_cache sv p')" by (simp_all add: assms(5,7) scan_ok_new)
  from run_worker_exact [OF assms(1-4) this(1) assms(8)] run_worker_exact [OF assms(1-3,6) this(2) assms(9)] small
  obtain out out' where "run_worker sv debug try_new fd flow_schema batches p = Inr out"
    "cells_of out = map row_cells (scan_rows ?r (concat css) cache_new)"
    "run_worker sv debug try_new fd flow_schema batches' p' = Inr out'"
    "cells_of out' = map row_cells (scan_rows ?r (concat css') cache_new)"
    unfolding assms(5,7) by blast
  with order show ?thesis by simp
qed

theorem worker_order_irrelevant_witness:
  "\<exists>out out'. run_worker sample_services (\<lambda>_. []) checking_try_new fd_flows flow_schema
       [(5, one_datagram orphan), (6, one_datagram teaching)] fresh_params = Inr out \<and>
     run_worker sample_services (\<lambda>_. []) checking_try_new fd_flows flow_schema
       [(8, one_datagram teaching), (9, one_datagram orphan)] fresh_params = Inr out' \<and>
     mset (cells_of out) = mset (cells_of out')"
proof -
  have p: "scan_params fresh_params"
    by (simp add: scan_params_def fresh_params_ok)
  have r: "fd_restrict fd_flows = AnyFormat" by (simp add: fd_flows_def)
  let ?css = "[[orphan_call 5], [teaching_call 6]]" and ?css' = "[[teaching_call 8], [orphan_call 9]]"
  have b: "list_all2 (\<lambda>(now, batch) calls. batch_calls (\<lambda>_. []) fd_flows now batch = Inr calls)
      [(5, one_datagram orphan), (6, one_datagram teaching)] ?css"
    "list_all2 (\<lambda>(now, batch) calls. batch_calls (\<lambda>_. []) fd_flows now batch = Inr calls)
      [(8, one_datagram teaching), (9, one_datagram orphan)] ?css'"
    by (simp_all add: one_datagram_calls call_options_def)
  have same: "same_capture (concat ?css) (concat ?css')"
    by (simp add: same_capture_def timeless_def call_options_def)
  have l: "concat ?css = [orphan_call 5, teaching_call 6] \<or> concat ?css = [teaching_call 6, orphan_call 5]"
    and l': "concat ?css' = [orphan_call 9, teaching_call 8] \<or> concat ?css' = [teaching_call 8, orphan_call 9]"
    by simp_all
  have raw: "rows_fit (spec_rows False AnyFormat (concat ?css))"
    unfolding small_spec [OF l] by (simp add: rows_fit_def row_sizes_def base_record_def default_record_def orphan_item_def set_ctx_def)
  from worker_order_irrelevant [OF sample_storage sample_codec checking_try_new_laws p fresh_load p fresh_load b same,
      unfolded r, OF small_capture [OF l] small_capture(4) [OF l'] raw]
  show ?thesis .
qed

end
