(* ===== verification/Output_Bound.thy ===== *)
theory Output_Bound
  imports Scan_Spec
begin

text \<open>
  No amplification: the rows of a scan are bounded by the bytes of its datagrams, whatever these
  announce, and whatever is buffered, retried, evicted, refused or reported on the way.  The ledger
  of \<open>Scan_Spec\<close> is kept in \<open>nat\<close> here, a Data Set being charged one more than its bytes.
\<close>

definition charge :: "data_item \<Rightarrow> nat" where
  "charge x = 1 + length (snd x)"

section \<open>A Data Set is charged once\<close>

fun fate_items :: "fate \<Rightarrow> data_item list" where
  "fate_items (Buffered k rec) = [pending_item k rec]"
| "fate_items _ = []"

lemma decode_data_set_length: "length (decode_data_set tpl b cx fo) \<le> length b"
proof (cases "fo \<and> te_kind tpl = TkOptions")
  case False
  from record_loop_shape [of tpl cx "cursor_new b"] have "length (record_loop tpl cx (cursor_new b)) \<le> length b"
    by auto
  with False show ?thesis by (simp add: decode_data_set_def)
qed (simp add: decode_data_set_def)

lemma fate_charge:
  "fate_ok version up ex dm hdr fo c c' s f \<Longrightarrow>
     length (fate_rows f) + sum_list (map charge (fate_items f)) \<le> 1 + length (set_body s)"
  using le_SucI [OF decode_data_set_length]
  by (auto simp: fate_ok_def charge_def set_pending_def split: option.splits)

lemma fates_charge:
  "list_all2 (fate_ok version up ex dm hdr fo c c') sets fates \<Longrightarrow>
     length (concat (map fate_rows fates)) + sum_list (map charge (concat (map fate_items fates)))
       \<le> sum_list (map (\<lambda>s. 1 + length (set_body s)) sets)"
  by (induction rule: list_all2_induct) (use fate_charge in fastforce)+

lemma fates_buffered:
  "map (pending_item k) (concat (map (fate_buffered k) fates)) =
     filter (\<lambda>x. item_key x = k) (concat (map fate_items fates))"
proof (induction fates)
  case (Cons f fates)
  then show ?case by (cases f) auto
qed simp

lemma sets_charge:
  assumes "region = concat (map put_set sets) @ padding"
  shows "sum_list (map (\<lambda>s. 1 + length (set_body s)) (filter P sets)) \<le> length region"
proof -
  have "sum_list (map (\<lambda>s. 1 + length (set_body s)) (filter P sets)) \<le> length (concat (map put_set sets))"
    by (induction sets) (auto simp: put_set_def)
  with assms show ?thesis by simp
qed

section \<open>One datagram\<close>

definition charged :: "nat \<Rightarrow> template_cache \<Rightarrow> flow_record list \<times> template_cache \<Rightarrow> bool" where
  "charged n c res \<longleftrightarrow> cache_ok (snd res) \<and>
     length (fst res) + waiting charge (snd res) \<le> waiting charge c + n"

context data_pass
begin

lemma pass_charged:
  assumes "cache_ok c" and "\<forall>s \<in> set sets. length (set_body s) < 2 ^ 32"
  shows "charged (sum_list (map (\<lambda>s. 1 + length (set_body s)) (filter (\<lambda>s. \<not> set_id s < 256) sets))) c
    (pass ex dm hdr now fo sets (learn_all ex dm defs c))"
proof -
  let ?c = "learn_all ex dm defs c"
  obtain rows c' where p: "pass ex dm hdr now fo sets ?c = (rows, c')" by fastforce
  from pass_fates [OF cache_ok_learn_all [OF assms(1)] assms(2) p] obtain fates
    where f: "list_all2 (fate_ok version (uptime hdr) ex dm hdr fo ?c c') (filter (\<lambda>s. \<not> set_id s < 256) sets) fates"
      "rows = concat (map fate_rows fates)"
      "\<forall>k. pending_of c' k = pending_of ?c k @ concat (map (fate_buffered k) fates)" "pass_frame ?c c'" by blast
  have ok: "cache_ok c'" using f(4) by (simp add: pass_frame_def)
  have "items_of c' k = items_of c k @ filter (\<lambda>x. item_key x = k) (concat (map fate_items fates))" for k
    using f(3) fates_buffered [of k fates] by (simp add: items_of_def pending_of_def)
  then have "waiting charge c' = waiting charge c + sum_list (map charge (concat (map fate_items fates)))"
    using waiting_step [OF assms(1) ok, of "\<lambda>_. False" "concat (map fate_items fates)" charge] by simp
  with fates_charge [OF f(1)] ok show ?thesis by (simp add: charged_def p f(2))
qed

end

lemma charged_stateless: "cache_ok c \<Longrightarrow> length rows \<le> n \<Longrightarrow> charged n c (rows, c)"
  by (simp add: charged_def)

lemma charged_mono: "charged n c res \<Longrightarrow> n \<le> m \<Longrightarrow> charged m c res"
  by (simp add: charged_def)

lemma v9_charged: "cache_ok c \<Longrightarrow> charged (1 + length data) c (v9_decode data ex ov c now fo)"
proof -
  assume ok: "cache_ok c"
  have "charged (1 + length data) c (v9_data_pass ex dm hdr now fo sets (learn_all ex dm defs c))"
    if s: "v9_split_flowsets (drop (min 20 (length data)) data) = Inr sets" for dm hdr sets defs
  proof -
    from v9_sets.split_sound [OF s] obtain padding
      where "drop (min 20 (length data)) data = concat (map put_set sets) @ padding" by blast
    from sets_charge [OF this, of "\<lambda>s. \<not> set_id s < 256"]
    show ?thesis by (intro charged_mono [OF v9_pass.pass_charged [OF ok split_sets_fit(1) [OF s]]]) simp
  qed
  with ok show ?thesis
    by (auto simp: v9_decode_def v9_learn_pass_eq Let_def charged_stateless split: option.splits sum.splits)
qed

lemma ipfix_charged: "cache_ok c \<Longrightarrow> charged (1 + length data) c (ipfix_decode data ex ov c now fo)"
proof -
  assume ok: "cache_ok c"
  have "charged (1 + length data) c (ipfix_data_pass ex dm hdr now fo sets (learn_all ex dm defs c))"
    if s: "ipfix_split_sets (drop (min 16 (length data)) data) = Inr sets" for dm hdr sets defs
  proof -
    from ipfix_sets.split_sound [OF s] obtain padding
      where "drop (min 16 (length data)) data = concat (map put_set sets) @ padding" by blast
    from sets_charge [OF this, of "\<lambda>s. \<not> set_id s < 256"]
    show ?thesis by (intro charged_mono [OF ipfix_pass.pass_charged [OF ok split_sets_fit(2) [OF s]]]) simp
  qed
  with ok show ?thesis
    by (auto simp: ipfix_decode_def ipfix_learn_pass_eq Let_def charged_stateless split: option.splits sum.splits)
qed

lemma v5_loop_length: "length (v5_loop n cur ex d hdr boot) \<le> 1 + cur_remaining cur"
proof -
  obtain q where q: "cur_remaining cur div 48 = q" "q \<le> cur_remaining cur" by simp
  then have "length (chunks 48 (cur_rest cur)) = q" by (simp add: length_chunks)
  with q(2) show ?thesis by (simp add: v5_loop_eq q(1) min_def)
qed

lemma v5_length: "length (v5_decode data ex) \<le> 1 + length data"
proof (cases "parse_header data")
  case (Some hdr)
  let ?c = "snd (cur_skip 24 (cursor_new data))"
  have "cur_remaining ?c \<le> length data" by (simp add: cur_skip_eq)
  then have "length (v5_loop n ?c ex d hdr boot) \<le> 1 + length data" for n d boot
    using v5_loop_length [of n ?c ex d hdr boot] by linarith
  with Some show ?thesis by (simp add: v5_decode_def Let_def case_prod_beta)
qed (simp add: v5_decode_def)

lemma sflow_length: "length (sflow_decode data ex fo) \<le> 1 + length data"
  using length_sflow_decode [of data ex fo] div_le_dividend [of "length data" 8] by linarith

lemma datagram_charged: "cache_ok c \<Longrightarrow> charged (1 + length data) c (datagram_out data opts c r)"
  using v9_charged ipfix_charged v5_length sflow_length
  by (auto simp: datagram_out_def Let_def charged_stateless split: option.splits)

lemma retry_charged:
  assumes "cache_ok c"
  shows "charged 0 c (retry_pending c now fo)"
proof -
  obtain rows c' where r: "retry_pending c now fo = (rows, c')" by fastforce
  let ?known = "\<lambda>k. cache_peek c k \<noteq> None" and ?ks = "filter (\<lambda>k. cache_peek c k \<noteq> None) (pending_keys c)"
  from retry_loop_spec [OF assms pending_keys_in(1) [OF assms] r [unfolded retry_pending_def]]
  have s: "rows = concat (map (retried_rows fo c) ?ks)" "cache_ok c'"
    "\<forall>k. pending_of c' k = (if k \<in> set (pending_keys c) \<and> cache_peek c k \<noteq> None then [] else pending_of c k)"
    by auto
  have items: "items_of c' k = (if ?known k then [] else items_of c k @ filter (\<lambda>x. item_key x = k) [])" for k
    using s(3) no_items [OF assms, of k] by (auto simp: items_of_def)
  have one: "length (retried_rows fo c k) \<le> sum_list (map charge (items_of c k))" for k
  proof -
    have "length (concat (map (\<lambda>rec. decode_data_set t (pr_bytes rec) (retry_ctx k rec) fo) recs)) \<le>
        sum_list (map charge (map (pending_item k) recs))" for t recs
      unfolding length_concat map_map o_def
      by (intro sum_list_mono) (simp add: charge_def le_SucI [OF decode_data_set_length])
    then show ?thesis by (simp add: retried_rows_def items_of_def)
  qed
  have "length rows = (\<Sum>k \<leftarrow> ?ks. length (retried_rows fo c k))"
    by (simp add: s(1) length_concat o_def)
  also have "\<dots> \<le> (\<Sum>k \<leftarrow> ?ks. sum_list (map charge (items_of c k)))"
    by (rule sum_list_mono) (rule one)
  also have "\<dots> = (\<Sum>k \<in> {k \<in> set (pending_keys c). ?known k}. sum_list (map charge (items_of c k)))"
    using pending_keys_in(1) [OF assms] by (simp add: sum_list_distinct_conv_sum_set)
  finally show ?thesis
    using waiting_step [OF assms s(2), of ?known "[]" charge, OF items] s(2) by (simp add: charged_def r)
qed

lemma decode_charged:
  assumes "cache_ok c"
  shows "charged (1 + length data) c (decode_datagram data opts c r)"
proof -
  obtain out c1 where o: "datagram_out data opts c r = (out, c1)" by fastforce
  have d: "charged (1 + length data) c (out, c1)" using datagram_charged [OF assms] o by metis
  then have "charged 0 c1 (retry_pending c1 (do_now_micros opts) (mode_flows_only (do_mode opts)))"
    by (intro retry_charged) (simp add: charged_def)
  with d show ?thesis by (auto simp: decode_datagram_eq o charged_def split: prod.splits)
qed

section \<open>A scan\<close>

lemma run_charged:
  "cache_ok c \<Longrightarrow> charged (sum_list (map (\<lambda>(data, _). 1 + length data) calls)) c (run_calls r calls c)"
proof (induction calls arbitrary: c)
  case (Cons call calls)
  obtain data opts where call: "call = (data, opts)" by (cases call)
  have "charged (1 + length data) c (decode_datagram data opts c r)" by (rule decode_charged [OF Cons.prems])
  with Cons.IH [of "snd (decode_datagram data opts c r)"] show ?case
    by (auto simp: call charged_def split: prod.splits)
qed (simp add: charged_def)

lemma flush_charged:
  assumes "cache_ok c"
  shows "length (fst (flush_pending c)) \<le> waiting charge c"
proof -
  have "length (flushed_rows c k) \<le> sum_list (map charge (items_of c k))" for k
  proof -
    have "length recs \<le> sum_list (map charge (map (pending_item k) recs))" for recs
      by (induction recs) (auto simp: charge_def)
    then show ?thesis by (simp add: flushed_rows_def items_of_def)
  qed
  then have "length (fst (flush_pending c)) \<le> (\<Sum>k \<leftarrow> pending_keys c. sum_list (map charge (items_of c k)))"
    unfolding flush_by_key [OF assms] length_concat map_map o_def by (intro sum_list_mono)
  also have "\<dots> = waiting charge c"
    using pending_keys_in(1) [OF assms] by (simp add: waiting_def sum_list_distinct_conv_sum_set)
  finally show ?thesis .
qed

text \<open>
  C7. No amplification.  A scan of any datagrams whatever puts out at most one row for each byte
  of them and one more for each datagram, the rows of retries and of the final flush included:
  the counts and lengths a hostile datagram announces, templates redefined over buffered data and
  a full buffer do not change that.
\<close>

theorem scan_output_bounded:
  "length (scan_rows r calls cache_new) \<le> sum_list (map (\<lambda>(data, _). 1 + length data) calls)"
proof -
  obtain rows c where run: "run_calls r calls cache_new = (rows, c)" by fastforce
  from run_charged [OF cache_ok_new, of calls r] run
  have "cache_ok c" "length rows + waiting charge c \<le> sum_list (map (\<lambda>(data, _). 1 + length data) calls)"
    by (simp_all add: charged_def)
  with flush_charged [of c] show ?thesis by (simp add: scan_rows_def run)
qed

end
