(* ===== verification/Diagnostics.thy ===== *)
theory Diagnostics
  imports Row_Laws
begin

text \<open>
  The \<open>diagnostics\<close> column of \<open>normalize.rs\<close>, followed through every decoder by the law of rows:
  which notes a row can carry, and when a row says that a whole datagram was given up.
\<close>

section \<open>Rows that decode\<close>

definition clean :: "flow_record \<Rightarrow> bool" where
  "clean r \<longleftrightarrow> fr_diagnostics r \<in> {None, Some ''truncated'', Some ''enterprise-unmapped'',
     Some ''counter-sample''} \<or> (\<exists>dm tid. fr_diagnostics r = Some (missing_template dm tid))"

lemma note_unmapped:
  "fr_diagnostics r \<in> {None, Some ''enterprise-unmapped''} \<Longrightarrow>
     fr_diagnostics (note_diag ''enterprise-unmapped'' r) = Some ''enterprise-unmapped''"
  by (auto simp: note_diag_def)

text \<open>A row in the making has no note, or the one that \<open>map_field\<close> writes.\<close>

definition field_notes :: "flow_record \<Rightarrow> bool" where
  "field_notes r \<longleftrightarrow> fr_diagnostics r = None \<or> fr_diagnostics r = Some ''enterprise-unmapped''"

lemma map_field_notes: "field_notes (st_rec st) \<Longrightarrow> field_notes (st_rec (map_field f bs st))"
  using note_unmapped [of "st_rec st"] by (auto simp: map_field_def field_notes_def Let_def)

lemma decode_fields_notes:
  "decode_fields fs st c = Some (st', c') \<Longrightarrow> field_notes (st_rec st) \<Longrightarrow> field_notes (st_rec st')"
proof (induction fs arbitrary: st c)
  case (Cons f fs)
  from Cons.prems(1) obtain bs c1 where "decode_fields fs (map_field f bs st) c1 = Some (st', c')"
    by (auto split: if_splits Option.bind_splits)
  from Cons.IH [OF this map_field_notes [OF Cons.prems(2)]] show ?case .
qed simp

lemma resolve_times_diag [simp]: "fr_diagnostics (resolve_times cx s e r) = fr_diagnostics r"
  by (simp add: resolve_times_def Let_def split: option.splits)

lemma decode_one_record_clean: "decode_one_record tpl cx c = Some (r, c') \<Longrightarrow> clean r"
  by (auto simp: decode_one_record_def base_record_def default_record_def clean_def field_notes_def
      split: Option.bind_splits dest!: decode_fields_notes)

interpretation clean_law: row_law clean
proof
  show "clean r" if "decode_one_record tpl cx c = Some (r, c')" for tpl cx c r c'
    using that by (rule decode_one_record_clean)
  show "clean r" if "r \<in> set (decode_flow_sample bs ex sub sequence expanded)"
    for r bs ex sub sequence expanded
    using that decode_flow_sample_diag [of bs ex sub sequence expanded] by (auto simp: clean_def)
qed (auto simp: clean_def v5_decode_record_def Let_def case_prod_beta
    decode_counter_sample_diag)

lemma decode_datagram_notes:
  assumes "r \<in> set (fst (decode_datagram data opts c restr))"
  shows "clean r \<or> (\<exists>d. fr_diagnostics r = Some d \<and> given_up data restr d)"
  using clean_law.datagram_ok [OF assms] by (auto simp: note_row_def)

text \<open>
  C36. The diagnostics column has a closed vocabulary: a row of any datagram, under any options
  and any cache, has no note, or exactly one of \<open>truncated\<close>, \<open>enterprise-unmapped\<close>,
  \<open>counter-sample\<close>, \<open>missing-template:<domain>/<id>\<close>, or the note that says why the whole
  datagram was given up, and that note is then true of the datagram.
\<close>

theorem diagnostics_catalogue:
  "list_all (\<lambda>r. fr_diagnostics r \<in> {None, Some ''truncated'', Some ''enterprise-unmapped'',
       Some ''counter-sample''} \<or>
     (\<exists>dm tid. fr_diagnostics r = Some (missing_template dm tid)) \<or>
     (\<exists>d. fr_diagnostics r = Some d \<and> given_up data restr d))
   (fst (decode_datagram data opts c restr))"
  using decode_datagram_notes [of _ data opts c restr]
  by (auto simp: list_all_iff clean_def)

end
