(* ===== verification/Wellformed.thy ===== *)
theory Wellformed
  imports Diagnostics Ipfix
begin

text \<open>
  Structural validation (\<open>wellformed.rs\<close>): the four validators, what a positive verdict means,
  and how it relates to what the decoders do with the same datagram.
\<close>

section \<open>Verdicts\<close>

record well_formed_result =
  wf_ok :: bool
  wf_version :: "string option"
  wf_error :: "string option"
  wf_kind :: "string option"

definition well_formed_ok :: "string \<Rightarrow> well_formed_result" where
  "well_formed_ok version =
     \<lparr>wf_ok = True, wf_version = Some version, wf_error = None, wf_kind = None\<rparr>"

definition well_formed_bad :: "string option \<Rightarrow> string \<Rightarrow> string \<Rightarrow> well_formed_result" where
  "well_formed_bad version error kind =
     \<lparr>wf_ok = False, wf_version = version, wf_error = Some error, wf_kind = Some kind\<rparr>"

section \<open>Validation\<close>

function validate_sets :: "bytes \<Rightarrow> string \<Rightarrow> string \<Rightarrow> well_formed_result" where
  "validate_sets region version overrun_kind =
     (if region = [] then well_formed_ok version
      else if length region < 4
      then well_formed_bad (Some version) ''trailing bytes shorter than a set header'' ''truncated''
      else
        let len = unat (from_be [region ! 2, region ! 3] :: u16)
        in if len < 4
           then well_formed_bad (Some version) ''set length below the 4-byte minimum'' overrun_kind
           else if len > length region
           then well_formed_bad (Some version) ''set length exceeds remaining datagram'' overrun_kind
           else validate_sets (drop len region) version overrun_kind)"
  by pat_completeness auto
termination
  by (relation "measure (\<lambda>(region, _, _). length region)") auto

declare validate_sets.simps [simp del]

definition validate_v5 :: "bytes \<Rightarrow> well_formed_result" where
  "validate_v5 data =
     (if length data < 24
      then well_formed_bad (Some ''5'') ''datagram shorter than v5 header'' ''truncated''
      else case parse_header data of
             None \<Rightarrow> well_formed_bad (Some ''5'') ''v5 header parse failed'' ''truncated''
           | Some hdr \<Rightarrow>
               let count = unat (unwrap_or (eh_count hdr) 0);
                   need = 24 + count * 48
               in if length data < need
                  then well_formed_bad (Some ''5'') ''declared record count exceeds datagram length''
                         ''short-record''
                  else well_formed_ok ''5'')"

definition validate_v9 :: "bytes \<Rightarrow> well_formed_result" where
  "validate_v9 data =
     (if length data < 20
      then well_formed_bad (Some ''9'') ''datagram shorter than v9 header'' ''truncated''
      else validate_sets (drop 20 data) ''9'' ''set-length-overrun'')"

definition validate_ipfix :: "bytes \<Rightarrow> well_formed_result" where
  "validate_ipfix data =
     (if length data < 16
      then well_formed_bad (Some ''10'') ''datagram shorter than IPFIX header'' ''truncated''
      else
        let declared = unat (from_be [data ! 2, data ! 3] :: u16)
        in if declared < 16 \<or> declared > length data
           then well_formed_bad (Some ''10'') ''IPFIX header length out of range'' ''bad-ipfix-set''
           else validate_sets (slice data 16 declared) ''10'' ''bad-ipfix-set'')"

text \<open>The result of \<open>skip\<close> is dropped, as in the source.\<close>

definition validate_sflow :: "bytes \<Rightarrow> well_formed_result" where
  "validate_sflow data =
     (case do {
        (version, c) \<leftarrow> cur_u32 (cursor_new data);
        (addr_type, c) \<leftarrow> cur_u32 c;
        c \<leftarrow> (if addr_type = 1 then Some (snd (cur_skip 4 c))
             else if addr_type = 2 then Some (snd (cur_skip 16 c))
             else None);
        (sub_agent_id, c) \<leftarrow> cur_u32 c;
        (sequence, c) \<leftarrow> cur_u32 c;
        (uptime, c) \<leftarrow> cur_u32 c;
        (num_samples, c) \<leftarrow> cur_u32 c;
        Some ()
      } of
        Some _ \<Rightarrow> well_formed_ok ''sflow5''
      | None \<Rightarrow> well_formed_bad (Some ''sflow5'') ''sFlow header truncated'' ''truncated'')"

definition well_formed :: "bytes \<Rightarrow> well_formed_result" where
  "well_formed data =
     (case probe_version data of
        None \<Rightarrow> well_formed_bad None ''leading bytes match no known flow header''
                  ''not-a-flow-datagram''
      | Some v \<Rightarrow>
          if v = ''5'' then validate_v5 data
          else if v = ''9'' then validate_v9 data
          else if v = ''10'' then validate_ipfix data
          else if v = ''sflow5'' then validate_sflow data
          else well_formed_bad None ''unknown version'' ''bad-version'')"

section \<open>Sets\<close>

text \<open>Validation follows the splitter of the decoder, and asks for no trailing bytes.\<close>

lemma validate_sets_short:
  "validate_sets [] v k = well_formed_ok v"
  "region \<noteq> [] \<Longrightarrow> length region < 4 \<Longrightarrow> validate_sets region v k =
     well_formed_bad (Some v) ''trailing bytes shorter than a set header'' ''truncated''"
  by (subst validate_sets.simps, simp)+

lemma validate_sets_bad:
  assumes "4 \<le> length region" and "be_nat (take 2 (drop 2 region)) < 4 \<or>
    length region < be_nat (take 2 (drop 2 region))"
  shows "\<exists>e. validate_sets region v k = well_formed_bad (Some v) e k"
proof -
  have "region \<noteq> []" using assms(1) by auto
  with assms show ?thesis
    by (subst validate_sets.simps) (auto simp: set_length_field Let_def)
qed

lemma validate_sets_step:
  "4 \<le> be_nat (take 2 (drop 2 region)) \<Longrightarrow> be_nat (take 2 (drop 2 region)) \<le> length region \<Longrightarrow>
     validate_sets region v k = validate_sets (drop (be_nat (take 2 (drop 2 region))) region) v k"
  by (subst validate_sets.simps) (auto simp: set_length_field Let_def)

lemma validate_sets_split:
  "case v9_split_flowsets region of
     Inl _ \<Rightarrow> \<not> wf_ok (validate_sets region v k) \<and> wf_kind (validate_sets region v k) = Some k
   | Inr sets \<Rightarrow>
       if region = concat (map put_set sets) then validate_sets region v k = well_formed_ok v
       else validate_sets region v k =
         well_formed_bad (Some v) ''trailing bytes shorter than a set header'' ''truncated''"
proof (induction "length region" arbitrary: region rule: less_induct)
  case less
  let ?n = "be_nat (take 2 (drop 2 region))"
  consider "region = []" | "region \<noteq> []" "length region < 4" | "4 \<le> length region" "?n < 4 \<or> length region < ?n"
    | "4 \<le> ?n" "?n \<le> length region" by linarith
  then show ?case
  proof cases
    case 3
    then show ?thesis
      using validate_sets_bad [of region v k] by (auto simp: v9_sets.split_bad well_formed_bad_def)
  next
    case 4
    then have "length (drop ?n region) < length region" by simp
    note IH = less.hyps [OF this]
    show ?thesis
    proof (cases "v9_split_flowsets (drop ?n region)")
      case (Inl e)
      with IH 4 show ?thesis by (simp add: v9_sets.split_good [OF 4] validate_sets_step [OF 4])
    next
      case (Inr sets)
      define s where "s = \<lparr>set_id = from_be (take 2 region), set_body = drop 4 (take ?n region)\<rparr>"
      have split: "v9_split_flowsets region = Inr (s # sets)"
        using Inr by (simp add: v9_sets.split_good [OF 4] s_def)
      from v9_sets.split_sound [OF split] obtain p
        where p: "region = put_set s @ concat (map put_set sets) @ p" by auto
      have "length (put_set s) = ?n" using 4 by (simp add: put_set_def s_def)
      then have "drop ?n region = drop (length (put_set s)) region" by simp
      also have "\<dots> = concat (map put_set sets) @ p" unfolding p by simp
      finally have "drop ?n region = concat (map put_set sets) \<longleftrightarrow> p = []" by simp
      moreover have "region = concat (map put_set (s # sets)) \<longleftrightarrow> p = []" by (subst p) simp
      ultimately have "drop ?n region = concat (map put_set sets) \<longleftrightarrow>
          region = concat (map put_set (s # sets))" by blast
      with IH Inr show ?thesis
        unfolding split validate_sets_step [OF 4] by (simp split del: if_split)
    qed
  qed (auto simp: v9_sets.split_short validate_sets_short)
qed

lemma validate_sets_ok:
  "wf_ok (validate_sets region v k) \<longleftrightarrow>
     (\<exists>sets. list_all set_fits sets \<and> region = concat (map put_set sets))"
proof
  assume ok: "wf_ok (validate_sets region v k)"
  show "\<exists>sets. list_all set_fits sets \<and> region = concat (map put_set sets)"
  proof (cases "v9_split_flowsets region")
    case (Inl e)
    with ok validate_sets_split [of region v k] show ?thesis by simp
  next
    case (Inr sets)
    with ok validate_sets_split [of region v k] have "region = concat (map put_set sets)"
      by (auto simp: well_formed_bad_def split: if_splits)
    with v9_sets.split_sound [OF Inr] show ?thesis by (auto simp: list_all_iff)
  qed
next
  assume "\<exists>sets. list_all set_fits sets \<and> region = concat (map put_set sets)"
  then obtain sets where "list_all set_fits sets" "region = concat (map put_set sets)" by blast
  then show "wf_ok (validate_sets region v k)"
    using validate_sets_split [of region v k] v9_sets.split_put_sets [of sets "[]"]
    by (simp add: list_all_iff well_formed_ok_def)
qed

lemma validate_sets_verdict:
  "validate_sets region v k = well_formed_ok v \<or>
   (\<exists>e kind. validate_sets region v k = well_formed_bad (Some v) e kind \<and> kind \<in> {''truncated'', k})"
proof (induction region v k rule: validate_sets.induct)
  case (1 region v k)
  then show ?case
    by (subst (1 2) validate_sets.simps) (auto simp: Let_def)
qed

section \<open>Headers\<close>

lemma v5_header_count:
  "probe_version data = Some ''5'' \<Longrightarrow> 24 \<le> length data \<Longrightarrow>
     \<exists>hdr. parse_header data = Some hdr \<and> eh_count hdr = Some (from_be (take 2 (drop 2 data)))"
  by (auto simp: parse_header_def parse_v5_def reader_simps Let_def)

lemma validate_v5_ok:
  assumes "probe_version data = Some ''5''"
  shows "wf_ok (validate_v5 data) \<longleftrightarrow> 24 + 48 * be_nat (take 2 (drop 2 data)) \<le> length data"
proof (cases "length data < 24")
  case True
  then show ?thesis by (simp add: validate_v5_def well_formed_bad_def)
next
  case False
  with v5_header_count [OF assms] obtain hdr where "parse_header data = Some hdr" "eh_count hdr = Some (from_be (take 2 (drop 2 data)))"
    by auto
  with False show ?thesis
    by (auto simp: validate_v5_def well_formed_bad_def well_formed_ok_def Let_def unat_from_be mult.commute)
qed

lemma validate_sflow_eq:
  "validate_sflow data =
     (if parse_sflow data = None
      then well_formed_bad (Some ''sflow5'') ''sFlow header truncated'' ''truncated''
      else well_formed_ok ''sflow5'')"
  by (auto simp: validate_sflow_def parse_sflow_def case_prod_beta split: option.splits Option.bind_splits)


definition set_region :: "bytes \<Rightarrow> bool" where
  "set_region region \<longleftrightarrow> (\<exists>sets. list_all set_fits sets \<and> region = concat (map put_set sets))"

definition sound_datagram :: "bytes \<Rightarrow> bool" where
  "sound_datagram data \<longleftrightarrow>
     (case probe_version data of
        None \<Rightarrow> False
      | Some v \<Rightarrow>
          if v = ''5'' then 24 + 48 * be_nat (take 2 (drop 2 data)) \<le> length data
          else if v = ''9'' then 20 \<le> length data \<and> set_region (drop 20 data)
          else if v = ''10''
          then let n = be_nat (take 2 (drop 2 data))
               in 16 \<le> n \<and> n \<le> length data \<and> set_region (drop 16 (take n data))
          else parse_header data \<noteq> None)"

lemma well_formed_verdict:
  "(wf_ok (well_formed data) \<longleftrightarrow> sound_datagram data) \<and>
   wf_version (well_formed data) = probe_version data \<and>
   (wf_ok (well_formed data) \<longleftrightarrow> wf_error (well_formed data) = None) \<and>
   wf_kind (well_formed data) \<in> (if wf_ok (well_formed data) then {None}
     else {Some ''truncated'', Some ''set-length-overrun'', Some ''bad-ipfix-set'',
           Some ''short-record'', Some ''not-a-flow-datagram''})"
proof -
  note defs = sound_datagram_def well_formed_def well_formed_ok_def well_formed_bad_def
  consider "probe_version data = None" | "probe_version data = Some ''5''"
    | "probe_version data = Some ''9''" | "probe_version data = Some ''10''"
    | "probe_version data = Some ''sflow5''"
    using probe_version_cases [of data] by auto
  then show ?thesis
  proof cases
    case 1
    then show ?thesis by (simp add: defs)
  next
    case 2
    with validate_v5_ok [OF this] show ?thesis
      by (auto simp: defs validate_v5_def Let_def split: option.splits if_splits)
  next
    case 3
    with validate_sets_verdict [of "drop 20 data" "''9''" "''set-length-overrun''"]
      validate_sets_ok [of "drop 20 data" "''9''" "''set-length-overrun''"]
    show ?thesis by (auto simp: defs validate_v9_def set_region_def)
  next
    case 4
    have field: "16 \<le> length data \<Longrightarrow>
        unat (from_be [data ! 2, data ! 3] :: u16) = be_nat (take 2 (drop 2 data))"
      by (rule set_length_field) simp
    let ?r = "slice data 16 (be_nat (take 2 (drop 2 data)))"
    have r: "?r = drop 16 (take (be_nat (take 2 (drop 2 data))) data)"
      by (simp add: slice_def drop_take)
    from 4 validate_sets_verdict [of ?r "''10''" "''bad-ipfix-set''"]
      validate_sets_ok [of ?r "''10''" "''bad-ipfix-set''"]
    show ?thesis
      by (auto simp: defs validate_ipfix_def set_region_def r field Let_def)
  next
    case 5
    then show ?thesis by (simp add: defs validate_sflow_eq parse_header_def)
  qed
qed

text \<open>
  C15. The verdict of \<open>well_formed\<close> is exact.  It names the version the probe finds.  It is
  positive just when a v5 datagram holds all the records it announces, a v9 datagram is its
  header and a sequence of complete FlowSets and nothing else, the part of an IPFIX message
  that its Length covers is its header and a sequence of complete Sets and nothing else, or an
  sFlow header is complete.  A negative verdict carries a message and one of the documented
  kinds, a positive one carries neither.
\<close>

theorem well_formed_exact:
  "(wf_ok (well_formed data) \<longleftrightarrow> sound_datagram data) \<and>
   wf_version (well_formed data) = probe_version data \<and>
   (wf_ok (well_formed data) \<longleftrightarrow> wf_error (well_formed data) = None) \<and>
   wf_kind (well_formed data) \<in> (if wf_ok (well_formed data) then {None}
     else {Some ''truncated'', Some ''set-length-overrun'', Some ''bad-ipfix-set'',
           Some ''short-record'', Some ''not-a-flow-datagram''})"
  by (rule well_formed_verdict)

section \<open>What a positive verdict promises\<close>

lemma set_region_split:
  "set_region region \<Longrightarrow> \<exists>sets. v9_split_flowsets region = Inr sets \<and> ipfix_split_sets region = Inr sets"
  using v9_sets.split_put_sets [of _ "[]"] ipfix_sets.split_put_sets [of _ "[]"]
  by (auto simp: set_region_def list_all_iff)

lemma sflow_header_agent:
  assumes "probe_version data = Some ''sflow5''"
  shows "parse_header data = None \<longleftrightarrow> sflow_agent data = None"
proof -
  have d: "take 8 data = [0, 0, 0, 5, 0, 0, 0, 1] \<or> take 8 data = [0, 0, 0, 5, 0, 0, 0, 2]"
    using assms by (simp add: probe_version_iff)
  have "take 4 data = take 4 (take 8 data)" by simp
  also from d have "\<dots> = [0, 0, 0, 5]" by (rule disjE) (erule ssubst, simp)+
  finally have first: "take 4 data = [0, 0, 0, 5]" .
  obtain t where t: "t = be_nat (take 4 (drop 4 data))" "t = 1 \<or> t = 2" and len: "8 \<le> length data"
    using probe_sflow_agent [OF assms] by simp
  have "u32_at data 0 = 5" by (simp add: u32_at_def first from_be_def be_nat_def)
  moreover have "u32_at data 4 = of_nat t" by (simp add: u32_at_def from_be_def t(1))
  ultimately show ?thesis
    using t(2) len assms
    by (auto simp: parse_header_def parse_sflow_None sflow_agent_def t(1) [symmetric] Let_def)
qed

lemma well_formed_not_given_up_any:
  assumes "wf_ok (well_formed data)"
    and "probe_version data = Some ''10'' \<longrightarrow> be_nat (take 2 (drop 2 data)) = length data"
  shows "\<not> given_up data AnyFormat d"
proof -
  have header: "24 \<le> length data \<Longrightarrow> probe_version data = Some ''5'' \<Longrightarrow> parse_header data \<noteq> None"
    "20 \<le> length data \<Longrightarrow> probe_version data = Some ''9'' \<Longrightarrow> parse_header data \<noteq> None"
    "16 \<le> length data \<Longrightarrow> probe_version data = Some ''10'' \<Longrightarrow> parse_header data \<noteq> None"
    by (simp_all add: parse_header_def parse_v5_None parse_v9_None parse_ipfix_None del: not_None_eq)
  show ?thesis
    using assms well_formed_verdict [of data] probe_version_cases [of data] header
      sflow_header_agent [of data]
      set_region_split [of "drop 20 data"] set_region_split [of "drop 16 data"]
    by (auto simp: given_up_def accepted_def sound_datagram_def Let_def)
qed

lemma well_formed_not_given_up:
  assumes "wf_ok (well_formed data)" and "probe_version data = Some v" and "accepted v r"
    and "v = ''10'' \<longrightarrow> be_nat (take 2 (drop 2 data)) = length data"
  shows "\<not> given_up data r d"
proof -
  have "given_up data r d = given_up data AnyFormat d"
    using assms(2,3) by (simp add: given_up_def) (simp add: accepted_def)
  with well_formed_not_given_up_any [OF assms(1)] assms(2,4) show ?thesis by simp
qed

lemma well_formed_v5_rows:
  assumes "wf_ok (well_formed data)" and v5: "probe_version data = Some ''5''"
  shows "length (v5_decode data ex) = be_nat (take 2 (drop 2 data)) \<and>
    list_all (\<lambda>r. fr_diagnostics r = None) (v5_decode data ex)"
proof -
  have len: "24 + 48 * be_nat (take 2 (drop 2 data)) \<le> length data"
    using assms well_formed_verdict [of data] by (simp add: sound_datagram_def)
  from v5_header_count [OF v5] len obtain hdr
    where hdr: "parse_header data = Some hdr" "eh_count hdr = Some (from_be (take 2 (drop 2 data)))" by auto
  have n: "unat (from_be (take 2 (drop 2 data)) :: u16) = be_nat (take 2 (drop 2 data))"
    by (simp add: unat_from_be)
  have "be_nat (take 2 (drop 2 data)) \<le> (length data - 24) div 48" using len by simp
  then show ?thesis
    using len by (simp add: v5_decode_def hdr n v5_loop_eq cur_skip_eq length_chunks list_all_iff
        v5_decode_record_def Let_def case_prod_beta)
qed

text \<open>
  C16. A positive verdict is worth something: a well-formed datagram is never given up by a decoder
  that takes its format, the unrestricted one or the one restricted to it (a datagram of another
  format is rejected, well formed or not).  No row of it, whatever the other options and the cache,
  says that the header, the framing or the format is bad (for IPFIX when the message Length covers
  the whole datagram, which the decoder does not look at); and a well-formed v5 datagram yields
  exactly the rows its header announces, none of them a diagnostic.
\<close>

theorem well_formed_decodes:
  assumes "wf_ok (well_formed data)" and "probe_version data = Some v" and "accepted v r"
    and "v = ''10'' \<longrightarrow> be_nat (take 2 (drop 2 data)) = length data"
  shows "list_all (\<lambda>r. fr_diagnostics r \<in> {None, Some ''truncated'', Some ''enterprise-unmapped'',
       Some ''counter-sample''} \<or> (\<exists>dm tid. fr_diagnostics r = Some (missing_template dm tid)))
     (fst (decode_datagram data opts c r)) \<and>
   (v = ''5'' \<longrightarrow>
      length (fst (decode_datagram data opts c r)) = be_nat (take 2 (drop 2 data)) \<and>
      list_all (\<lambda>r. fr_diagnostics r = None) (fst (decode_datagram data opts c r)))"
proof
  show "list_all (\<lambda>r. fr_diagnostics r \<in> {None, Some ''truncated'', Some ''enterprise-unmapped'',
       Some ''counter-sample''} \<or> (\<exists>dm tid. fr_diagnostics r = Some (missing_template dm tid)))
     (fst (decode_datagram data opts c r))"
    using decode_datagram_notes [of _ data opts c r] well_formed_not_given_up [OF assms]
    by (auto simp: list_all_iff clean_def)
  show "v = ''5'' \<longrightarrow>
      length (fst (decode_datagram data opts c r)) = be_nat (take 2 (drop 2 data)) \<and>
      list_all (\<lambda>r. fr_diagnostics r = None) (fst (decode_datagram data opts c r))"
    using well_formed_v5_rows [OF assms(1), of "do_exporter opts"] assms(2,3)
    by (auto simp: decode_datagram_eq datagram_out_def Let_def accepted_def)
qed

definition v5_one :: bytes where
  "v5_one = v5_header 1 1000 1700000000 0 7 0 3 0 @ replicate 48 1"

theorem well_formed_decodes_witness:
  "wf_ok (well_formed v5_one) \<and>
   length (fst (decode_datagram v5_one default_options cache_new NetflowOnly)) = 1"
proof -
  have v: "probe_version v5_one = Some ''5''" by (simp add: v5_one_def probe_v5_header)
  have n: "be_nat (take 2 (drop 2 v5_one)) = 1" "length v5_one = 72"
    by (simp_all add: v5_one_def v5_header_def to_be_bytes_def be_nat_be_bytes)
  have ok: "wf_ok (well_formed v5_one)"
    using well_formed_verdict [of v5_one] v n by (simp add: sound_datagram_def)
  from well_formed_decodes [OF ok v, of NetflowOnly default_options cache_new] n ok show ?thesis
    by (simp add: accepted_def)
qed

end
