(* ===== verification/Fixtures.thy ===== *)
theory Fixtures
  imports Wellformed
begin

text \<open>
  The golden datagrams of \<open>fixtures.rs\<close>: the byte writer \<open>W\<close> and the eight builders.  The
  writer is its byte vector; its methods return it, so a chain of calls is a chain of
  applications, first call innermost.
\<close>

section \<open>The writer\<close>

definition w_u8 :: "u8 \<Rightarrow> bytes \<Rightarrow> bytes" where
  "w_u8 v w = w @ [v]"

definition w_u16 :: "u16 \<Rightarrow> bytes \<Rightarrow> bytes" where
  "w_u16 v w = w @ to_be_bytes 2 v"

definition w_u32 :: "u32 \<Rightarrow> bytes \<Rightarrow> bytes" where
  "w_u32 v w = w @ to_be_bytes 4 v"

definition w_u64 :: "u64 \<Rightarrow> bytes \<Rightarrow> bytes" where
  "w_u64 v w = w @ to_be_bytes 8 v"

definition w_bytes :: "bytes \<Rightarrow> bytes \<Rightarrow> bytes" where
  "w_bytes b w = w @ b"

definition w_ipv4 :: "u8 \<Rightarrow> u8 \<Rightarrow> u8 \<Rightarrow> u8 \<Rightarrow> bytes \<Rightarrow> bytes" where
  "w_ipv4 a b c d w = w @ [a, b, c, d]"

text \<open>A chain of writer calls, in source order.\<close>

definition written :: "(bytes \<Rightarrow> bytes) list \<Rightarrow> bytes \<Rightarrow> bytes" where
  "written calls w = fold (\<lambda>f w. f w) calls w"

definition EXPORT_UNIX_SECS :: u32 where "EXPORT_UNIX_SECS = 1700000000"

definition V9_SYS_UPTIME_MS :: u32 where "V9_SYS_UPTIME_MS = 100000"

section \<open>NetFlow v5\<close>

definition push_v5_record ::
  "u8 \<times> u8 \<times> u8 \<times> u8 \<Rightarrow> u8 \<times> u8 \<times> u8 \<times> u8 \<Rightarrow> u16 \<Rightarrow> u16 \<Rightarrow> u8 \<Rightarrow> u8 \<Rightarrow> u32 \<Rightarrow> u32 \<Rightarrow> u16 \<Rightarrow> u16 \<Rightarrow>
   bytes \<Rightarrow> bytes" where
  "push_v5_record src dst sp dp proto flags pkts octets src_as dst_as =
     (let (s0, s1, s2, s3) = src; (d0, d1, d2, d3) = dst in
      written
        [w_ipv4 s0 s1 s2 s3, w_ipv4 d0 d1 d2 d3, w_ipv4 10 0 0 254,
         w_u16 1, w_u16 2, w_u32 pkts, w_u32 octets, w_u32 90000, w_u32 95000,
         w_u16 sp, w_u16 dp, w_u8 0, w_u8 flags, w_u8 proto, w_u8 0,
         w_u16 src_as, w_u16 dst_as, w_u8 24, w_u8 24, w_u16 0])"

definition netflow_v5 :: bytes where
  "netflow_v5 = written
     [w_u16 5, w_u16 2, w_u32 V9_SYS_UPTIME_MS, w_u32 EXPORT_UNIX_SECS, w_u32 0, w_u32 10,
      w_u8 0, w_u8 1, w_u16 0,
      push_v5_record (10, 0, 0, 1) (10, 0, 0, 2) 1234 80 6 0x18 10 1000 64500 64501,
      push_v5_record (192, 168, 1, 1) (8, 8, 8, 8) 5353 53 17 0 2 200 0 15169] []"

section \<open>NetFlow v9\<close>

definition V9_TEMPLATE_ID :: u16 where "V9_TEMPLATE_ID = 256"

definition V9_OBS_DOMAIN :: u32 where "V9_OBS_DOMAIN = 1"

definition fixture_v9_header :: "u16 \<Rightarrow> bytes \<Rightarrow> bytes" where
  "fixture_v9_header n = written
     [w_u16 9, w_u16 n, w_u32 V9_SYS_UPTIME_MS, w_u32 EXPORT_UNIX_SECS, w_u32 20,
      w_u32 V9_OBS_DOMAIN]"

definition flowset :: "u16 \<Rightarrow> bytes \<Rightarrow> bytes \<Rightarrow> bytes" where
  "flowset ident body w =
     (let len = (of_nat (length body + 4) :: u16) in written [w_u16 ident, w_u16 len, w_bytes body] w)"

definition w_pairs :: "(u16 \<times> u16) list \<Rightarrow> bytes \<Rightarrow> bytes" where
  "w_pairs ps w = fold (\<lambda>(ty, len) w. written [w_u16 ty, w_u16 len] w) ps w"

definition netflow_v9_template :: bytes where
  "netflow_v9_template =
     (let body = written [w_u16 V9_TEMPLATE_ID, w_u16 7,
            w_pairs [(8, 4), (12, 4), (7, 2), (11, 2), (4, 1), (2, 4), (1, 4)]] []
      in written [fixture_v9_header 1, flowset 0 body] [])"

definition netflow_v9_data :: bytes where
  "netflow_v9_data =
     (let body = written [w_ipv4 10 1 1 1, w_ipv4 10 1 1 2, w_u16 4000, w_u16 443, w_u8 6, w_u32 5,
            w_u32 800] []
      in written [fixture_v9_header 1, flowset V9_TEMPLATE_ID body] [])"

definition netflow_v9_combined :: bytes where
  "netflow_v9_combined =
     (let tmpl = written [w_u16 V9_TEMPLATE_ID, w_u16 7,
            w_pairs [(8, 4), (12, 4), (7, 2), (11, 2), (4, 1), (2, 4), (1, 4)]] [];
          rec = written [w_ipv4 172 16 0 1, w_ipv4 172 16 0 2, w_u16 1111, w_u16 22, w_u8 6,
            w_u32 3, w_u32 180] []
      in written [fixture_v9_header 2, flowset 0 tmpl, flowset V9_TEMPLATE_ID rec] [])"

section \<open>IPFIX\<close>

definition IPFIX_TEMPLATE_ID :: u16 where "IPFIX_TEMPLATE_ID = 256"

definition IPFIX_VAR_TEMPLATE_ID :: u16 where "IPFIX_VAR_TEMPLATE_ID = 257"

definition IPFIX_OPTIONS_TEMPLATE_ID :: u16 where "IPFIX_OPTIONS_TEMPLATE_ID = 258"

definition IPFIX_OBS_DOMAIN :: u32 where "IPFIX_OBS_DOMAIN = 42"

definition fixture_ipfix_header :: "(u16 \<times> bytes) list \<Rightarrow> bytes \<Rightarrow> bytes" where
  "fixture_ipfix_header sets w =
     (let body = fold (\<lambda>(ident, b) body.
            let len = (of_nat (length b + 4) :: u16)
            in written [w_u16 ident, w_u16 len, w_bytes b] body) sets [];
          total = (of_nat (16 + length body) :: u16)
      in written [w_u16 10, w_u16 total, w_u32 EXPORT_UNIX_SECS, w_u32 7, w_u32 IPFIX_OBS_DOMAIN,
           w_bytes body] w)"

definition ipfix_basic :: bytes where
  "ipfix_basic =
     (let tmpl = written [w_u16 IPFIX_TEMPLATE_ID, w_u16 9,
            w_pairs [(8, 4), (12, 4), (7, 2), (11, 2), (4, 1), (1, 8), (2, 8), (152, 8), (153, 8)]] [];
          data = written [w_ipv4 203 0 113 5, w_ipv4 198 51 100 9, w_u16 33000, w_u16 443, w_u8 6,
            w_u64 1500000, w_u64 1200, w_u64 1700000000000, w_u64 1700000010000] []
      in fixture_ipfix_header [(2, tmpl), (IPFIX_TEMPLATE_ID, data)] [])"

definition ipfix_variable_enterprise :: bytes where
  "ipfix_variable_enterprise =
     (let tmpl = written [w_u16 IPFIX_VAR_TEMPLATE_ID, w_u16 4, w_u16 8, w_u16 4, w_u16 12, w_u16 4,
            w_u16 82, w_u16 0xFFFF, w_u16 (0x8000 OR 880), w_u16 1, w_u32 6876] [];
          ifname = [101, 116, 104, 48];
          data = written [w_ipv4 10 9 9 1, w_ipv4 10 9 9 2, w_u8 (of_nat (length ifname)),
            w_bytes ifname, w_u8 7] []
      in fixture_ipfix_header [(2, tmpl), (IPFIX_VAR_TEMPLATE_ID, data)] [])"

definition ipfix_options :: bytes where
  "ipfix_options =
     (let tmpl = written [w_u16 IPFIX_OPTIONS_TEMPLATE_ID, w_u16 2, w_u16 1, w_u16 144, w_u16 4,
            w_u16 34, w_u16 4] [];
          data = written [w_u32 1001, w_u32 1000] []
      in fixture_ipfix_header [(3, tmpl), (IPFIX_OPTIONS_TEMPLATE_ID, data)] [])"

section \<open>sFlow v5\<close>

definition sflow_basic :: bytes where
  "sflow_basic =
     (let recb = written [w_u32 64, w_u32 6, w_ipv4 192 0 2 10, w_ipv4 192 0 2 20, w_u32 51000,
            w_u32 80, w_u32 0x18, w_u32 0] [];
          fsb = written [w_u32 100, w_u32 0, w_u32 4096, w_u32 0, w_u32 0, w_u32 5, w_u32 6, w_u32 1,
            w_u32 3, w_u32 (of_nat (length recb)), w_bytes recb] [];
          counters = replicate 88 0;
          csb = written [w_u32 200, w_u32 0, w_u32 1,
            w_u32 1, w_u32 (of_nat (length counters)), w_bytes counters] []
      in written [w_u32 5, w_u32 1, w_ipv4 10 0 0 9, w_u32 0, w_u32 1, w_u32 1000, w_u32 2,
           w_u32 1, w_u32 (of_nat (length fsb)), w_bytes fsb,
           w_u32 2, w_u32 (of_nat (length csb)), w_bytes csb] [])"

section \<open>The bytes\<close>

lemma be_bytes_add: "be_bytes (m + n) v = be_bytes m (v div 256 ^ n) @ be_bytes n v"
  by (induction n arbitrary: v) (simp_all add: div_mult2_eq)

lemma be_bytes_2: "be_bytes 2 v = [of_nat (v div 256 mod 256), of_nat (v mod 256)]"
  by (simp add: numeral_2_eq_2)

lemma be_bytes_4:
  "be_bytes 4 v = [of_nat (v div 16777216 mod 256), of_nat (v div 65536 mod 256),
     of_nat (v div 256 mod 256), of_nat (v mod 256)]"
  using be_bytes_add [of 2 2 v] by (simp add: be_bytes_2 flip: div_mult2_eq)

lemma be_bytes_8:
  "be_bytes 8 v = be_bytes 4 (v div 4294967296) @ be_bytes 4 v"
  using be_bytes_add [of 4 4 v] by simp

lemmas to_be_eval = to_be_bytes_def be_bytes_2 be_bytes_4 be_bytes_8

lemmas writer_defs = written_def w_u8_def w_u16_def w_u32_def w_u64_def w_bytes_def w_ipv4_def
  w_pairs_def push_v5_record_def fixture_v9_header_def flowset_def fixture_ipfix_header_def
  EXPORT_UNIX_SECS_def V9_SYS_UPTIME_MS_def V9_TEMPLATE_ID_def V9_OBS_DOMAIN_def IPFIX_TEMPLATE_ID_def
  IPFIX_VAR_TEMPLATE_ID_def IPFIX_OPTIONS_TEMPLATE_ID_def IPFIX_OBS_DOMAIN_def

lemma netflow_v5_bytes: "netflow_v5 = [0, 5, 0, 2, 0, 1, 134, 160, 101, 83, 241, 0, 0, 0, 0, 0, 0,
    0, 0, 10, 0, 1, 0, 0, 10, 0, 0, 1, 10, 0, 0, 2, 10, 0, 0, 254, 0, 1, 0, 2, 0, 0, 0, 10, 0, 0,
    3, 232, 0, 1, 95, 144, 0, 1, 115, 24, 4, 210, 0, 80, 0, 24, 6, 0, 251, 244, 251, 245, 24, 24,
    0, 0, 192, 168, 1, 1, 8, 8, 8, 8, 10, 0, 0, 254, 0, 1, 0, 2, 0, 0, 0, 2, 0, 0, 0, 200, 0, 1,
    95, 144, 0, 1, 115, 24, 20, 233, 0, 53, 0, 0, 17, 0, 0, 0, 59, 65, 24, 24, 0, 0]"
  by (simp add: netflow_v5_def writer_defs to_be_eval)

lemma netflow_v9_combined_bytes: "netflow_v9_combined = [0, 9, 0, 2, 0, 1, 134, 160, 101, 83, 241,
    0, 0, 0, 0, 20, 0, 0, 0, 1, 0, 0, 0, 36, 1, 0, 0, 7, 0, 8, 0, 4, 0, 12, 0, 4, 0, 7, 0, 2, 0,
    11, 0, 2, 0, 4, 0, 1, 0, 2, 0, 4, 0, 1, 0, 4, 1, 0, 0, 25, 172, 16, 0, 1, 172, 16, 0, 2, 4,
    87, 0, 22, 6, 0, 0, 0, 3, 0, 0, 0, 180]"
  by (simp add: netflow_v9_combined_def writer_defs to_be_eval)

lemma ipfix_basic_bytes: "ipfix_basic = [0, 10, 0, 109, 101, 83, 241, 0, 0, 0, 0, 7, 0, 0, 0, 42,
    0, 2, 0, 44, 1, 0, 0, 9, 0, 8, 0, 4, 0, 12, 0, 4, 0, 7, 0, 2, 0, 11, 0, 2, 0, 4, 0, 1, 0, 1,
    0, 8, 0, 2, 0, 8, 0, 152, 0, 8, 0, 153, 0, 8, 1, 0, 0, 49, 203, 0, 113, 5, 198, 51, 100, 9,
    128, 232, 1, 187, 6, 0, 0, 0, 0, 0, 22, 227, 96, 0, 0, 0, 0, 0, 0, 4, 176, 0, 0, 1, 139, 207,
    229, 104, 0, 0, 0, 1, 139, 207, 229, 143, 16]"
  by (simp add: ipfix_basic_def writer_defs to_be_eval)

lemma sflow_basic_bytes: "sflow_basic = [0, 0, 0, 5, 0, 0, 0, 1, 10, 0, 0, 9, 0, 0, 0, 0, 0, 0, 0,
    1, 0, 0, 3, 232, 0, 0, 0, 2, 0, 0, 0, 1, 0, 0, 0, 72, 0, 0, 0, 100, 0, 0, 0, 0, 0, 0, 16, 0,
    0, 0, 0, 0, 0, 0, 0, 0, 0, 0, 0, 5, 0, 0, 0, 6, 0, 0, 0, 1, 0, 0, 0, 3, 0, 0, 0, 32, 0, 0, 0,
    64, 0, 0, 0, 6, 192, 0, 2, 10, 192, 0, 2, 20, 0, 0, 199, 56, 0, 0, 0, 80, 0, 0, 0, 24, 0, 0,
    0, 0, 0, 0, 0, 2, 0, 0, 0, 108, 0, 0, 0, 200, 0, 0, 0, 0, 0, 0, 0, 1, 0, 0, 0, 1, 0, 0, 0, 88]
    @ replicate 88 0"
  by (simp add: sflow_basic_def writer_defs to_be_eval)

end
