(* ===== verification/Unit_Tests.thy ===== *)
theory Unit_Tests
  imports Wellformed Fixtures Flows
begin

text \<open>
  The unit tests of the modules, as propositions about the model: what the authors assert of their
  code holds of its translation.  (The text of an IPv6 address that one test parses with the
  standard library is given by its bytes.)
\<close>

section \<open>\<open>buf.rs\<close> and \<open>decode/header.rs\<close>\<close>

definition reads_and_bounds :: bool where
  "reads_and_bounds \<longleftrightarrow>
     (case cur_u16 (cursor_new [0x00, 0x09, 0xff, 0xff]) of
        None \<Rightarrow> False
      | Some (a, c) \<Rightarrow> a = 9 \<and>
          (case cur_u16 c of
             None \<Rightarrow> False
           | Some (b, c) \<Rightarrow> b = 0xffff \<and> cur_u16 c = None \<and> cur_is_empty c))"

definition oversized_take_never_panics :: bool where
  "oversized_take_never_panics \<longleftrightarrow>
     (let c = cursor_new [1, 2, 3] in cur_take 4000000000 c = None \<and> cur_remaining c = 3)"

definition probe_distinguishes_formats :: bool where
  "probe_distinguishes_formats \<longleftrightarrow>
     probe_version [0x00, 0x05] = Some ''5'' \<and>
     probe_version [0x00, 0x09] = Some ''9'' \<and>
     probe_version [0x00, 0x0a] = Some ''10'' \<and>
     probe_version [0, 0, 0, 5, 0, 0, 0, 1] = Some ''sflow5'' \<and>
     probe_version [0xde, 0xad] = None \<and>
     probe_version [] = None"

lemma buf_tests: "reads_and_bounds \<and> oversized_take_never_panics"
  by (simp add: reads_and_bounds_def oversized_take_never_panics_def cur_u16_def cur_take_def cursor_new_def
      cur_remaining_def cur_is_empty_def slice_def from_be_def be_nat_def)

lemma header_tests: "probe_distinguishes_formats"
  by (simp add: probe_distinguishes_formats_def probe_version_def cur_u16_def cur_u32_def cur_skip_def
      cur_take_def cursor_new_def cur_remaining_def slice_def from_be_def be_nat_def)

section \<open>\<open>inet.rs\<close>\<close>

definition ipv4_round_trips :: bool where
  "ipv4_round_trips \<longleftrightarrow>
     (case inet4 [203, 0, 113, 5] of
        None \<Rightarrow> False
      | Some v \<Rightarrow> ip_type v = 1 \<and> inet_mask v = 32 \<and> (from_le (address_le v) :: u128) = 0xCB007105 \<and>
          to_ip_string v = ''203.0.113.5'')"

definition ipv6_sign_bit_flipped_round_trips :: bool where
  "ipv6_sign_bit_flipped_round_trips \<longleftrightarrow>
     (let v = encode_ip (IpV6 [0x20, 0x01, 0x0d, 0xb8, 0, 0, 0, 0, 0, 0, 0, 0, 0, 0, 0, 1])
      in ip_type v = 2 \<and> address_le v ! 15 = 0xa0 \<and> to_ip_string v = ''2001:db8::1'')"

section \<open>The registry\<close>

fun windows2 :: "'a list \<Rightarrow> ('a \<times> 'a) list" where
  "windows2 (a # b # xs) = (a, b) # windows2 (b # xs)"
| "windows2 _ = []"

definition ids_are_unique_and_sorted :: bool where
  "ids_are_unique_and_sorted \<longleftrightarrow> list_all (\<lambda>(a, b). def_id a < def_id b) (windows2 REGISTRY)"

definition key_normalization_ies_present :: bool where
  "key_normalization_ies_present \<longleftrightarrow>
     list_all (\<lambda>id. iana_lookup id \<noteq> None) [1, 2, 4, 7, 8, 11, 12, 152, 153] \<and>
     map_option def_name (iana_lookup 8) = Some ''sourceIPv4Address'' \<and>
     map_option def_ty (iana_lookup 8) = Some Ipv4Address"

definition vmware_known_pen :: bool where
  "vmware_known_pen \<longleftrightarrow> enterprise_lookup PEN_VMWARE 881 \<noteq> None \<and> enterprise_lookup 99999 881 = None"

lemma windows2_successively: "list_all (\<lambda>(a, b). P (f a) (f b)) (windows2 xs) \<longleftrightarrow> successively P (map f xs)"
  by (induction xs rule: windows2.induct) auto

lemma registry_tests: "ids_are_unique_and_sorted \<and> key_normalization_ies_present \<and> vmware_known_pen"
proof (intro conjI)
  show ids_are_unique_and_sorted
    using registry_successive
    unfolding ids_are_unique_and_sorted_def windows2_successively by (simp add: word_less_nat_alt)
  show key_normalization_ies_present
    by (simp add: key_normalization_ies_present_def iana_lookup_def REGISTRY_def registry_part1_def
        registry_part2_def registry_part3_def registry_part4_def)
  show vmware_known_pen
    by (simp add: vmware_known_pen_def enterprise_lookup_def PEN_VMWARE_def PEN_NOKIA_def VMWARE_def)
qed

section \<open>\<open>wellformed.rs\<close> and \<open>fixtures.rs\<close>\<close>

definition garbage_is_not_a_flow_datagram :: bool where
  "garbage_is_not_a_flow_datagram \<longleftrightarrow>
     (let r = well_formed [0xde, 0xad, 0xbe, 0xef] in \<not> wf_ok r \<and> wf_kind r = Some ''not-a-flow-datagram'')"

definition truncated_v9_header :: bool where
  "truncated_v9_header \<longleftrightarrow> wf_kind (well_formed [0x00, 0x09, 0x00]) = Some ''truncated''"

definition fixtures_have_recognizable_headers :: bool where
  "fixtures_have_recognizable_headers \<longleftrightarrow>
     take 2 netflow_v5 = [0, 5] \<and> take 2 netflow_v9_template = [0, 9] \<and>
     take 2 ipfix_basic = [0, 10] \<and> take 4 sflow_basic = [0, 0, 0, 5]"

section \<open>\<open>cache.rs\<close>\<close>

definition test_key :: "string \<Rightarrow> u32 \<Rightarrow> u16 \<Rightarrow> template_key" where
  "test_key ex domain tid = TemplateKey ex domain tid"

definition test_entry :: "i64 \<Rightarrow> template_entry" where
  "test_entry now =
     \<lparr>te_kind = TkData,
      te_fields = [\<lparr>fs_ie_id = 8, fs_enterprise_number = 0, fs_length = 4, fs_name = ''sourceIPv4Address'',
        fs_ie_type = ''ipv4Address''\<rparr>],
      te_scope_field_count = 0, te_first_seen = now, te_last_seen = now, te_use_count = 0\<rparr>"

text \<open>\<open>e.fields[0].ie_id = id\<close>.\<close>

definition with_ie :: "u16 \<Rightarrow> template_entry \<Rightarrow> template_entry" where
  "with_ie ident e = e\<lparr>te_fields := (te_fields e)[0 := (te_fields e ! 0)\<lparr>fs_ie_id := ident\<rparr>]\<rparr>"

definition first_ie :: "template_key \<Rightarrow> template_cache \<Rightarrow> u16 option" where
  "first_ie k c = map_option (\<lambda>e. fs_ie_id (te_fields e ! 0)) (cache_peek c k)"

definition serde_cache :: template_cache where
  "serde_cache =
     snd (push_pending (test_key ''r1'' 0 300)
       \<lparr>pr_export_time = Some 123, pr_sequence = Some 9, pr_version = ''9'', pr_sys_uptime_ms = Some 1000,
        pr_bytes = [1, 2, 3, 4]\<rparr>
       (upsert (test_key ''r1'' 0 256) (test_entry 100) cache_new))"

definition serde_round_trips_losslessly ::
  "(cache_dto \<Rightarrow> bytes option) \<Rightarrow> (bytes \<Rightarrow> cache_dto option) \<Rightarrow> bool" where
  "serde_round_trips_losslessly to_vec from_slice \<longleftrightarrow>
     (let back = from_bytes from_slice (to_bytes to_vec serde_cache)
      in tc_entries serde_cache = tc_entries back \<and> tc_pending serde_cache = tc_pending back)"

definition two_exporters_do_not_collide_on_template_256 :: bool where
  "two_exporters_do_not_collide_on_template_256 \<longleftrightarrow>
     (let c = upsert (test_key ''routerA'' 0 256) (with_ie 8 (test_entry 1)) cache_new;
          c = upsert (test_key ''routerB'' 0 256) (with_ie 27 (test_entry 2)) c
      in first_ie (test_key ''routerA'' 0 256) c = Some 8 \<and> first_ie (test_key ''routerB'' 0 256) c = Some 27)"

definition redefinition_replaces_layout_keeps_first_seen :: bool where
  "redefinition_replaces_layout_keeps_first_seen \<longleftrightarrow>
     (let c = upsert (test_key ''r'' 0 256) (test_entry 100) cache_new;
          c = upsert (test_key ''r'' 0 256) (with_ie 12 (test_entry 200)) c
      in first_ie (test_key ''r'' 0 256) c = Some 12 \<and>
         map_option te_first_seen (cache_peek c (test_key ''r'' 0 256)) = Some 100)"

definition pending_buffer_is_bounded :: bool where
  "pending_buffer_is_bounded \<longleftrightarrow>
     (let c = cache_new\<lparr>tc_cap_pending_bytes := 8\<rparr>;
          pr = \<lparr>pr_export_time = None, pr_sequence = None, pr_version = ''9'', pr_sys_uptime_ms = None,
                pr_bytes = replicate 6 0\<rparr>;
          (first, c) = push_pending (test_key ''r'' 0 1) pr c;
          (second, _) = push_pending (test_key ''r'' 0 1) pr c
      in first \<and> \<not> second)"

definition lru_eviction_drops_oldest :: bool where
  "lru_eviction_drops_oldest \<longleftrightarrow>
     (let c = cache_new\<lparr>tc_cap_entries := 2\<rparr>;
          c = upsert (test_key ''r'' 0 1) (test_entry 10) c;
          c = upsert (test_key ''r'' 0 2) (test_entry 20) c;
          c = upsert (test_key ''r'' 0 3) (test_entry 30) c
      in cache_peek c (test_key ''r'' 0 1) = None \<and> cache_peek c (test_key ''r'' 0 2) \<noteq> None \<and>
         cache_peek c (test_key ''r'' 0 3) \<noteq> None)"

section \<open>\<open>arrow_map.rs\<close>\<close>

definition batch_round_trip_schema_matches :: "(arrow_field list \<Rightarrow> arrow_array list \<Rightarrow> string option) \<Rightarrow> bool" where
  "batch_round_trip_schema_matches try_new \<longleftrightarrow>
     (let r = put_raw ''interfaceName'' [0x65, 0x74, 0x68, 0x30]
            (default_record\<lparr>fr_exporter := ''r1'', fr_flow_version := ''10'', fr_obs_domain := 42,
               fr_export_time := Some 1700000000000000, fr_src_addr := inet4 [10, 0, 0, 1]\<rparr>);
          schema = flow_schema
      in case rows_to_batch try_new [r] schema of
           Inl _ \<Rightarrow> False
         | Inr batch \<Rightarrow> batch_len batch = 1 \<and> rb_schema batch = schema)"


lemma ipv4_test: "ipv4_round_trips"
proof -
  have "inet4 [203, 0, 113, 5] = Some (encode_ip (IpV4 [203, 0, 113, 5]))" by (simp add: inet4_Some_iff)
  then show ?thesis
    by (simp add: ipv4_round_trips_def to_ip_string_encode4 IP_TYPE_V4_def from_le_to_le del: encode_ip.simps)
      (simp add: IP_TYPE_V4_def from_le_to_le from_be_def be_nat_def ipv4_display_def dec_of_word_def dec_of_nat.simps char_of_def bit_0)
qed

lemma ipv6_test: "ipv6_sign_bit_flipped_round_trips"
  unfolding ipv6_sign_bit_flipped_round_trips_def Let_def
proof (intro conjI)
  show "ip_type (encode_ip (IpV6 [0x20, 0x01, 0x0d, 0xb8, 0, 0, 0, 0, 0, 0, 0, 0, 0, 0, 0, 1])) = 2"
    by (simp add: IP_TYPE_V6_def)
  show "address_le (encode_ip (IpV6 [0x20, 0x01, 0x0d, 0xb8, 0, 0, 0, 0, 0, 0, 0, 0, 0, 0, 0, 1])) ! 15 = 0xa0"
    by (simp add: to_le_bytes_def to_be_bytes_def from_be_def be_nat_def be_bytes_add [of 8 8, simplified]
        be_bytes_8 be_bytes_4)
qed (simp_all add: IP_TYPE_V6_def to_ip_string_encode6 ipv6_display_def ipv4_mapped_def from_be_def be_nat_def
      hex_of_nat.simps hex_digit_def char_of_def bit_0 del: encode_ip.simps)

lemma wf_tests: "garbage_is_not_a_flow_datagram" "truncated_v9_header"
  by (simp_all add: garbage_is_not_a_flow_datagram_def truncated_v9_header_def well_formed_def validate_v9_def
      well_formed_bad_def probe_version_def cur_u16_def cur_u32_def cur_skip_def cur_take_def cursor_new_def
      cur_remaining_def slice_def from_be_def be_nat_def)

lemma fixtures_tests: "fixtures_have_recognizable_headers"
  by (simp add: fixtures_have_recognizable_headers_def netflow_v5_bytes ipfix_basic_bytes sflow_basic_bytes)
   (simp add: netflow_v9_template_def writer_defs to_be_eval)

lemma evict_none: "of_nat (length m) \<le> cap \<Longrightarrow> evict_entries cap m = m"
  by (subst evict_entries.simps) (meson linorder_not_less)

lemma evict_one:
  "cap < of_nat (length m) \<Longrightarrow> evict_entries cap m =
     (case lru_victim m of Some victim \<Rightarrow> evict_entries cap (bt_remove victim m) | None \<Rightarrow> m)"
  by (subst evict_entries.simps) simp

lemmas cache_eval = evict_none evict_one first_ie_def test_key_def with_ie_def test_entry_def cache_new_def upsert_def Let_def
  cache_peek_def bt_get_def evict_if_needed_def bt_remove_def lru_victim_def DEFAULT_CAP_ENTRIES_def less_template_key_def
  less_eq_template_key_def key_tuple_def

lemma cache_tests:
  "two_exporters_do_not_collide_on_template_256" "redefinition_replaces_layout_keeps_first_seen"
  "pending_buffer_is_bounded" "lru_eviction_drops_oldest"
  by (simp_all add: two_exporters_do_not_collide_on_template_256_def
      redefinition_replaces_layout_keeps_first_seen_def pending_buffer_is_bounded_def
      lru_eviction_drops_oldest_def push_pending_def saturating_add_def cache_eval)

lemma cache_ok_serde: "cache_ok serde_cache"
  unfolding serde_cache_def by (intro cache_ok_push cache_ok_upsert cache_ok_new) simp

lemma serde_test:
  assumes "codec_laws sv"
  shows "serde_round_trips_losslessly (sv_to_vec sv) (sv_from_slice sv)"
  unfolding serde_round_trips_losslessly_def codec_roundtrip [OF assms cache_ok_serde] by simp

lemma batch_test:
  assumes "try_new_laws try_new"
  shows "batch_round_trip_schema_matches try_new"
proof -
  let ?r = "put_raw ''interfaceName'' [0x65, 0x74, 0x68, 0x30]
            (default_record\<lparr>fr_exporter := ''r1'', fr_flow_version := ''10'', fr_obs_domain := 42,
               fr_export_time := Some 1700000000000000, fr_src_addr := inet4 [10, 0, 0, 1]\<rparr>)"
  have "list_all row_typed [?r]" by (simp add: row_typed_def put_raw_def default_record_def inet_typed_def inet4_def to_le_bytes_def)
  moreover have "rows_fit [?r]" by (simp add: rows_fit_def row_sizes_def put_raw_def default_record_def)
  ultimately have "rows_to_batch try_new [?r] flow_schema = Inr \<lparr>rb_schema = flow_schema, rb_columns = flow_arrays [?r]\<rparr>"
    by (rule rows_to_batch_fits [OF assms])
  moreover have "batch_len \<lparr>rb_schema = flow_schema, rb_columns = flow_arrays [?r]\<rparr> = 1"
    using flow_columns_len [of "[?r]"] by (simp add: batch_len_def flow_arrays_def)
  ultimately show ?thesis by (simp add: batch_round_trip_schema_matches_def Let_def)
qed

end
