(* ===== verification/Golden.thy ===== *)
theory Golden
  imports Unit_Tests Reorder
begin

text \<open>
  The golden fixtures: the datagrams of \<open>fixtures.rs\<close>, decoded in the kernel to the rows that the
  integration tests (\<open>tests/decode.rs\<close>) expect of them.
\<close>

section \<open>NetFlow v9\<close>

definition golden_fields :: "(u16 \<times> u16) list" where
  "golden_fields = [(8, 4), (12, 4), (7, 2), (11, 2), (4, 1), (2, 4), (1, 4)]"

definition golden_template_set :: flow_set where
  "golden_template_set = \<lparr>set_id = 0, set_body = put_v9_template (V9_TEMPLATE_ID, golden_fields)\<rparr>"

definition golden_data_set :: flow_set where
  "golden_data_set = \<lparr>set_id = V9_TEMPLATE_ID, set_body =
     [172, 16, 0, 1, 172, 16, 0, 2, 4, 87, 0, 22, 6, 0, 0, 0, 3, 0, 0, 0, 180]\<rparr>"

lemma netflow_v9_combined_sets:
  "netflow_v9_combined = v9_datagram 2 V9_SYS_UPTIME_MS EXPORT_UNIX_SECS 20 V9_OBS_DOMAIN [golden_template_set, golden_data_set]"
  unfolding netflow_v9_combined_bytes
  by (simp add: v9_datagram_def v9_header_def put_set_def golden_template_set_def golden_data_set_def
      put_v9_template_def golden_fields_def put_pairs_def to_be_eval EXPORT_UNIX_SECS_def V9_SYS_UPTIME_MS_def V9_OBS_DOMAIN_def V9_TEMPLATE_ID_def)

lemma golden_defs: "concat (map (v9_set_defs now) [golden_template_set, golden_data_set]) = [v9_template_def now (V9_TEMPLATE_ID, golden_fields)]"
  using v9_template_defs_puts [of "[(V9_TEMPLATE_ID, golden_fields)]"
      "cursor_new (put_v9_template (V9_TEMPLATE_ID, golden_fields))" 0 now]
  by (simp add: golden_template_set_def golden_data_set_def v9_set_defs_def v9_template_ok_def golden_fields_def V9_TEMPLATE_ID_def)

definition golden_specs :: "field_spec list" where
  "golden_specs =
     [\<lparr>fs_ie_id = 8, fs_enterprise_number = 0, fs_length = 4, fs_name = ''sourceIPv4Address'', fs_ie_type = ''ipv4Address''\<rparr>,
      \<lparr>fs_ie_id = 12, fs_enterprise_number = 0, fs_length = 4, fs_name = ''destinationIPv4Address'', fs_ie_type = ''ipv4Address''\<rparr>,
      \<lparr>fs_ie_id = 7, fs_enterprise_number = 0, fs_length = 2, fs_name = ''sourceTransportPort'', fs_ie_type = ''unsigned16''\<rparr>,
      \<lparr>fs_ie_id = 11, fs_enterprise_number = 0, fs_length = 2, fs_name = ''destinationTransportPort'', fs_ie_type = ''unsigned16''\<rparr>,
      \<lparr>fs_ie_id = 4, fs_enterprise_number = 0, fs_length = 1, fs_name = ''protocolIdentifier'', fs_ie_type = ''unsigned8''\<rparr>,
      \<lparr>fs_ie_id = 2, fs_enterprise_number = 0, fs_length = 4, fs_name = ''packetDeltaCount'', fs_ie_type = ''unsigned64''\<rparr>,
      \<lparr>fs_ie_id = 1, fs_enterprise_number = 0, fs_length = 4, fs_name = ''octetDeltaCount'', fs_ie_type = ''unsigned64''\<rparr>]"

lemma golden_specs: "map (\<lambda>(ty, len). mk_field_spec 0 ty len) golden_fields = golden_specs"
  by (simp add: golden_fields_def golden_specs_def mk_field_spec_def resolve_def iana_lookup_def REGISTRY_def registry_parts)

definition golden_row :: "ctx \<Rightarrow> flow_record" where
  "golden_row cx = (base_record cx)
     \<lparr>fr_src_addr := inet4 [172, 16, 0, 1], fr_dst_addr := inet4 [172, 16, 0, 2], fr_src_port := Some 1111,
      fr_dst_port := Some 22, fr_protocol := Some 6, fr_packets := Some 3, fr_bytes := Some 180\<rparr>"

lemma golden_fields_read:
  "decode_fields golden_specs \<lparr>st_rec = base_record cx, st_start = None, st_end = None\<rparr>
     (cursor_new [172, 16, 0, 1, 172, 16, 0, 2, 4, 87, 0, 22, 6, 0, 0, 0, 3, 0, 0, 0, 180]) =
   Some (\<lparr>st_rec = golden_row cx, st_start = None, st_end = None\<rparr>,
     \<lparr>cur_data = [172, 16, 0, 1, 172, 16, 0, 2, 4, 87, 0, 22, 6, 0, 0, 0, 3, 0, 0, 0, 180], cur_pos = 21\<rparr>)"
  by (simp add: golden_specs_def is_variable_def cur_take_def cursor_new_def cur_remaining_def slice_def
      map_field_def Let_def be_uint_def from_be_def be_nat_def golden_row_def base_record_def default_record_def opt_or_None)

lemma golden_data_rows:
  "decode_data_set (snd (v9_template_def now (V9_TEMPLATE_ID, golden_fields))) (set_body golden_data_set) cx False =
     [golden_row cx]"
proof -
  let ?tpl = "snd (v9_template_def now (V9_TEMPLATE_ID, golden_fields))"
  have tpl: "te_fields ?tpl = golden_specs" by (simp add: v9_template_def_def v9_entry_def golden_specs)
  have "min_fixed ?tpl = 21" unfolding min_fixed_def tpl by (simp add: golden_specs_def is_variable_def)
  moreover have "resolve_times cx None None (golden_row cx) = golden_row cx"
    by (simp add: resolve_times_def Let_def split: option.splits)
  moreover have "cur_remaining (cursor_new (set_body golden_data_set)) = 21"
    by (simp add: golden_data_set_def cursor_new_def cur_remaining_def)
  ultimately show ?thesis
    unfolding decode_data_set_def
    by (subst record_loop.simps)
      (simp add: decode_one_record_def tpl golden_fields_read golden_data_set_def,
        simp add: cur_position_def cursor_new_def record_loop.simps cur_remaining_def)
qed

text \<open>The first integration test, with the other columns of the row spelt out as well.\<close>

definition decode_fixture :: "bytes \<Rightarrow> template_cache \<Rightarrow> string \<Rightarrow> flow_record list \<times> template_cache" where
  "decode_fixture data cache exporter =
     decode_datagram data (default_options\<lparr>do_exporter := exporter, do_now_micros := 1700000000000000\<rparr>) cache AnyFormat"

definition v9_combined_template_then_data_one_datagram :: bool where
  "v9_combined_template_then_data_one_datagram \<longleftrightarrow>
     (let (rows, _) = decode_fixture netflow_v9_combined cache_new ''r1'';
          flows = filter (\<lambda>r. fr_diagnostics r = None \<and> fr_src_addr r \<noteq> None) rows
      in length flows = 1 \<and>
         map_option to_ip_string (fr_src_addr (flows ! 0)) = Some ''172.16.0.1'' \<and>
         fr_dst_port (flows ! 0) = Some 22 \<and>
         fr_packets (flows ! 0) = Some 3 \<and>
         fr_bytes (flows ! 0) = Some 180)"

lemma decode_fixture_options: "decode_fixture data c ex = decode_v9 ex 1700000000000000 False data c"
  by (simp add: decode_fixture_def decode_v9_def call_options_def default_options_def)

lemma v9_combined_rows:
  "fst (decode_fixture netflow_v9_combined cache_new ex) =
     [golden_row (set_ctx ''9'' (Some 100000) ex V9_OBS_DOMAIN
        (v9_hdr 2 V9_SYS_UPTIME_MS EXPORT_UNIX_SECS 20 V9_OBS_DOMAIN) golden_data_set)]"
proof -
  let ?now = "1700000000000000 :: i64" and ?hdr = "v9_hdr 2 V9_SYS_UPTIME_MS EXPORT_UNIX_SECS 20 V9_OBS_DOMAIN"
  let ?t = "v9_template_def ?now (V9_TEMPLATE_ID, golden_fields)"
  have fits: "\<forall>s \<in> set [golden_template_set, golden_data_set]. set_fits s"
    by (simp add: golden_template_set_def golden_data_set_def set_fits_def length_put_v9_template golden_fields_def)
  have skip: "v9_data_pass ex V9_OBS_DOMAIN ?hdr ?now False [golden_template_set, golden_data_set] c =
      v9_data_pass ex V9_OBS_DOMAIN ?hdr ?now False [golden_data_set] c" for c
    by (rule v9_pass.pass_skip) (simp add: golden_template_set_def)
  have id: "fst ?t = V9_TEMPLATE_ID" "set_id golden_data_set = V9_TEMPLATE_ID"
    by (simp_all add: v9_template_def_def golden_data_set_def)
  have up: "map_option ucast (eh_sys_uptime ?hdr) = Some (100000 :: u64)" by (simp add: v9_hdr_def V9_SYS_UPTIME_MS_def)
  have room: "length (tc_entries cache_new) + length [?t] \<le> unat (tc_cap_entries cache_new)"
    by (simp add: cache_new_def DEFAULT_CAP_ENTRIES_def)
  have body: "\<forall>s \<in> set [golden_data_set]. \<not> set_id s < 256 \<and> length (set_body s) < 2 ^ 32"
    by (simp add: golden_data_set_def V9_TEMPLATE_ID_def)
  have ids: "\<forall>s \<in> set [golden_data_set]. set_id s \<in> fst ` set [?t]" using id by simp
  have empty: "pending_is_empty cache_new" by (simp add: pending_is_empty_def cache_new_def)
  note pass = v9_pass.pass_defined [OF cache_ok_new room body ids empty, of ex V9_OBS_DOMAIN ?hdr ?now False, unfolded up]
  have "defined_rows ''9'' (Some 100000) ex V9_OBS_DOMAIN ?hdr False [?t] golden_data_set =
      [golden_row (set_ctx ''9'' (Some 100000) ex V9_OBS_DOMAIN ?hdr golden_data_set)]"
    using golden_data_rows [of ?now] by (simp add: defined_rows_def id [unfolded v9_template_def_def] v9_template_def_def)
  with pass show ?thesis
    unfolding decode_fixture_options netflow_v9_combined_sets decode_v9_written [OF fits] golden_defs learn_pass_retry_def skip
    by (simp add: case_prod_beta Let_def)
qed

lemma v9_combined_test: "v9_combined_template_then_data_one_datagram"
proof -
  have addr: "inet4 [172, 16, 0, 1] = Some (encode_ip (IpV4 [172, 16, 0, 1]))" by (simp add: inet4_Some_iff)
  have shown: "ipv4_display [172, 16, 0, 1] = ''172.16.0.1''"
    by (simp add: ipv4_display_def dec_of_word_def dec_of_nat.simps char_of_def bit_0)
  have diag: "fr_diagnostics (golden_row cx) = None" for cx
    by (simp add: golden_row_def base_record_def default_record_def)
  show ?thesis
    unfolding v9_combined_template_then_data_one_datagram_def case_prod_beta Let_def v9_combined_rows
    by (simp add: diag) (simp add: golden_row_def addr to_ip_string_encode4 shown del: encode_ip.simps)
qed

section \<open>NetFlow v5\<close>

definition v5_decodes_two_records :: bool where
  "v5_decodes_two_records \<longleftrightarrow>
     (let (rows, _) = decode_fixture netflow_v5 cache_new ''r1'';
          r0 = rows ! 0;
          export = ucast EXPORT_UNIX_SECS * 1000000 :: i64;
          boot = export - ucast V9_SYS_UPTIME_MS * 1000
      in length rows = 2 \<and>
         fr_flow_version r0 = ''5'' \<and>
         map_option to_ip_string (fr_src_addr r0) = Some ''10.0.0.1'' \<and>
         map_option to_ip_string (fr_dst_addr r0) = Some ''10.0.0.2'' \<and>
         fr_src_port r0 = Some 1234 \<and> fr_dst_port r0 = Some 80 \<and> fr_protocol r0 = Some 6 \<and>
         fr_bytes r0 = Some 1000 \<and> fr_packets r0 = Some 10 \<and> fr_src_as r0 = Some 64500 \<and>
         fr_diagnostics r0 = None \<and>
         fr_flow_start r0 = Some (boot + 90000 * 1000) \<and>
         fr_flow_end r0 = Some (boot + 95000 * 1000) \<and>
         fr_protocol (rows ! 1) = Some 17)"

definition v5_first :: bytes where "v5_first = take 48 (drop 24 netflow_v5)"

definition v5_second :: bytes where "v5_second = drop 72 netflow_v5"

lemma netflow_v5_split:
  "netflow_v5 = v5_header 2 V9_SYS_UPTIME_MS EXPORT_UNIX_SECS 0 10 0 1 0 @ v5_first @ v5_second"
  "length v5_first = 48" "length v5_second = 48"
  by (simp_all add: v5_first_def v5_second_def netflow_v5_bytes v5_header_def to_be_eval V9_SYS_UPTIME_MS_def
      EXPORT_UNIX_SECS_def)

lemma chunks_two: "length a = n \<Longrightarrow> length b = n \<Longrightarrow> 0 < n \<Longrightarrow> chunks n (a @ b) = [a, b]"
  by (simp add: chunks.simps)

definition v5_hdr :: export_header where
  "v5_hdr = \<lparr>eh_version = 5, eh_count = Some 2, eh_sys_uptime = Some V9_SYS_UPTIME_MS,
     eh_export_time = Some (ucast EXPORT_UNIX_SECS * 1000000), eh_sequence = Some 10, eh_obs_domain = Some 1\<rparr>"

lemma v5_rows_two:
  "fst (decode_fixture netflow_v5 c ex) =
     [v5_decode_record v5_first ex 1 v5_hdr (v5_boot v5_hdr), v5_decode_record v5_second ex 1 v5_hdr (v5_boot v5_hdr)]"
proof -
  have hdr: "parse_header netflow_v5 = Some v5_hdr"
    unfolding netflow_v5_split(1) parse_v5_header by (simp add: v5_hdr_def i64_div_def)
  have probe: "probe_version netflow_v5 = Some ''5''" unfolding netflow_v5_split(1) by (rule probe_v5_header)
  have rest: "drop 24 netflow_v5 = v5_first @ v5_second" "length netflow_v5 = 120"
    by (simp_all add: netflow_v5_split v5_header_def)
  have "v5_decode netflow_v5 ex =
      [v5_decode_record v5_first ex 1 v5_hdr (v5_boot v5_hdr), v5_decode_record v5_second ex 1 v5_hdr (v5_boot v5_hdr)]"
    using chunks_two [OF netflow_v5_split(2,3)]
    by (simp add: v5_decode_def hdr cur_skip_eq v5_loop_eq rest v5_hdr_def)
  then show ?thesis
    by (simp add: decode_fixture_def decode_datagram_eq datagram_out_def probe default_options_def)
qed

lemmas read_eval = read_or_def try_read_def cur_take_def cur_u8_def cur_u16_def cur_u32_def cursor_new_def
  cur_remaining_def slice_def from_be_def be_nat_def Let_def

lemma v5_first_row:
  "v5_decode_record v5_first ex 1 v5_hdr (Some b) =
     \<lparr>fr_exporter = ex, fr_flow_version = ''5'', fr_obs_domain = 1, fr_template_id = None,
      fr_export_time = eh_export_time v5_hdr, fr_sequence = eh_sequence v5_hdr,
      fr_src_addr = inet4 [10, 0, 0, 1], fr_dst_addr = inet4 [10, 0, 0, 2],
      fr_src_port = Some 1234, fr_dst_port = Some 80, fr_protocol = Some 6, fr_tcp_flags = Some 24,
      fr_bytes = Some 1000, fr_packets = Some 10, fr_flow_start = Some (b + 90000 * 1000),
      fr_flow_end = Some (b + 95000 * 1000), fr_src_as = Some 64500, fr_dst_as = Some 64501,
      fr_input_snmp = Some 1, fr_output_snmp = Some 2, fr_next_hop = inet4 [10, 0, 0, 254], fr_tos = Some 0,
      fr_src_mask = Some 24, fr_dst_mask = Some 24, fr_sampling_rate = None, fr_direction = None,
      fr_raw_fields = [], fr_diagnostics = None\<rparr>"
  unfolding v5_decode_record_def v5_first_def netflow_v5_bytes by (simp add: read_eval)

lemma v5_second_row:
  "fr_protocol (v5_decode_record v5_second ex 1 v5_hdr (Some b)) = Some 17"
  unfolding v5_decode_record_def v5_second_def netflow_v5_bytes by (simp add: read_eval)

lemma v5_test: "v5_decodes_two_records"
proof -
  have addr: "inet4 [10, 0, 0, 1] = Some (encode_ip (IpV4 [10, 0, 0, 1]))"
    "inet4 [10, 0, 0, 2] = Some (encode_ip (IpV4 [10, 0, 0, 2]))" by (simp_all add: inet4_Some_iff)
  have shown: "ipv4_display [10, 0, 0, 1] = ''10.0.0.1''" "ipv4_display [10, 0, 0, 2] = ''10.0.0.2''"
    by (simp_all add: ipv4_display_def dec_of_word_def dec_of_nat.simps char_of_def bit_0)
  have boot: "v5_boot v5_hdr = Some (ucast EXPORT_UNIX_SECS * 1000000 - ucast V9_SYS_UPTIME_MS * 1000)"
    by (simp add: v5_boot_def v5_hdr_def)
  let ?b = "ucast EXPORT_UNIX_SECS * 1000000 - ucast V9_SYS_UPTIME_MS * 1000 :: i64"
  let ?r0 = "v5_decode_record v5_first ''r1'' 1 v5_hdr (v5_boot v5_hdr)"
  have r0: "fr_flow_version ?r0 = ''5''" "fr_src_addr ?r0 = inet4 [10, 0, 0, 1]" "fr_dst_addr ?r0 = inet4 [10, 0, 0, 2]"
    "fr_src_port ?r0 = Some 1234" "fr_dst_port ?r0 = Some 80" "fr_protocol ?r0 = Some 6" "fr_bytes ?r0 = Some 1000"
    "fr_packets ?r0 = Some 10" "fr_src_as ?r0 = Some 64500" "fr_diagnostics ?r0 = None"
    "fr_flow_start ?r0 = Some (?b + 90000 * 1000)" "fr_flow_end ?r0 = Some (?b + 95000 * 1000)"
    by (simp_all add: boot v5_first_row [of "''r1''" ?b])
  have r1: "fr_protocol (v5_decode_record v5_second ''r1'' 1 v5_hdr (v5_boot v5_hdr)) = Some 17"
    by (simp add: boot v5_second_row)
  show ?thesis
    unfolding v5_decodes_two_records_def case_prod_beta Let_def v5_rows_two
    by (simp add: r0 r1 addr to_ip_string_encode4 shown del: encode_ip.simps)
qed

end
