(* ===== verification/Golden_Scan.thy ===== *)
theory Golden_Scan
  imports Golden
begin

text \<open>
  The integration tests of \<open>tests/decode.rs\<close> in which a template and its data are in different
  datagrams.
\<close>

section \<open>Template and data apart\<close>

definition data_set_alone :: flow_set where
  "data_set_alone = \<lparr>set_id = V9_TEMPLATE_ID, set_body =
     [10, 1, 1, 1, 10, 1, 1, 2, 15, 160, 1, 187, 6, 0, 0, 0, 5, 0, 0, 3, 32]\<rparr>"

lemma fixture_datagrams:
  "netflow_v9_template = v9_datagram 1 V9_SYS_UPTIME_MS EXPORT_UNIX_SECS 20 V9_OBS_DOMAIN [golden_template_set]"
  "netflow_v9_data = v9_datagram 1 V9_SYS_UPTIME_MS EXPORT_UNIX_SECS 20 V9_OBS_DOMAIN [data_set_alone]"
  by (simp_all add: netflow_v9_template_def netflow_v9_data_def writer_defs v9_datagram_def v9_header_def put_set_def
      golden_template_set_def data_set_alone_def put_v9_template_def golden_fields_def put_pairs_def to_be_eval)

abbreviation alone_hdr :: export_header where
  "alone_hdr \<equiv> v9_hdr 1 V9_SYS_UPTIME_MS EXPORT_UNIX_SECS 20 V9_OBS_DOMAIN"

abbreviation golden_def :: "u16 \<times> template_entry" where
  "golden_def \<equiv> v9_template_def 1700000000000000 (V9_TEMPLATE_ID, golden_fields)"

lemma alone_fits: "\<forall>s \<in> set [golden_template_set]. set_fits s" "\<forall>s \<in> set [data_set_alone]. set_fits s"
  by (simp_all add: golden_template_set_def data_set_alone_def set_fits_def length_put_v9_template golden_fields_def)

lemma alone_defs:
  "concat (map (v9_set_defs now) [golden_template_set]) = [v9_template_def now (V9_TEMPLATE_ID, golden_fields)]"
  "concat (map (v9_set_defs now) [data_set_alone]) = []"
  using golden_defs [of now] by (simp_all add: golden_data_set_def data_set_alone_def v9_set_defs_def V9_TEMPLATE_ID_def)

lemma decode_apart:
  "decode_fixture netflow_v9_template c ex =
     learn_pass_retry v9_data_pass ex V9_OBS_DOMAIN [golden_def] 1700000000000000 False alone_hdr [golden_template_set] c"
  "decode_fixture netflow_v9_data c ex =
     learn_pass_retry v9_data_pass ex V9_OBS_DOMAIN [] 1700000000000000 False alone_hdr [data_set_alone] c"
  unfolding fixture_datagrams decode_fixture_options decode_v9_written [OF alone_fits(1)]
    decode_v9_written [OF alone_fits(2)] alone_defs by (rule refl)+

lemma template_pass: "v9_data_pass ex dm hdr now fo [golden_template_set] c = ([], c)"
  by (rule v9_pass.pass_template_sets) (simp add: golden_template_set_def)

definition alone_row :: "ctx \<Rightarrow> flow_record" where
  "alone_row cx = (base_record cx)
     \<lparr>fr_src_addr := inet4 [10, 1, 1, 1], fr_dst_addr := inet4 [10, 1, 1, 2], fr_src_port := Some 4000,
      fr_dst_port := Some 443, fr_protocol := Some 6, fr_packets := Some 5, fr_bytes := Some 800\<rparr>"

lemma alone_rows:
  "decode_data_set (snd (v9_template_def now (V9_TEMPLATE_ID, golden_fields))) (set_body data_set_alone) cx False =
     [alone_row cx]"
proof -
  let ?tpl = "snd (v9_template_def now (V9_TEMPLATE_ID, golden_fields))"
  have tpl: "te_fields ?tpl = golden_specs" by (simp add: v9_template_def_def v9_entry_def golden_specs)
  have "min_fixed ?tpl = 21" unfolding min_fixed_def tpl by (simp add: golden_specs_def is_variable_def)
  moreover have "resolve_times cx None None (alone_row cx) = alone_row cx"
    by (simp add: resolve_times_def Let_def split: option.splits)
  moreover have "decode_fields golden_specs \<lparr>st_rec = base_record cx, st_start = None, st_end = None\<rparr>
      (cursor_new (set_body data_set_alone)) =
    Some (\<lparr>st_rec = alone_row cx, st_start = None, st_end = None\<rparr>,
      \<lparr>cur_data = set_body data_set_alone, cur_pos = 21\<rparr>)"
    by (simp add: golden_specs_def is_variable_def cur_take_def cursor_new_def cur_remaining_def slice_def
        map_field_def Let_def be_uint_def from_be_def be_nat_def alone_row_def data_set_alone_def base_record_def
        default_record_def opt_or_None)
  moreover have "cur_remaining (cursor_new (set_body data_set_alone)) = 21"
    by (simp add: data_set_alone_def cursor_new_def cur_remaining_def)
  ultimately show ?thesis
    unfolding decode_data_set_def
    by (subst record_loop.simps)
      (simp add: decode_one_record_def tpl, simp add: data_set_alone_def cur_position_def cursor_new_def
        record_loop.simps cur_remaining_def)
qed

abbreviation alone_ctx :: "string \<Rightarrow> ctx" where
  "alone_ctx ex \<equiv> set_ctx ''9'' (map_option ucast (eh_sys_uptime alone_hdr)) ex V9_OBS_DOMAIN alone_hdr data_set_alone"

lemma alone_defined:
  "defined_rows ''9'' (map_option ucast (eh_sys_uptime alone_hdr)) ex V9_OBS_DOMAIN alone_hdr False [golden_def]
     data_set_alone = [alone_row (alone_ctx ex)]"
proof -
  have "set_id data_set_alone = fst golden_def" by (simp add: data_set_alone_def v9_template_def_def)
  then have "the (map_of (rev [golden_def]) (set_id data_set_alone)) = snd golden_def" by (simp add: map_of_Cons_code)
  then show ?thesis unfolding defined_rows_def using alone_rows by simp
qed

lemma golden_room: "length (tc_entries cache_new) + length [golden_def] \<le> unat (tc_cap_entries cache_new)"
  by (simp add: cache_new_def DEFAULT_CAP_ENTRIES_def)

lemma empty_new: "pending_is_empty cache_new"
  by (simp add: pending_is_empty_def cache_new_def)

lemma alone_data: "\<forall>s \<in> set [data_set_alone]. \<not> set_id s < 256 \<and> length (set_body s) < 2 ^ 32"
  by (simp add: data_set_alone_def V9_TEMPLATE_ID_def)

text \<open>The template datagram on a cache that waits for nothing, and the data datagram after it.\<close>

abbreviation primed_cache :: "string \<Rightarrow> template_cache" where
  "primed_cache ex \<equiv> learn_all ex V9_OBS_DOMAIN [golden_def] cache_new"

lemma primed: "decode_fixture netflow_v9_template cache_new ex = ([], primed_cache ex)"
proof -
  have "pending_is_empty (primed_cache ex)" by (simp add: pending_is_empty_def cache_new_def)
  then show ?thesis unfolding decode_apart learn_pass_retry_def template_pass by simp
qed

lemma data_after_template: "fst (decode_fixture netflow_v9_data (primed_cache ex) ex) = [alone_row (alone_ctx ex)]"
proof -
  have ids: "\<forall>s \<in> set [data_set_alone]. set_id s \<in> fst ` set [golden_def]"
    by (simp add: data_set_alone_def v9_template_def_def)
  from v9_pass.pass_defined [OF cache_ok_new golden_room alone_data ids empty_new, of ex V9_OBS_DOMAIN alone_hdr
      1700000000000000 False]
  show ?thesis by (simp add: decode_apart learn_pass_retry_def case_prod_beta alone_defined)
qed

text \<open>The data datagram where its template is not known.\<close>

lemma data_unknown:
  assumes "cache_ok c" and "pending_is_empty c" and "tc_cap_pending_bytes c = DEFAULT_CAP_PENDING_BYTES"
    and "cache_peek c (set_key ex V9_OBS_DOMAIN data_set_alone) = None"
  shows "\<exists>p. decode_fixture netflow_v9_data c ex = ([], p) \<and> cache_ok p \<and> tc_entries p = tc_entries c \<and>
    tc_cap_entries p = tc_cap_entries c \<and> (\<forall>k. pending_of p k =
      map (set_pending ''9'' (map_option ucast (eh_sys_uptime alone_hdr)) alone_hdr)
        (filter (\<lambda>s. set_key ex V9_OBS_DOMAIN s = k) [data_set_alone]))"
proof -
  have "pending_total c + bodies [data_set_alone] \<le> unat (tc_cap_pending_bytes c)"
    using assms(2,3) by (simp add: pending_total_empty bodies_def data_set_alone_def DEFAULT_CAP_PENDING_BYTES_def)
  with v9_pass.pass_buffers [OF assms(1) alone_data, of ex V9_OBS_DOMAIN alone_hdr 1700000000000000 False] assms(4)
  obtain p where p: "v9_data_pass ex V9_OBS_DOMAIN alone_hdr 1700000000000000 False [data_set_alone] c = ([], p)"
    "cache_ok p" "tc_entries p = tc_entries c" "tc_cap_entries p = tc_cap_entries c"
    "\<forall>k. pending_of p k = pending_of c k @ map (set_pending ''9'' (map_option ucast (eh_sys_uptime alone_hdr)) alone_hdr)
        (filter (\<lambda>s. set_key ex V9_OBS_DOMAIN s = k) [data_set_alone])" by auto
  have none: "pending_of c k = []" for k using assms(1,2) by (simp add: pending_empty_iff)
  have "cache_peek p = cache_peek c" using p(3) by (simp add: cache_peek_def fun_eq_iff)
  then have "retry_pending p 1700000000000000 False = ([], p)"
    using p(5) none assms(4) by (intro retry_none_known [OF p(2)]) (auto split: if_splits)
  with p none show ?thesis
    unfolding decode_apart learn_pass_retry_def by (intro exI [of _ p]) simp
qed

section \<open>The tests\<close>

definition is_flow :: "flow_record \<Rightarrow> bool" where
  "is_flow r \<longleftrightarrow> fr_src_addr r \<noteq> None"

definition starts_with :: "string \<Rightarrow> string \<Rightarrow> bool" where
  "starts_with start s \<longleftrightarrow> take (length start) s = start"

definition v9_template_in_batch_one_data_in_batch_n :: bool where
  "v9_template_in_batch_one_data_in_batch_n \<longleftrightarrow>
     (let (primed, c) = decode_fixture netflow_v9_template cache_new ''r1'';
          known = cache_peek c (TemplateKey ''r1'' V9_OBS_DOMAIN V9_TEMPLATE_ID) \<noteq> None;
          (rows, _) = decode_fixture netflow_v9_data c ''r1'';
          flows = filter is_flow rows
      in list_all (\<lambda>r. \<not> is_flow r) primed \<and> known \<and> length flows = 1 \<and>
         map_option to_ip_string (fr_src_addr (flows ! 0)) = Some ''10.1.1.1'' \<and>
         fr_dst_port (flows ! 0) = Some 443)"

definition v9_data_before_template_is_buffered_then_retried :: bool where
  "v9_data_before_template_is_buffered_then_retried \<longleftrightarrow>
     (let (early, c) = decode_fixture netflow_v9_data cache_new ''r1'';
          waits = \<not> pending_is_empty c;
          (resolved, c) = decode_fixture netflow_v9_template c ''r1''
      in list_all (\<lambda>r. \<not> is_flow r) early \<and> waits \<and> length (filter is_flow resolved) = 1 \<and>
         pending_is_empty c)"

definition missing_template_flushed_as_diagnostic_never_dropped :: bool where
  "missing_template_flushed_as_diagnostic_never_dropped \<longleftrightarrow>
     (let (_, c) = decode_fixture netflow_v9_data cache_new ''r1'';
          (flushed, c) = flush_pending c
      in length flushed = 1 \<and>
         (case fr_diagnostics (flushed ! 0) of None \<Rightarrow> False | Some d \<Rightarrow> starts_with ''missing-template:'' d) \<and>
         pending_is_empty c)"

definition two_exporters_reusing_template_256_do_not_collide :: bool where
  "two_exporters_reusing_template_256_do_not_collide \<longleftrightarrow>
     (let (_, c) = decode_fixture netflow_v9_template cache_new ''routerA'';
          (b_rows, c) = decode_fixture netflow_v9_data c ''routerB''
      in list_all (\<lambda>r. \<not> is_flow r) b_rows \<and> \<not> pending_is_empty c)"

definition cache_round_trips_between_datagrams_http_rehydration ::
  "(cache_dto \<Rightarrow> bytes option) \<Rightarrow> (bytes \<Rightarrow> cache_dto option) \<Rightarrow> bool" where
  "cache_round_trips_between_datagrams_http_rehydration to_vec from_slice \<longleftrightarrow>
     (let (_, c) = decode_fixture netflow_v9_template cache_new ''r1'';
          rehydrated = from_bytes from_slice (to_bytes to_vec c);
          (rows, _) = decode_fixture netflow_v9_data rehydrated ''r1''
      in length (filter is_flow rows) = 1)"

lemma alone_is_flow [simp]: "is_flow (alone_row cx)" "fr_dst_port (alone_row cx) = Some 443"
  "map_option to_ip_string (fr_src_addr (alone_row cx)) = Some ''10.1.1.1''"
proof -
  have addr: "inet4 [10, 1, 1, 1] = Some (encode_ip (IpV4 [10, 1, 1, 1]))" by (simp add: inet4_Some_iff)
  have shown: "ipv4_display [10, 1, 1, 1] = ''10.1.1.1''"
    by (simp add: ipv4_display_def dec_of_word_def dec_of_nat.simps char_of_def bit_0)
  show "is_flow (alone_row cx)" "fr_dst_port (alone_row cx) = Some 443"
    "map_option to_ip_string (fr_src_addr (alone_row cx)) = Some ''10.1.1.1''"
    by (simp_all add: is_flow_def alone_row_def addr to_ip_string_encode4 shown del: encode_ip.simps)
qed

lemma primed_known: "cache_peek (primed_cache ex) (TemplateKey ex V9_OBS_DOMAIN V9_TEMPLATE_ID) \<noteq> None"
  using learn_all_room [OF cache_ok_new golden_room, of "TemplateKey ex V9_OBS_DOMAIN V9_TEMPLATE_ID" ex V9_OBS_DOMAIN]
  by (auto simp: v9_template_def_def)

lemma primed_unknown: "ex' \<noteq> ex \<Longrightarrow> cache_peek (primed_cache ex) (set_key ex' V9_OBS_DOMAIN s) = None"
  using learn_all_room [OF cache_ok_new golden_room, of "set_key ex' V9_OBS_DOMAIN s" ex V9_OBS_DOMAIN]
  by (simp add: set_key_def cache_peek_def cache_new_def bt_get_def)

lemma template_first_test: "v9_template_in_batch_one_data_in_batch_n"
  unfolding v9_template_in_batch_one_data_in_batch_n_def primed prod.case Let_def
  using data_after_template [of "''r1''"] primed_known [of "''r1''"]
  by (simp add: case_prod_beta del: learn_all_simps map_option_eq_Some)

lemma new_unknown: "cache_peek cache_new k = None"
  by (simp add: cache_peek_def cache_new_def bt_get_def)

lemma data_first:
  obtains p where "decode_fixture netflow_v9_data cache_new ex = ([], p)" "cache_ok p" "tc_entries p = []"
    "tc_cap_entries p = DEFAULT_CAP_ENTRIES" "\<forall>k. pending_of p k =
      map (set_pending ''9'' (map_option ucast (eh_sys_uptime alone_hdr)) alone_hdr)
        (filter (\<lambda>s. set_key ex V9_OBS_DOMAIN s = k) [data_set_alone])" "\<not> pending_is_empty p"
proof -
  have caps: "tc_cap_pending_bytes cache_new = DEFAULT_CAP_PENDING_BYTES" "tc_entries cache_new = []"
    "tc_cap_entries cache_new = DEFAULT_CAP_ENTRIES" by (simp_all add: cache_new_def)
  from data_unknown [OF cache_ok_new empty_new caps(1) new_unknown] caps(2,3) obtain p
    where p: "decode_fixture netflow_v9_data cache_new ex = ([], p)" "cache_ok p" "tc_entries p = []"
      "tc_cap_entries p = DEFAULT_CAP_ENTRIES" "\<forall>k. pending_of p k =
        map (set_pending ''9'' (map_option ucast (eh_sys_uptime alone_hdr)) alone_hdr)
          (filter (\<lambda>s. set_key ex V9_OBS_DOMAIN s = k) [data_set_alone])" by auto
  moreover have "pending_of p (set_key ex V9_OBS_DOMAIN data_set_alone) \<noteq> []" using p(5) by simp
  then have "\<not> pending_is_empty p" using p(2) by (auto simp: pending_empty_iff)
  ultimately show thesis by (rule that)
qed

lemma data_first_test: "v9_data_before_template_is_buffered_then_retried"
proof -
  obtain p where p: "decode_fixture netflow_v9_data cache_new ''r1'' = ([], p)" "cache_ok p" "tc_entries p = []"
    "tc_cap_entries p = DEFAULT_CAP_ENTRIES" "\<forall>k. pending_of p k =
      map (set_pending ''9'' (map_option ucast (eh_sys_uptime alone_hdr)) alone_hdr)
        (filter (\<lambda>s. set_key ''r1'' V9_OBS_DOMAIN s = k) [data_set_alone])" "\<not> pending_is_empty p"
    using data_first by blast
  let ?L = "learn_all ''r1'' V9_OBS_DOMAIN [golden_def] p"
  have ok: "cache_ok ?L" by (rule cache_ok_learn_all [OF p(2)])
  have busy: "\<not> pending_is_empty ?L" using p(6) by (simp add: pending_is_empty_def)
  obtain rows c where r: "retry_pending ?L 1700000000000000 False = (rows, c)" by fastforce
  have room: "length (tc_entries p) + length [golden_def] \<le> unat (tc_cap_entries p)"
    by (simp add: p(3,4) DEFAULT_CAP_ENTRIES_def)
  have id: "\<forall>s \<in> set [data_set_alone]. set_id s \<in> fst ` set [golden_def]"
    by (simp add: data_set_alone_def v9_template_def_def)
  have "mset rows = mset [alone_row (alone_ctx ''r1'')]"
    using v9_pass.retry_buffered [OF _ p(2) room id p(5), of 1700000000000000 False] r by (simp add: alone_defined)
  then have rows: "rows = [alone_row (alone_ctx ''r1'')]" by simp
  have known: "cache_peek ?L (set_key ''r1'' V9_OBS_DOMAIN data_set_alone) \<noteq> None"
    using learn_all_room [OF p(2) room, of "set_key ''r1'' V9_OBS_DOMAIN data_set_alone" "''r1''" V9_OBS_DOMAIN] id
    by (auto simp: set_key_def)
  have only: "k = set_key ''r1'' V9_OBS_DOMAIN data_set_alone" if "pending_of ?L k \<noteq> []" for k
    using that p(5) by (auto simp: pending_of_def [of ?L] pending_of_def [of p] split: if_splits)
  from retry_loop_spec [OF ok pending_keys_in(1) [OF ok] r [unfolded retry_pending_def]]
  have c: "cache_ok c"
    "\<forall>k. pending_of c k = (if k \<in> set (pending_keys ?L) \<and> cache_peek ?L k \<noteq> None then [] else pending_of ?L k)" by auto
  have "pending_of c k = []" for k
    using c(2) only [of k] known pending_keys_in(2) [OF ok, of k] by auto
  with c(1) have "pending_is_empty c" by (simp add: pending_empty_iff)
  then show ?thesis
    unfolding v9_data_before_template_is_buffered_then_retried_def p(1) prod.case Let_def decode_apart(1)
      learn_pass_retry_def template_pass
    using p(6) busy r rows by (simp del: learn_all_simps)
qed

lemma flushed_test: "missing_template_flushed_as_diagnostic_never_dropped"
proof -
  obtain p where p: "decode_fixture netflow_v9_data cache_new ''r1'' = ([], p)" "cache_ok p" "\<forall>k. pending_of p k =
      map (set_pending ''9'' (map_option ucast (eh_sys_uptime alone_hdr)) alone_hdr)
        (filter (\<lambda>s. set_key ''r1'' V9_OBS_DOMAIN s = k) [data_set_alone])"
    using data_first by blast
  let ?k = "set_key ''r1'' V9_OBS_DOMAIN data_set_alone"
  have "k \<in> set (pending_keys p) \<longleftrightarrow> k = ?k" for k
    using pending_keys_in(2) [OF p(2), of k] p(3) [rule_format, of k] by (auto split: if_splits)
  then have "set (pending_keys p) = {?k}" by blast
  with pending_keys_in(1) [OF p(2)] have keys: "pending_keys p = [?k]"
    by (cases "pending_keys p") (auto simp: subset_singleton_iff)
  have "fst (flush_pending p) = flushed_rows p ?k" by (simp add: flush_by_key [OF p(2)] keys)
  moreover have "pending_is_empty (snd (flush_pending p))"
    by (simp add: flush_pending_def drain_pending_def pending_is_empty_def)
  ultimately show ?thesis
    unfolding missing_template_flushed_as_diagnostic_never_dropped_def p(1) prod.case Let_def
    using p(3) by (simp add: case_prod_beta flushed_rows_def diagnostic_def missing_template_def starts_with_def
        default_record_def)
qed

lemma exporters_test: "two_exporters_reusing_template_256_do_not_collide"
proof -
  let ?c = "primed_cache ''routerA''"
  have "pending_is_empty ?c" "tc_cap_pending_bytes ?c = DEFAULT_CAP_PENDING_BYTES"
    by (simp_all add: pending_is_empty_def cache_new_def del: learn_all_simps)
  from data_unknown [OF cache_ok_learn_all [OF cache_ok_new] this primed_unknown, of "''routerB''"]
  obtain p where p: "decode_fixture netflow_v9_data ?c ''routerB'' = ([], p)" "cache_ok p"
    "pending_of p (set_key ''routerB'' V9_OBS_DOMAIN data_set_alone) \<noteq> []" by auto
  then have "\<not> pending_is_empty p" by (auto simp: pending_empty_iff)
  with p(1) show ?thesis
    unfolding two_exporters_reusing_template_256_do_not_collide_def primed prod.case Let_def by simp
qed

lemma rehydration_test:
  assumes "to_vec (cache_to_dto (primed_cache ''r1'')) = Some bs" and "bs \<noteq> []"
    and "from_slice bs = Some (cache_to_dto (primed_cache ''r1''))"
  shows "cache_round_trips_between_datagrams_http_rehydration to_vec from_slice"
proof -
  have "from_bytes from_slice (to_bytes to_vec (primed_cache ''r1'')) = primed_cache ''r1''"
    using assms cache_of_dto_to_dto [OF cache_ok_learn_all [OF cache_ok_new]]
    by (simp add: from_bytes_def to_bytes_def del: learn_all_simps)
  then show ?thesis
    unfolding cache_round_trips_between_datagrams_http_rehydration_def primed prod.case Let_def
    using data_after_template [of "''r1''"] by (simp add: case_prod_beta del: learn_all_simps)
qed

end
