(* ===== verification/Meta.thy ===== *)
theory Meta
  imports Fixtures Inet
begin

text \<open>
  The JSON encoders and the sample datagrams of \<open>meta.rs\<close>.  The encoders write catalog texts by
  string formatting; a strict reader of the JSON they aim at is the specification.
\<close>

section \<open>JSON text\<close>

abbreviation (input) dquote :: char where "dquote \<equiv> CHR 0x22"
abbreviation (input) backslash :: char where "backslash \<equiv> CHR 0x5C"
abbreviation (input) newline :: char where "newline \<equiv> CHR 0x0A"

text \<open>\<open>str::replace\<close> of one character.\<close>

definition replace_char :: "char \<Rightarrow> string \<Rightarrow> string \<Rightarrow> string" where
  "replace_char ch r s = concat (map (\<lambda>x. if x = ch then r else [x]) s)"

definition esc :: "string \<Rightarrow> string" where
  "esc s = replace_char newline [backslash, CHR ''n'']
     (replace_char dquote [backslash, dquote] (replace_char backslash [backslash, backslash] s))"

text \<open>\<open>items.join(",")\<close>.\<close>

fun join :: "string list \<Rightarrow> string" where
  "join [] = []"
| "join [x] = x"
| "join (x # y # xs) = x @ '','' @ join (y # xs)"

definition json_text :: "string \<Rightarrow> string" where
  "json_text s = [dquote] @ esc s @ [dquote]"

text \<open>An object with fixed keys: \<open>{"key":"value","key":"value"}\<close>.\<close>

definition example_json :: "string \<times> string \<Rightarrow> string" where
  "example_json x = (case x of (description, sql) \<Rightarrow>
     ''{\"description\":'' @ json_text description @ '',\"sql\":'' @ json_text sql @ ''}'')"

definition executable_examples_json :: "(string \<times> string) list \<Rightarrow> string" where
  "executable_examples_json examples = ''['' @ join (map example_json examples) @ '']''"

definition column_json :: "string \<times> string \<times> string \<Rightarrow> string" where
  "column_json x = (case x of (name, ty, description) \<Rightarrow>
     ''{\"name\":'' @ json_text name @ '',\"type\":'' @ json_text ty @ '',\"description\":'' @
     json_text description @ ''}'')"

definition result_columns_schema_json :: "(string \<times> string \<times> string) list \<Rightarrow> string" where
  "result_columns_schema_json cols = ''['' @ join (map column_json cols) @ '']''"

definition example_queries_json :: "(string \<times> string) list \<Rightarrow> string" where
  "example_queries_json examples = executable_examples_json examples"

text \<open>\<open>str::trim\<close>, on ASCII text.\<close>

definition whitespace :: "char \<Rightarrow> bool" where
  "whitespace ch \<longleftrightarrow> (of_char ch :: nat) \<in> {9..13} \<union> {32}"

definition trim :: "string \<Rightarrow> string" where
  "trim s = rev (dropWhile whitespace (rev (dropWhile whitespace s)))"

definition keyword_json :: "string \<Rightarrow> string" where
  "keyword_json k =
     (let escaped = replace_char dquote [backslash, dquote] (replace_char backslash [backslash, backslash] k)
      in [dquote] @ escaped @ [dquote])"

definition keywords_json :: "string \<Rightarrow> string" where
  "keywords_json keywords =
     ''['' @ join (map keyword_json (filter (\<lambda>k. k \<noteq> []) (map trim (str_split CHR '','' keywords)))) @
     '']''"

record agent_task =
  at_name :: string
  at_prompt :: string

definition agent_task_json :: "agent_task \<Rightarrow> string" where
  "agent_task_json t =
     ''{\"name\":'' @ json_text (at_name t) @ '',\"prompt\":'' @ json_text (at_prompt t) @ ''}''"

definition agent_test_tasks_json :: "agent_task list \<Rightarrow> string" where
  "agent_test_tasks_json tasks = ''['' @ join (map agent_task_json tasks) @ '']''"

definition object_tags :: "string \<Rightarrow> string \<Rightarrow> string \<Rightarrow> string \<Rightarrow> (string \<times> string) list" where
  "object_tags title description_llm description_md keywords =
     [(''vgi.title'', title), (''vgi.doc_llm'', description_llm), (''vgi.doc_md'', description_md),
      (''vgi.keywords'', keywords_json keywords)]"

section \<open>A strict reader\<close>

text \<open>
  What a JSON reader makes of such text: string literals without control characters and with
  the escapes of the quote, the backslash and the newline; objects with given keys; arrays.
\<close>

fun read_chars :: "string \<Rightarrow> (string \<times> string) option" where
  "read_chars [] = None"
| "read_chars (ch # s) =
     (if ch = dquote then Some ([], s)
      else if ch = backslash then
        (case s of
           [] \<Rightarrow> None
         | e # s' \<Rightarrow>
             if e = dquote \<or> e = backslash then map_option (apfst (Cons e)) (read_chars s')
             else if e = CHR ''n'' then map_option (apfst (Cons newline)) (read_chars s')
             else None)
      else if (of_char ch :: nat) < 32 then None
      else map_option (apfst (Cons ch)) (read_chars s))"

definition expect :: "string \<Rightarrow> string \<Rightarrow> string option" where
  "expect p s = (if take (length p) s = p then Some (drop (length p) s) else None)"

definition read_text :: "string \<Rightarrow> (string \<times> string) option" where
  "read_text s = Option.bind (expect [dquote] s) read_chars"

fun read_items :: "nat \<Rightarrow> (string \<Rightarrow> ('a \<times> string) option) \<Rightarrow> string \<Rightarrow> ('a list \<times> string) option" where
  "read_items 0 rd s = None"
| "read_items (Suc n) rd s = do {
     (x, s) \<leftarrow> rd s;
     (case s of
        [] \<Rightarrow> None
      | ch # s \<Rightarrow>
          if ch = CHR '','' then map_option (apfst (Cons x)) (read_items n rd s)
          else if ch = CHR '']'' then Some ([x], s)
          else None)
   }"

definition read_array :: "(string \<Rightarrow> ('a \<times> string) option) \<Rightarrow> string \<Rightarrow> 'a list option" where
  "read_array rd s = do {
     s \<leftarrow> expect ''['' s;
     if s = '']'' then Some []
     else do {
       (xs, rest) \<leftarrow> read_items (length s) rd s;
       if rest = [] then Some xs else None
     }
   }"

lemma expect_append [simp]: "expect p (p @ s) = Some s"
  by (simp add: expect_def)

lemma expect_Cons [simp]: "expect [ch] (ch # s) = Some s"
  by (simp add: expect_def)

text \<open>What a printer and a reader of array items owe each other.\<close>

locale json_item =
  fixes print :: "'a \<Rightarrow> string" and read :: "string \<Rightarrow> ('a \<times> string) option" and good :: "'a \<Rightarrow> bool"
  assumes read_print: "good x \<Longrightarrow> read (print x @ rest) = Some (x, rest)"
    and print_nonempty: "print x \<noteq> []"
begin

lemma join_print: "xs \<noteq> [] \<Longrightarrow> join (map print (x # xs)) = print x @ '','' @ join (map print xs)"
  by (cases xs) simp_all

lemma length_join_print: "length xs \<le> length (join (map print xs))"
proof (induction xs)
  case (Cons x xs)
  have "0 < length (print x)" using print_nonempty by simp
  with Cons show ?case
    by (cases "xs = []") (auto simp: join_print Suc_le_eq simp del: list.map(2), simp)
qed simp

lemma read_items_print:
  "xs \<noteq> [] \<Longrightarrow> list_all good xs \<Longrightarrow> length xs \<le> n \<Longrightarrow>
     read_items n read (join (map print xs) @ '']'') = Some (xs, [])"
proof (induction xs arbitrary: n rule: list_nonempty_induct)
  case (single x)
  then show ?case by (cases n) (simp_all add: read_print)
next
  case (cons x xs)
  then obtain m where "n = Suc m" "length xs \<le> m" by (cases n) auto
  with cons show ?case by (simp add: join_print read_print del: list.map(2))
qed

lemma read_array_print:
  assumes "list_all good xs"
  shows "read_array read (''['' @ join (map print xs) @ '']'') = Some xs"
proof (cases "xs = []")
  case False
  define t where "t = join (map print xs) @ '']''"
  have "length (join (map print xs)) \<noteq> 0"
    using length_join_print [of xs] False by (cases xs) auto
  then have "t \<noteq> '']''" by (simp add: t_def)
  moreover have "read_items (length t) read t = Some (xs, [])"
    unfolding t_def using length_join_print [of xs] by (intro read_items_print [OF False assms]) simp
  ultimately have "read_array read (''['' @ t) = Some xs" by (simp add: read_array_def)
  then show ?thesis by (simp add: t_def)
qed (simp add: read_array_def)

end

section \<open>String literals\<close>

definition printable :: "string \<Rightarrow> bool" where
  "printable s \<longleftrightarrow> list_all (\<lambda>ch. 32 \<le> (of_char ch :: nat)) s"

definition printable_lines :: "string \<Rightarrow> bool" where
  "printable_lines s \<longleftrightarrow> list_all (\<lambda>ch. 32 \<le> (of_char ch :: nat) \<or> ch = newline) s"

lemma esc_simps [simp]:
  "esc [] = []"
  "esc (ch # s) = (if ch = backslash then [backslash, backslash] else if ch = dquote then [backslash, dquote]
     else if ch = newline then [backslash, CHR ''n''] else [ch]) @ esc s"
  by (simp_all add: esc_def replace_char_def)

lemma read_chars_esc: "printable_lines s \<Longrightarrow> read_chars (esc s @ dquote # rest) = Some (s, rest)"
  by (induction s) (auto simp: printable_lines_def)

lemma read_text_json: "printable_lines s \<Longrightarrow> read_text (json_text s @ rest) = Some (s, rest)"
  by (simp add: read_text_def json_text_def read_chars_esc)

lemma keyword_json_text: "newline \<notin> set k \<Longrightarrow> keyword_json k = json_text k"
  by (induction k) (auto simp: keyword_json_def json_text_def replace_char_def)

section \<open>Objects\<close>

definition read_example :: "string \<Rightarrow> ((string \<times> string) \<times> string) option" where
  "read_example s = do {
     s \<leftarrow> expect ''{\"description\":'' s; (d, s) \<leftarrow> read_text s;
     s \<leftarrow> expect '',\"sql\":'' s; (q, s) \<leftarrow> read_text s;
     s \<leftarrow> expect ''}'' s; Some ((d, q), s)
   }"

definition read_column :: "string \<Rightarrow> ((string \<times> string \<times> string) \<times> string) option" where
  "read_column s = do {
     s \<leftarrow> expect ''{\"name\":'' s; (n, s) \<leftarrow> read_text s;
     s \<leftarrow> expect '',\"type\":'' s; (t, s) \<leftarrow> read_text s;
     s \<leftarrow> expect '',\"description\":'' s; (d, s) \<leftarrow> read_text s;
     s \<leftarrow> expect ''}'' s; Some ((n, t, d), s)
   }"

definition read_task :: "string \<Rightarrow> (agent_task \<times> string) option" where
  "read_task s = do {
     s \<leftarrow> expect ''{\"name\":'' s; (n, s) \<leftarrow> read_text s;
     s \<leftarrow> expect '',\"prompt\":'' s; (p, s) \<leftarrow> read_text s;
     s \<leftarrow> expect ''}'' s; Some (\<lparr>at_name = n, at_prompt = p\<rparr>, s)
   }"

interpretation examples_item: json_item example_json read_example
    "\<lambda>(d, q). printable_lines d \<and> printable_lines q"
proof
  show "example_json x \<noteq> []" for x by (simp add: example_json_def split: prod.splits)
  show "read_example (example_json x @ rest) = Some (x, rest)"
    if "case x of (d, q) \<Rightarrow> printable_lines d \<and> printable_lines q" for x rest
    using that by (cases x) (simp add: example_json_def read_example_def read_text_json expect_def)
qed

interpretation columns_item: json_item column_json read_column
    "\<lambda>(n, t, d). printable_lines n \<and> printable_lines t \<and> printable_lines d"
proof
  show "column_json x \<noteq> []" for x by (simp add: column_json_def split: prod.splits)
  show "read_column (column_json x @ rest) = Some (x, rest)"
    if "case x of (n, t, d) \<Rightarrow> printable_lines n \<and> printable_lines t \<and> printable_lines d" for x rest
    using that by (cases x) (simp add: column_json_def read_column_def read_text_json expect_def)
qed

interpretation tasks_item: json_item agent_task_json read_task
    "\<lambda>t. printable_lines (at_name t) \<and> printable_lines (at_prompt t)"
proof
  show "agent_task_json x \<noteq> []" for x by (simp add: agent_task_json_def)
  show "read_task (agent_task_json x @ rest) = Some (x, rest)"
    if "printable_lines (at_name x) \<and> printable_lines (at_prompt x)" for x rest
    using that by (cases x) (simp add: agent_task_json_def read_task_def read_text_json expect_def)
qed

lemma printable_no_newline: "printable k \<Longrightarrow> newline \<notin> set k \<and> printable_lines k"
  by (auto simp: printable_def printable_lines_def list_all_iff)

interpretation keywords_item: json_item keyword_json read_text printable
proof
  show "keyword_json x \<noteq> []" for x by (simp add: keyword_json_def Let_def)
  show "read_text (keyword_json x @ rest) = Some (x, rest)" if "printable x" for x rest
    using printable_no_newline [OF that] by (simp add: keyword_json_text read_text_json)
qed

lemma str_split_parts: "p \<in> set (str_split sep s) \<Longrightarrow> set p \<subseteq> set s"
proof (induction s arbitrary: p)
  case (Cons ch s)
  then show ?case
    by (cases "str_split sep s") (auto split: if_splits, blast+)
qed simp

lemma trim_subset: "set (trim s) \<subseteq> set s"
  unfolding trim_def by (auto dest!: set_dropWhileD)

text \<open>
  The catalog texts are JSON: a strict reader gets back, from what the four encoders write,
  exactly the pairs, the triples, the tasks and the trimmed non-empty keywords they were given,
  in order, whatever quotes, backslashes and (except in keywords) newlines these contain; the
  other control characters are the one thing they must not contain.
\<close>

theorem json_roundtrip:
  assumes "list_all (\<lambda>(d, q). printable_lines d \<and> printable_lines q) examples"
    and "list_all (\<lambda>(n, t, d). printable_lines n \<and> printable_lines t \<and> printable_lines d) cols"
    and "list_all (\<lambda>t. printable_lines (at_name t) \<and> printable_lines (at_prompt t)) tasks"
    and "printable keywords"
  shows "read_array read_example (executable_examples_json examples) = Some examples \<and>
    read_array read_column (result_columns_schema_json cols) = Some cols \<and>
    read_array read_task (agent_test_tasks_json tasks) = Some tasks \<and>
    read_array read_text (keywords_json keywords) =
      Some (filter (\<lambda>k. k \<noteq> []) (map trim (str_split CHR '','' keywords)))"
proof -
  have "list_all printable (filter (\<lambda>k. k \<noteq> []) (map trim (str_split CHR '','' keywords)))"
    using assms(4) trim_subset str_split_parts [of _ "CHR '',''" "keywords"]
    by (fastforce simp: printable_def list_all_iff)
  then show ?thesis
    unfolding executable_examples_json_def result_columns_schema_json_def
      agent_test_tasks_json_def keywords_json_def
    using assms(1-3)
    by (intro conjI examples_item.read_array_print columns_item.read_array_print
        tasks_item.read_array_print keywords_item.read_array_print)
qed

theorem json_roundtrip_witness:
  "read_array read_example (executable_examples_json [(''a\"b'', [backslash, newline])]) =
     Some [(''a\"b'', [backslash, newline])] \<and>
   read_array read_text (keywords_json ''flow, ipfix ,,'') = Some [''flow'', ''ipfix'']"
  using json_roundtrip [of "[(''a\"b'', [backslash, newline])]" "[]" "[]" "''flow, ipfix ,,''"]
  by (simp add: printable_def printable_lines_def trim_def whitespace_def)

section \<open>Sample datagrams\<close>

definition SAMPLE_V5_HEX :: string where
  "SAMPLE_V5_HEX =
     ''00050002000186a06553f100000000000000000a000100000a0000010a0000020a0000fe00010002'' @
     ''0000000a000003e800015f900001731804d2005000180600fbf4fbf518180000c0a8010108080808'' @
     ''0a0000fe0001000200000002000000c800015f900001731814e900350000110000003b4118180000''"

definition SAMPLE_V9_HEX :: string where
  "SAMPLE_V9_HEX =
     ''00090002000186a06553f1000000001400000001000000240100000700080004000c000400070002'' @
     ''000b000200040001000200040001000401000019ac100001ac100002045700160600000003000000'' @
     ''b4''"

definition SAMPLE_IPFIX_HEX :: string where
  "SAMPLE_IPFIX_HEX =
     ''000a006d6553f100000000070000002a0002002c0100000900080004000c000400070002000b0002'' @
     ''000400010001000800020008009800080099000801000031cb007105c633640980e801bb06000000'' @
     ''000016e36000000000000004b00000018bcfe568000000018bcfe58f10''"

definition SAMPLE_SFLOW_HEX :: string where
  "SAMPLE_SFLOW_HEX =
     ''00000005000000010a0000090000000000000001000003e800000002000000010000004800000064'' @
     ''00000000000010000000000000000000000000050000000600000001000000030000002000000040'' @
     ''00000006c000020ac00002140000c738000000500000001800000000000000020000006c000000c8'' @
     ''00000000000000010000000100000058000000000000000000000000000000000000000000000000'' @
     ''00000000000000000000000000000000000000000000000000000000000000000000000000000000'' @
     ''000000000000000000''"

definition hex_text :: "bytes \<Rightarrow> string" where
  "hex_text bs = concat (map (\<lambda>b. [hex_digit (unat b div 16), hex_digit (unat b mod 16)]) bs)"

lemma hex_digits:
  "hex_digit 0 = CHR ''0''" "hex_digit (Suc 0) = CHR ''1''" "hex_digit 1 = CHR ''1''" "hex_digit 2 = CHR ''2''" "hex_digit 3 = CHR ''3''"
  "hex_digit 4 = CHR ''4''" "hex_digit 5 = CHR ''5''" "hex_digit 6 = CHR ''6''" "hex_digit 7 = CHR ''7''"
  "hex_digit 8 = CHR ''8''" "hex_digit 9 = CHR ''9''" "hex_digit 10 = CHR ''a''" "hex_digit 11 = CHR ''b''"
  "hex_digit 12 = CHR ''c''" "hex_digit 13 = CHR ''d''" "hex_digit 14 = CHR ''e''" "hex_digit 15 = CHR ''f''"
  by (simp_all add: hex_digit_def char_of_def bit_0)

lemma hex_text_simps [simp]:
  "hex_text [] = []"
  "hex_text (b # bs) = hex_digit (unat b div 16) # hex_digit (unat b mod 16) # hex_text bs"
  by (simp_all add: hex_text_def)

lemma sample_v5: "hex_text netflow_v5 = SAMPLE_V5_HEX"
  by (simp add: netflow_v5_bytes SAMPLE_V5_HEX_def hex_digits)

lemma sample_v9: "hex_text netflow_v9_combined = SAMPLE_V9_HEX"
  by (simp add: netflow_v9_combined_bytes SAMPLE_V9_HEX_def hex_digits)

lemma sample_ipfix: "hex_text ipfix_basic = SAMPLE_IPFIX_HEX"
  by (simp add: ipfix_basic_bytes SAMPLE_IPFIX_HEX_def hex_digits)

lemma hex_text_append: "hex_text (xs @ ys) = hex_text xs @ hex_text ys"
  by (simp add: hex_text_def)

lemma hex_text_zeros: "hex_text (replicate n 0) = replicate (2 * n) CHR ''0''"
  by (induction n) (simp_all add: hex_digits)

lemma sample_sflow: "hex_text (take 209 sflow_basic) = SAMPLE_SFLOW_HEX"
proof -
  have zeros: "replicate 146 CHR ''0'' = ''0000000000000000000000000000000000000000000000000000000000000000000000000'' @ ''0000000000000000000000000000000000000000000000000000000000000000000000000''"
    by (simp add: numeral_eq_Suc)
  have "take 209 sflow_basic = take 136 sflow_basic @ replicate 73 0" by (simp add: sflow_basic_bytes)
  then show ?thesis
    by (simp add: hex_text_append hex_text_zeros zeros)
      (simp add: sflow_basic_bytes SAMPLE_SFLOW_HEX_def hex_digits)
qed


lemma sflow_basic_parts:
  "length (take 136 sflow_basic) = 136"
  "take 4 (drop 28 (take 136 sflow_basic)) = [0, 0, 0, 1]" "take 4 (drop 32 (take 136 sflow_basic)) = [0, 0, 0, 72]"
  "take 4 (drop 108 (take 136 sflow_basic)) = [0, 0, 0, 2]" "take 4 (drop 112 (take 136 sflow_basic)) = [0, 0, 0, 108]"
  by (simp_all add: sflow_basic_bytes)

lemma sflow_basic_samples:
  assumes d: "d = take 136 sflow_basic @ zs"
  shows "map fr_diagnostics (samples_loop 2 (cur_advance 28 (cursor_new d)) e 0 1 False) =
    [None, Some (if 88 \<le> length zs then ''counter-sample'' else ''truncated'')]"
proof -
  have heads: "take 4 (drop 28 d) = [0, 0, 0, 1]" "take 4 (drop 32 d) = [0, 0, 0, 72]"
     "take 4 (drop 108 d) = [0, 0, 0, 2]" "take 4 (drop 112 d) = [0, 0, 0, 108]"
    using sflow_basic_parts by (simp_all add: d)
  have len: "length d = 136 + length zs" using sflow_basic_parts(1) by (simp add: d del: length_take)
  have vals: "from_be [0, 0, 0, 1] = (1::u32)" "from_be [0, 0, 0, 72] = (72::u32)"
     "from_be [0, 0, 0, 2] = (2::u32)" "from_be [0, 0, 0, 108] = (108::u32)"
    by (simp_all add: from_be_def be_nat_def)
  obtain row where row: "decode_flow_sample (take 72 (drop 36 d)) e 0 1 False = [row]"
    "fr_diagnostics row = None" using decode_flow_sample_diag by blast
  show ?thesis
    using row unfolding numeral_2_eq_2
    by (simp add: samples_loop_Suc heads vals len sample_rows_def
        decode_counter_sample_diag del: samples_loop.simps(2))
qed

lemma sflow_basic_decode:
  "map fr_diagnostics (sflow_decode (take 136 sflow_basic @ zs) ex False) =
    [None, Some (if 88 \<le> length zs then ''counter-sample'' else ''truncated'')]"
proof -
  let ?d = "take 136 sflow_basic @ zs"
  have agent: "sflow_agent ?d = Some (norm_ipv4 [10, 0, 0, 9], 12)"
    by (simp add: sflow_agent_def u32_at_def sflow_basic_bytes from_be_def be_nat_def)
  have n: "u32_at ?d 24 = 2" "u32_at ?d 12 = 0" "u32_at ?d 16 = 1"
    by (simp_all add: u32_at_def sflow_basic_bytes from_be_def be_nat_def)
  show ?thesis
    unfolding sflow_decode_eq agent using sflow_basic_samples [OF refl, of zs]
    by (simp add: n del: samples_loop.simps)
qed

text \<open>
  The sample datagrams embedded in the catalog are the golden fixtures, byte for byte,
  except the sFlow one: its text stops 15 bytes short of the fixture, so that its counter
  sample, which the fixture decodes to a row of its own, comes out as a \<open>truncated\<close> diagnostic.
\<close>

theorem catalog_samples:
  "SAMPLE_V5_HEX = hex_text netflow_v5 \<and>
   SAMPLE_V9_HEX = hex_text netflow_v9_combined \<and>
   SAMPLE_IPFIX_HEX = hex_text ipfix_basic \<and>
   SAMPLE_SFLOW_HEX = hex_text (take 209 sflow_basic) \<and> length sflow_basic = 224 \<and>
   map fr_diagnostics (sflow_decode sflow_basic ex False) = [None, Some ''counter-sample''] \<and>
   map fr_diagnostics (sflow_decode (take 209 sflow_basic) ex False) = [None, Some ''truncated'']"
proof -
  have len: "length sflow_basic = 224" by (simp add: sflow_basic_bytes)
  have "take 209 sflow_basic = take 136 sflow_basic @ take 73 (drop 136 sflow_basic)"
    using take_add [of 136 73 sflow_basic] by simp
  then have "map fr_diagnostics (sflow_decode (take 209 sflow_basic) ex False) = [None, Some ''truncated'']"
    using sflow_basic_decode [of "take 73 (drop 136 sflow_basic)" ex] len by simp
  moreover have "map fr_diagnostics (sflow_decode sflow_basic ex False) = [None, Some ''counter-sample'']"
    using sflow_basic_decode [of "drop 136 sflow_basic" ex] len by simp
  ultimately show ?thesis
    using len by (simp only: sample_v5 sample_v9 sample_ipfix sample_sflow simp_thms)
qed

end
