(* ===== verification/Result_Columns.thy ===== *)
theory Result_Columns
  imports Templates Meta
begin

text \<open>
  The declared result columns: the tables of names, DuckDB types and descriptions that the
  catalog publishes for the decode functions (\<open>flow_result_columns\<close>) and for \<open>templates()\<close>, and
  their agreement with the Arrow schemas the functions emit.
\<close>

section \<open>The published tables\<close>

definition INET_STRUCT :: string where
  "INET_STRUCT = ''STRUCT(ip_type UTINYINT, address HUGEINT, mask USMALLINT)''"

definition flow_result_columns :: "(string \<times> string \<times> string) list" where
  "flow_result_columns =
     [
      (''exporter'', ''VARCHAR'',
        ''Cache key / source device (as supplied via the exporter column or derived).''),
      (''flow_version'', ''VARCHAR'',
        ''Wire format of the source datagram: '5', '9', '10' (IPFIX), or 'sflow5'.''),
      (''obs_domain'', ''UINTEGER'',
        ''v9 source-id / IPFIX observation domain (the template-id namespace).''),
      (''template_id'', ''USMALLINT'',
        ''v9/IPFIX template id the record decoded against; NULL for v5 / sFlow.''),
      (''export_time'', ''TIMESTAMP WITH TIME ZONE'',
        ''Datagram export time taken from the export header.''),
      (''sequence'', ''UBIGINT'',
        ''Export sequence number (used for gap / loss detection).''),
      (''src_addr'', INET_STRUCT,
        ''Source IP; cast ::INET for `<<=` containment joins.''),
      (''dst_addr'', INET_STRUCT,
        ''Destination IP; cast ::INET for `<<=` containment joins.''),
      (''src_port'', ''USMALLINT'',
        ''Layer-4 source port.''),
      (''dst_port'', ''USMALLINT'',
        ''Layer-4 destination port.''),
      (''protocol'', ''UTINYINT'',
        ''IP protocol number (6 = TCP, 17 = UDP, ...).''),
      (''tcp_flags'', ''UTINYINT'',
        ''Cumulative TCP control flags observed for the flow.''),
      (''bytes'', ''UBIGINT'',
        ''Octet count (for sFlow, scaled by the sampling rate).''),
      (''packets'', ''UBIGINT'',
        ''Packet count (for sFlow, the sampling rate).''),
      (''flow_start'', ''TIMESTAMP WITH TIME ZONE'',
        ''Flow start time, resolved to an absolute timestamp.''),
      (''flow_end'', ''TIMESTAMP WITH TIME ZONE'',
        ''Flow end time, resolved to an absolute timestamp.''),
      (''src_as'', ''UINTEGER'',
        ''Origin autonomous-system number (when the exporter reports it).''),
      (''dst_as'', ''UINTEGER'',
        ''Peer autonomous-system number (when the exporter reports it).''),
      (''input_snmp'', ''UINTEGER'',
        ''Ingress interface ifIndex.''),
      (''output_snmp'', ''UINTEGER'',
        ''Egress interface ifIndex.''),
      (''next_hop'', INET_STRUCT,
        ''BGP / IP next hop; cast ::INET to use it.''),
      (''tos'', ''UTINYINT'',
        ''IP type-of-service / DSCP byte.''),
      (''src_mask'', ''UTINYINT'',
        ''Source prefix length in bits (v5 / v9).''),
      (''dst_mask'', ''UTINYINT'',
        ''Destination prefix length in bits (v5 / v9).''),
      (''sampling_rate'', ''UINTEGER'',
        ''sFlow sampling N / IPFIX samplingInterval; NULL when none.''),
      (''direction'', ''UTINYINT'',
        ''flowDirection (0 = ingress, 1 = egress) when present.''),
      (''raw_fields'', ''MAP(VARCHAR, BLOB)'',
        ''Every Information Element not mapped to a named column, keyed by IE name -> raw bytes.''),
      (''diagnostics'', ''VARCHAR'',
        ''NULL on a clean decode; else missing-template / truncated / decode-error / ...'')
     ]"

definition templates_result_columns :: "(string \<times> string \<times> string) list" where
  "templates_result_columns =
     [
      (''exporter'',
        ''VARCHAR'',
        ''Source device the template was learned from.''),
      (''obs_domain'',
        ''UINTEGER'',
        ''Observation domain (v9 source-id / IPFIX) the template id is scoped to.''),
      (''template_id'',
        ''USMALLINT'',
        ''The template id a Data Set references.''),
      (''kind'',
        ''VARCHAR'',
        ([CHR 0x27] @ ''data' for a data template or 'options' for an options template.'')),
      (''field_count'',
        ''UINTEGER'',
        ''Number of field specifiers in the template.''),
      (''fields'',
        (''STRUCT(ie_id USMALLINT, enterprise UINTEGER, length USMALLINT, '' @ [CHR 0x22] @ ''name'' @ [CHR 0x22] @ '' VARCHAR, ie_type VARCHAR)[]''),
        ''The ordered field specifiers (ie_id, enterprise PEN, length, IE name, IE type).''),
      (''scope_field_count'',
        ''USMALLINT'',
        ''Leading scope fields on an options template; 0 for a data template.''),
      (''first_seen'',
        ''TIMESTAMP WITH TIME ZONE'',
        ''When this template id was first seen.''),
      (''last_seen'',
        ''TIMESTAMP WITH TIME ZONE'',
        ''When this template was most recently seen / used.''),
      (''use_count'',
        ''UBIGINT'',
        ''How many data records have been decoded against it.'')
     ]"

section \<open>The DuckDB type of an Arrow field\<close>

text \<open>
  The correspondence the header of \<open>arrow_map.rs\<close> states: unsigned integers to the \<open>U\<close> types, UTC
  timestamps to \<open>TIMESTAMP WITH TIME ZONE\<close>, structs, maps and lists to theirs, and a 16-byte
  binary marked as a \<open>hugeint\<close> to \<open>HUGEINT\<close>.  \<open>ident\<close> is how DuckDB writes a field name in a type.
\<close>

fun commas :: "string list \<Rightarrow> string" where
  "commas [] = []"
| "commas [x] = x"
| "commas (x # y # xs) = x @ '', '' @ commas (y # xs)"

fun duck_type :: "(string \<Rightarrow> string) \<Rightarrow> data_type \<Rightarrow> string" and
  duck_field :: "(string \<Rightarrow> string) \<Rightarrow> arrow_field \<Rightarrow> string" where
  "duck_type ident DtBoolean = ''BOOLEAN''"
| "duck_type ident DtUtf8 = ''VARCHAR''"
| "duck_type ident DtLargeUtf8 = ''VARCHAR''"
| "duck_type ident DtBinary = ''BLOB''"
| "duck_type ident DtLargeBinary = ''BLOB''"
| "duck_type ident DtUInt8 = ''UTINYINT''"
| "duck_type ident DtUInt16 = ''USMALLINT''"
| "duck_type ident DtUInt32 = ''UINTEGER''"
| "duck_type ident DtUInt64 = ''UBIGINT''"
| "duck_type ident DtInt8 = ''TINYINT''"
| "duck_type ident DtInt16 = ''SMALLINT''"
| "duck_type ident DtInt32 = ''INTEGER''"
| "duck_type ident DtInt64 = ''BIGINT''"
| "duck_type ident (DtTimestampMicros tz) = ''TIMESTAMP WITH TIME ZONE''"
| "duck_type ident (DtFixedSizeBinary n) = ''BLOB''"
| "duck_type ident (DtStruct fs) =
     ''STRUCT('' @ commas (map (\<lambda>f. ident (field_name f) @ '' '' @ duck_field ident f) fs) @ '')''"
| "duck_type ident (DtList f) = duck_field ident f @ ''[]''"
| "duck_type ident (DtMap f ordered) =
     ''MAP('' @ (case f of
         Field _ (DtStruct [k, v]) _ _ \<Rightarrow> duck_field ident k @ '', '' @ duck_field ident v
       | _ \<Rightarrow> []) @ '')''"
| "duck_field ident (Field name t nullable metadata) =
     (if (''ARROW:extension:name'', ''arrow.opaque'') \<in> set metadata then ''HUGEINT'' else duck_type ident t)"

section \<open>Agreement\<close>

text \<open>
  The published columns are the emitted ones.  For the decode functions and for
  \<open>templates()\<close> alike, the table in the catalog lists the columns of the Arrow schema the function
  emits, in the same order, with the same names and with the DuckDB types those Arrow types
  become.  (DuckDB quotes \<open>name\<close> in a type, being a keyword, and none of the other field names.)
\<close>

theorem schemas_in_lockstep:
  "(let ident = (\<lambda>s. if s = ''name'' then [dquote] @ s @ [dquote] else s)
    in map (\<lambda>f. (field_name f, duck_field ident f)) flow_schema =
         map (\<lambda>(n, t, d). (n, t)) flow_result_columns \<and>
       map (\<lambda>f. (field_name f, duck_field ident f)) output_schema =
         map (\<lambda>(n, t, d). (n, t)) templates_result_columns)"
  unfolding Let_def
proof
  show "map (\<lambda>f. (field_name f, duck_field (\<lambda>s. if s = ''name'' then [dquote] @ s @ [dquote] else s) f)) flow_schema =
      map (\<lambda>(n, t, d). (n, t)) flow_result_columns"
    by (simp add: flow_schema_def flow_result_columns_def col_def ts_def inet_type_def inet_child_fields_def
        hugeint_metadata_def raw_fields_type_def map_entries_field_def field_new_def INET_STRUCT_def)
  show "map (\<lambda>f. (field_name f, duck_field (\<lambda>s. if s = ''name'' then [dquote] @ s @ [dquote] else s) f)) output_schema =
      map (\<lambda>(n, t, d). (n, t)) templates_result_columns"
    by (simp add: output_schema_def templates_result_columns_def col_def ts_def fields_list_type_def
        field_struct_fields_def field_new_def)
qed

end
