(* ===== verification/Scalars.thy ===== *)
theory Scalars
  imports Input_Relation Wellformed
begin

text \<open>
  The scalar functions \<open>flow_version\<close>, \<open>header\<close> and \<open>well_formed\<close> (\<open>scalar/*.rs\<close>): each maps the
  datagram column of a batch to one result column, a row at a time, through Arrow builders.
\<close>

section \<open>The loop over the rows\<close>

text \<open>
  \<open>for row in 0..batch.num_rows() { match blob_bytes(col, row)? { .. } }\<close>: what a row appends to the
  builders is the function's own; the first cell that is not binary ends the call with its error.
\<close>

fun rows_loop ::
  "(nat \<Rightarrow> string + bytes option) \<Rightarrow> (bytes option \<Rightarrow> 'b \<Rightarrow> 'b) \<Rightarrow> nat list \<Rightarrow> 'b \<Rightarrow> string + 'b" where
  "rows_loop blob append_row [] b = Inr b"
| "rows_loop blob append_row (row # rows) b =
     (case blob row of
        Inl e \<Rightarrow> Inl e
      | Inr v \<Rightarrow> rows_loop blob append_row rows (append_row v b))"

section \<open>\<open>flow_version\<close>\<close>

definition append_version :: "bytes option \<Rightarrow> cell list \<Rightarrow> cell list" where
  "append_version v b =
     (case v of
        Some bs \<Rightarrow>
          (case probe_version bs of
             Some ver \<Rightarrow> b @ [CText ver]
           | None \<Rightarrow> b @ [CNull])
      | None \<Rightarrow> b @ [CNull])"

definition flow_version_process ::
  "(data_type \<Rightarrow> string) \<Rightarrow> (arrow_field list \<Rightarrow> arrow_array list \<Rightarrow> string option) \<Rightarrow> arrow_field list \<Rightarrow>
   record_batch \<Rightarrow> string + record_batch" where
  "flow_version_process debug try_new schema batch =
     (case rows_loop (blob_bytes debug (rb_columns batch ! 0)) append_version [0..<batch_len batch] [] of
        Inl e \<Rightarrow> Inl e
      | Inr b \<Rightarrow>
          (case finish_bytes DtUtf8 b of Inl e \<Rightarrow> Inl e | Inr arr \<Rightarrow> make_batch try_new schema [arr]))"

section \<open>\<open>header\<close>\<close>

definition header_struct_fields :: "arrow_field list" where
  "header_struct_fields =
     [field_new ''version'' DtUInt16 True, field_new ''count'' DtUInt16 True,
      field_new ''sys_uptime'' DtUInt32 True, field_new ''export_time'' (DtTimestampMicros ''UTC'') True,
      field_new ''sequence'' DtUInt64 True, field_new ''obs_domain'' DtUInt32 True]"

record header_builders =
  hb_version :: "cell list"
  hb_count :: "cell list"
  hb_sys_uptime :: "cell list"
  hb_export_time :: "cell list"
  hb_sequence :: "cell list"
  hb_obs_domain :: "cell list"
  hb_validity :: "bool list"

definition append_header :: "bytes option \<Rightarrow> header_builders \<Rightarrow> header_builders" where
  "append_header v b =
     (let hdr = (case v of Some bs \<Rightarrow> parse_header bs | None \<Rightarrow> None)
      in case hdr of
           Some h \<Rightarrow>
             b\<lparr>hb_version := hb_version b @ [word_cell (eh_version h)],
               hb_count := hb_count b @ [opt_cell word_cell (eh_count h)],
               hb_sys_uptime := hb_sys_uptime b @ [opt_cell word_cell (eh_sys_uptime h)],
               hb_export_time := hb_export_time b @ [opt_cell time_cell (eh_export_time h)],
               hb_sequence := hb_sequence b @ [opt_cell word_cell (eh_sequence h)],
               hb_obs_domain := hb_obs_domain b @ [opt_cell word_cell (eh_obs_domain h)],
               hb_validity := hb_validity b @ [True]\<rparr>
         | None \<Rightarrow>
             b\<lparr>hb_version := hb_version b @ [CNull], hb_count := hb_count b @ [CNull],
               hb_sys_uptime := hb_sys_uptime b @ [CNull], hb_export_time := hb_export_time b @ [CNull],
               hb_sequence := hb_sequence b @ [CNull], hb_obs_domain := hb_obs_domain b @ [CNull],
               hb_validity := hb_validity b @ [False]\<rparr>)"

definition header_array :: "header_builders \<Rightarrow> arrow_array" where
  "header_array b =
     StructArray header_struct_fields
       [Flat DtUInt16 (hb_version b), Flat DtUInt16 (hb_count b), Flat DtUInt32 (hb_sys_uptime b),
        Flat (DtTimestampMicros ''UTC'') (hb_export_time b), Flat DtUInt64 (hb_sequence b),
        Flat DtUInt32 (hb_obs_domain b)] (Some (hb_validity b))"

definition header_process ::
  "(data_type \<Rightarrow> string) \<Rightarrow> (arrow_field list \<Rightarrow> arrow_array list \<Rightarrow> string option) \<Rightarrow> arrow_field list \<Rightarrow>
   record_batch \<Rightarrow> string + record_batch" where
  "header_process debug try_new schema batch =
     (case rows_loop (blob_bytes debug (rb_columns batch ! 0)) append_header [0..<batch_len batch]
             \<lparr>hb_version = [], hb_count = [], hb_sys_uptime = [], hb_export_time = [], hb_sequence = [],
              hb_obs_domain = [], hb_validity = []\<rparr> of
        Inl e \<Rightarrow> Inl e
      | Inr b \<Rightarrow> make_batch try_new schema [header_array b])"

section \<open>\<open>well_formed\<close>\<close>

definition well_formed_struct_fields :: "arrow_field list" where
  "well_formed_struct_fields =
     [field_new ''ok'' DtBoolean True, field_new ''version'' DtUtf8 True,
      field_new ''error'' DtUtf8 True, field_new ''kind'' DtUtf8 True]"

record well_formed_builders =
  wb_ok :: "cell list"
  wb_version :: "cell list"
  wb_error :: "cell list"
  wb_kind :: "cell list"
  wb_validity :: "bool list"

definition append_well_formed :: "bytes option \<Rightarrow> well_formed_builders \<Rightarrow> well_formed_builders" where
  "append_well_formed v b =
     (case v of
        Some bs \<Rightarrow>
          let w = well_formed bs
          in b\<lparr>wb_ok := wb_ok b @ [CBool (wf_ok w)],
               wb_version := wb_version b @ [opt_cell CText (wf_version w)],
               wb_error := wb_error b @ [opt_cell CText (wf_error w)],
               wb_kind := wb_kind b @ [opt_cell CText (wf_kind w)],
               wb_validity := wb_validity b @ [True]\<rparr>
      | None \<Rightarrow>
          b\<lparr>wb_ok := wb_ok b @ [CNull], wb_version := wb_version b @ [CNull],
            wb_error := wb_error b @ [CNull], wb_kind := wb_kind b @ [CNull],
            wb_validity := wb_validity b @ [False]\<rparr>)"

definition well_formed_array :: "well_formed_builders \<Rightarrow> string + arrow_array" where
  "well_formed_array b =
     (case finish_bytes DtUtf8 (wb_version b) of Inl e \<Rightarrow> Inl e | Inr versions \<Rightarrow>
      case finish_bytes DtUtf8 (wb_error b) of Inl e \<Rightarrow> Inl e | Inr errors \<Rightarrow>
      case finish_bytes DtUtf8 (wb_kind b) of Inl e \<Rightarrow> Inl e | Inr kinds \<Rightarrow>
      Inr (StructArray well_formed_struct_fields
             [Flat DtBoolean (wb_ok b), versions, errors, kinds] (Some (wb_validity b))))"

definition well_formed_process ::
  "(data_type \<Rightarrow> string) \<Rightarrow> (arrow_field list \<Rightarrow> arrow_array list \<Rightarrow> string option) \<Rightarrow> arrow_field list \<Rightarrow>
   record_batch \<Rightarrow> string + record_batch" where
  "well_formed_process debug try_new schema batch =
     (case rows_loop (blob_bytes debug (rb_columns batch ! 0)) append_well_formed [0..<batch_len batch]
             \<lparr>wb_ok = [], wb_version = [], wb_error = [], wb_kind = [], wb_validity = []\<rparr> of
        Inl e \<Rightarrow> Inl e
      | Inr b \<Rightarrow>
          (case well_formed_array b of Inl e \<Rightarrow> Inl e | Inr arr \<Rightarrow> make_batch try_new schema [arr]))"

section \<open>The result of a row\<close>

definition version_result :: "bytes \<Rightarrow> cell" where
  "version_result bs = opt_cell CText (probe_version bs)"

definition header_cell :: "export_header \<Rightarrow> cell" where
  "header_cell h = CStruct
     [word_cell (eh_version h), opt_cell word_cell (eh_count h), opt_cell word_cell (eh_sys_uptime h),
      opt_cell time_cell (eh_export_time h), opt_cell word_cell (eh_sequence h),
      opt_cell word_cell (eh_obs_domain h)]"

definition header_result :: "bytes \<Rightarrow> cell" where
  "header_result bs = opt_cell header_cell (parse_header bs)"

definition well_formed_cell :: "well_formed_result \<Rightarrow> cell" where
  "well_formed_cell w = CStruct
     [CBool (wf_ok w), opt_cell CText (wf_version w), opt_cell CText (wf_error w), opt_cell CText (wf_kind w)]"

definition well_formed_result_cell :: "bytes \<Rightarrow> cell" where
  "well_formed_result_cell bs = well_formed_cell (well_formed bs)"

text \<open>The datagrams of a column that is readable, i.e. binary or all null.\<close>

definition datagrams :: "(data_type \<Rightarrow> string) \<Rightarrow> record_batch \<Rightarrow> bytes option list \<Rightarrow> bool" where
  "datagrams debug batch vs \<longleftrightarrow>
     map (blob_bytes debug (rb_columns batch ! 0)) [0..<batch_len batch] = map Inr vs"

lemma rows_loop_all:
  "map blob rows = map Inr vs \<Longrightarrow> rows_loop blob f rows b = Inr (fold f vs b)"
  by (induction rows arbitrary: vs b) auto

lemma rows_loop_error:
  "rows_loop blob f rows b = Inl e \<Longrightarrow> \<exists>r \<in> set rows. blob r = Inl e"
  by (induction rows arbitrary: b) (auto split: sum.splits)

lemma rows_loop_readable:
  "\<exists>r \<in> set rows. \<exists>e. blob r = Inl e \<Longrightarrow> \<exists>e. rows_loop blob f rows b = Inl e"
  by (induction rows arbitrary: b) (auto split: sum.splits)

lemma fold_append_version: "fold append_version vs b = b @ map (\<lambda>v. opt_cell version_result v) vs"
  by (induction vs arbitrary: b)
    (auto simp: append_version_def version_result_def split: option.splits)

lemma fold_append_header:
  "fold append_header vs b =
     (let hs = map (\<lambda>v. Option.bind v parse_header) vs in
      b\<lparr>hb_version := hb_version b @ map (opt_cell (word_cell \<circ> eh_version)) hs,
        hb_count := hb_count b @ map (opt_cell (opt_cell word_cell \<circ> eh_count)) hs,
        hb_sys_uptime := hb_sys_uptime b @ map (opt_cell (opt_cell word_cell \<circ> eh_sys_uptime)) hs,
        hb_export_time := hb_export_time b @ map (opt_cell (opt_cell time_cell \<circ> eh_export_time)) hs,
        hb_sequence := hb_sequence b @ map (opt_cell (opt_cell word_cell \<circ> eh_sequence)) hs,
        hb_obs_domain := hb_obs_domain b @ map (opt_cell (opt_cell word_cell \<circ> eh_obs_domain)) hs,
        hb_validity := hb_validity b @ map (\<lambda>h. h \<noteq> None) hs\<rparr>)"
proof (induction vs arbitrary: b)
  case (Cons v vs)
  show ?case
    unfolding fold_Cons o_apply Cons
    by (cases v; cases "Option.bind v parse_header") (simp_all add: append_header_def Let_def)
qed simp

lemma fold_append_well_formed:
  "fold append_well_formed vs b =
     b\<lparr>wb_ok := wb_ok b @ map (opt_cell (\<lambda>bs. CBool (wf_ok (well_formed bs)))) vs,
       wb_version := wb_version b @ map (opt_cell (\<lambda>bs. opt_cell CText (wf_version (well_formed bs)))) vs,
       wb_error := wb_error b @ map (opt_cell (\<lambda>bs. opt_cell CText (wf_error (well_formed bs)))) vs,
       wb_kind := wb_kind b @ map (opt_cell (\<lambda>bs. opt_cell CText (wf_kind (well_formed bs)))) vs,
       wb_validity := wb_validity b @ map (\<lambda>v. v \<noteq> None) vs\<rparr>"
  by (induction vs arbitrary: b) (auto simp: append_well_formed_def Let_def split: option.splits)

section \<open>Properties\<close>

lemma batch_rows_one:
  "batch_rows \<lparr>rb_schema = s, rb_columns = [a]\<rparr> = map (\<lambda>i. [array_cell a i]) [0..<array_len a]"
  by (simp add: batch_rows_def batch_len_def)

lemma batch_rows_one_eq:
  assumes "array_len a = length vs" and "\<And>i. i < length vs \<Longrightarrow> array_cell a i = opt_cell f (vs ! i)"
  shows "batch_rows \<lparr>rb_schema = s, rb_columns = [a]\<rparr> = map (\<lambda>v. [opt_cell f v]) vs"
  using assms by (auto simp: batch_rows_one intro: nth_equalityI)

lemma single_column:
  assumes "try_new_laws try_new" and "array_valid a" and "array_type a = t"
  shows "make_batch try_new [Field n t True m] [a] = Inr \<lparr>rb_schema = [Field n t True m], rb_columns = [a]\<rparr>"
  using assms by (simp add: make_batch_def try_new_laws_def batch_fits_def)

text \<open>
  What the three functions have in common: a loop that appends to builders and a column made of
  them, with one valid cell per row that depends on that row alone.  The texts of a row are at most
  64 bytes long, so a column of fewer than \<open>2 ^ 25\<close> rows keeps its 32-bit byte offsets.
\<close>

locale scalar_function =
  fixes append_row :: "bytes option \<Rightarrow> 'b \<Rightarrow> 'b"
    and start :: 'b
    and column :: "'b \<Rightarrow> string + arrow_array"
    and ty :: data_type
    and result :: "bytes \<Rightarrow> cell"
  assumes column_made: "length vs < 2 ^ 25 \<Longrightarrow>
    \<exists>arr. column (fold append_row vs start) = Inr arr \<and> array_type arr = ty \<and> array_len arr = length vs \<and>
      array_valid arr \<and> (\<forall>i < length vs. array_cell arr i = opt_cell result (vs ! i))"
begin

definition call ::
  "(data_type \<Rightarrow> string) \<Rightarrow> (arrow_field list \<Rightarrow> arrow_array list \<Rightarrow> string option) \<Rightarrow> arrow_field list \<Rightarrow>
   record_batch \<Rightarrow> string + record_batch" where
  "call debug try_new schema batch =
     (case rows_loop (blob_bytes debug (rb_columns batch ! 0)) append_row [0..<batch_len batch] start of
        Inl e \<Rightarrow> Inl e
      | Inr b \<Rightarrow> (case column b of Inl e \<Rightarrow> Inl e | Inr arr \<Rightarrow> make_batch try_new schema [arr]))"

lemma rowwise:
  assumes "try_new_laws try_new" and "datagrams debug batch vs" and "length vs < 2 ^ 25"
  shows "\<exists>b. call debug try_new [Field n ty True m] batch = Inr b \<and>
    batch_rows b = map (\<lambda>v. [opt_cell result v]) vs"
proof -
  obtain arr where arr: "column (fold append_row vs start) = Inr arr" "array_type arr = ty"
      "array_len arr = length vs" "array_valid arr" "\<forall>i < length vs. array_cell arr i = opt_cell result (vs ! i)"
    using column_made [OF assms(3)] by blast
  then show ?thesis
    using rows_loop_all [OF assms(2) [unfolded datagrams_def], of append_row start]
      single_column [OF assms(1) arr(4,2)] batch_rows_one_eq [OF arr(3)]
    by (simp add: call_def)
qed

lemma unreadable:
  assumes "\<exists>r < batch_len batch. \<exists>e. blob_bytes debug (rb_columns batch ! 0) r = Inl e"
  shows "\<exists>e. call debug try_new schema batch = Inl e"
proof -
  have "\<exists>e. rows_loop (blob_bytes debug (rb_columns batch ! 0)) append_row [0..<batch_len batch] start = Inl e"
    using assms by (intro rows_loop_readable) auto
  then show ?thesis by (auto simp: call_def)
qed

end

definition header_start :: header_builders where
  "header_start =
     \<lparr>hb_version = [], hb_count = [], hb_sys_uptime = [], hb_export_time = [], hb_sequence = [],
      hb_obs_domain = [], hb_validity = []\<rparr>"

definition well_formed_start :: well_formed_builders where
  "well_formed_start = \<lparr>wb_ok = [], wb_version = [], wb_error = [], wb_kind = [], wb_validity = []\<rparr>"

lemma bool_fits: "cell_fits DtBoolean (opt_cell (\<lambda>x. CBool (f x)) v)"
  by (cases v) simp_all

lemma text_fits: "cell_fits DtUtf8 (opt_cell (\<lambda>x. opt_cell CText (f x)) v)"
  by (cases v) simp_all

lemma short_cells:
  assumes "\<forall>c \<in> set cells. byte_size c \<le> 64" and "length cells < 2 ^ 25"
  shows "byte_total cells < 2 ^ 31"
proof -
  have "byte_total cells \<le> 64 * length cells"
    using assms(1) by (induction cells) (auto simp: byte_total_def)
  then show ?thesis using assms(2) by simp
qed

definition short_texts :: "well_formed_result \<Rightarrow> bool" where
  "short_texts w \<longleftrightarrow> (\<forall>t \<in> {wf_version w, wf_error w, wf_kind w}. byte_size (opt_cell CText t) \<le> 64)"

lemma validate_sets_texts:
  "length v \<le> 64 \<Longrightarrow> length k \<le> 64 \<Longrightarrow> short_texts (validate_sets region v k)"
proof (induction region v k rule: validate_sets.induct)
  case (1 region v k)
  then show ?case
    by (subst validate_sets.simps) (simp add: short_texts_def well_formed_ok_def well_formed_bad_def Let_def)
qed

lemma well_formed_texts: "short_texts (well_formed bs)"
proof -
  have "short_texts (validate_v5 bs)" "short_texts (validate_sflow bs)"
    by (simp_all add: validate_v5_def validate_sflow_def short_texts_def well_formed_ok_def well_formed_bad_def
        Let_def split: option.split)
  moreover have "short_texts (validate_v9 bs)"
    using validate_sets_texts [of "''9''" "''set-length-overrun''"]
    by (simp add: validate_v9_def short_texts_def well_formed_bad_def Let_def)
  moreover have "short_texts (validate_ipfix bs)"
    using validate_sets_texts [of "''10''" "''bad-ipfix-set''"]
    by (simp add: validate_ipfix_def short_texts_def well_formed_bad_def Let_def)
  moreover have "short_texts (well_formed_bad None ''leading bytes match no known flow header'' ''not-a-flow-datagram'')"
    "short_texts (well_formed_bad None ''unknown version'' ''bad-version'')"
    by (simp_all add: short_texts_def well_formed_bad_def)
  ultimately show ?thesis by (simp add: well_formed_def split: option.split)
qed

lemma version_text: "byte_size (version_result bs) \<le> 64"
  by (simp add: version_result_def probe_version_eq Let_def)

interpretation version_fn: scalar_function append_version "[]" "finish_bytes DtUtf8" DtUtf8 version_result
proof
  fix vs :: "bytes option list"
  assume "length vs < 2 ^ 25"
  moreover have "byte_size (opt_cell version_result v) \<le> 64" for v
    using version_text by (cases v) simp_all
  ultimately have "byte_total (map (opt_cell version_result) vs) < 2 ^ 31"
    by (intro short_cells) auto
  then show "\<exists>arr. finish_bytes DtUtf8 (fold append_version vs []) = Inr arr \<and> array_type arr = DtUtf8 \<and>
      array_len arr = length vs \<and> array_valid arr \<and>
      (\<forall>i < length vs. array_cell arr i = opt_cell version_result (vs ! i))"
    by (auto simp: fold_append_version list_all_iff version_result_def split: option.splits)
qed

interpretation header_fn: scalar_function append_header header_start "\<lambda>b. Inr (header_array b)"
    "DtStruct header_struct_fields" header_result
proof
  fix vs :: "bytes option list"
  let ?arr = "header_array (fold append_header vs header_start)"
  have "array_cell ?arr i = opt_cell header_result (vs ! i)" if "i < length vs" for i
    using that by (cases "vs ! i")
      (auto simp: header_start_def header_array_def fold_append_header Let_def header_result_def header_cell_def)
  moreover have "array_type ?arr = DtStruct header_struct_fields" "array_len ?arr = length vs" "array_valid ?arr"
    by (auto simp: header_start_def header_array_def fold_append_header Let_def header_struct_fields_def list_all_iff)
  ultimately show "\<exists>arr. Inr ?arr = (Inr arr :: string + arrow_array) \<and>
      array_type arr = DtStruct header_struct_fields \<and> array_len arr = length vs \<and>
      array_valid arr \<and> (\<forall>i < length vs. array_cell arr i = opt_cell header_result (vs ! i))"
    by simp
qed

definition verdict_array :: "bytes option list \<Rightarrow> arrow_array" where
  "verdict_array vs = StructArray well_formed_struct_fields
     [Flat DtBoolean (map (opt_cell (\<lambda>bs. CBool (wf_ok (well_formed bs)))) vs),
      Flat DtUtf8 (map (opt_cell (\<lambda>bs. opt_cell CText (wf_version (well_formed bs)))) vs),
      Flat DtUtf8 (map (opt_cell (\<lambda>bs. opt_cell CText (wf_error (well_formed bs)))) vs),
      Flat DtUtf8 (map (opt_cell (\<lambda>bs. opt_cell CText (wf_kind (well_formed bs)))) vs)]
     (Some (map (\<lambda>v. v \<noteq> None) vs))"

lemma verdict_array_made:
  assumes "length vs < 2 ^ 25"
  shows "well_formed_array (fold append_well_formed vs well_formed_start) = Inr (verdict_array vs)"
proof -
  have "byte_size (opt_cell (\<lambda>bs. opt_cell CText (f (well_formed bs))) v) \<le> 64"
    if "f \<in> {wf_version, wf_error, wf_kind}" for f :: "well_formed_result \<Rightarrow> string option" and v
    using that well_formed_texts by (cases v) (auto simp: short_texts_def)
  then have "byte_total (map (opt_cell (\<lambda>bs. opt_cell CText (f (well_formed bs)))) vs) < 2 ^ 31"
    if "f \<in> {wf_version, wf_error, wf_kind}" for f :: "well_formed_result \<Rightarrow> string option"
    using that assms by (intro short_cells) auto
  then show ?thesis
    by (simp add: well_formed_array_def verdict_array_def well_formed_start_def fold_append_well_formed
        finish_bytes_ok del: finish_bytes_Inr)
qed

interpretation well_formed_fn: scalar_function append_well_formed well_formed_start well_formed_array
    "DtStruct well_formed_struct_fields" well_formed_result_cell
proof
  fix vs :: "bytes option list"
  assume "length vs < 2 ^ 25"
  note made = verdict_array_made [OF this]
  have "array_cell (verdict_array vs) i = opt_cell well_formed_result_cell (vs ! i)" if "i < length vs" for i
    using that by (cases "vs ! i") (auto simp: verdict_array_def well_formed_result_cell_def well_formed_cell_def)
  moreover have "array_type (verdict_array vs) = DtStruct well_formed_struct_fields"
    "array_len (verdict_array vs) = length vs" "array_valid (verdict_array vs)"
    by (auto simp: verdict_array_def well_formed_struct_fields_def list_all_iff bool_fits text_fits)
  ultimately show "\<exists>arr. well_formed_array (fold append_well_formed vs well_formed_start) = Inr arr \<and>
      array_type arr = DtStruct well_formed_struct_fields \<and> array_len arr = length vs \<and>
      array_valid arr \<and> (\<forall>i < length vs. array_cell arr i = opt_cell well_formed_result_cell (vs ! i))"
    by (simp add: made)
qed

lemma scalar_calls:
  "version_fn.call = flow_version_process" "header_fn.call = header_process"
  "well_formed_fn.call = well_formed_process"
  unfolding fun_eq_iff version_fn.call_def header_fn.call_def well_formed_fn.call_def
  by (simp_all add: flow_version_process_def header_process_def well_formed_process_def
      header_start_def well_formed_start_def cong: sum.case_cong)

text \<open>
  C38. The scalar functions work row by row.  On a column of datagrams each of the three returns
  one row per input row, in order: NULL for a NULL, and otherwise the probed version (or NULL), the
  parsed header as a struct (or NULL), the verdict as a struct.  (A batch has fewer than \<open>2 ^ 25\<close>
  rows, so that the bytes of its texts fit 32-bit offsets; Arrow accepts columns that fit the schema.)
\<close>

theorem scalars_rowwise:
  assumes "try_new_laws try_new" and "datagrams debug batch vs" and "length vs < 2 ^ 25"
  shows "(\<exists>b. flow_version_process debug try_new [Field n DtUtf8 True m] batch = Inr b \<and>
      batch_rows b = map (\<lambda>v. [opt_cell version_result v]) vs) \<and>
    (\<exists>b. header_process debug try_new [Field n (DtStruct header_struct_fields) True m] batch = Inr b \<and>
      batch_rows b = map (\<lambda>v. [opt_cell header_result v]) vs) \<and>
    (\<exists>b. well_formed_process debug try_new [Field n (DtStruct well_formed_struct_fields) True m] batch = Inr b \<and>
      batch_rows b = map (\<lambda>v. [opt_cell well_formed_result_cell v]) vs)"
  using version_fn.rowwise [OF assms] header_fn.rowwise [OF assms] well_formed_fn.rowwise [OF assms]
  by (simp add: scalar_calls)

text \<open>A null and two short blobs.\<close>

definition blob_batch :: record_batch where
  "blob_batch = \<lparr>rb_schema = [field_new ''datagram'' DtBinary True],
     rb_columns = [Flat DtBinary [CNull, CBytes [0xDE, 0xAD], CBytes [0, 9]]]\<rparr>"

theorem scalars_rowwise_witness:
  "\<exists>b. flow_version_process (\<lambda>_. []) checking_try_new [Field ''result'' DtUtf8 True []] blob_batch = Inr b \<and>
    batch_rows b = [[CNull], [CNull], [CText ''9'']]"
proof -
  have d: "datagrams (\<lambda>_. []) blob_batch [None, Some [0xDE, 0xAD], Some [0, 9]]"
    by (simp add: datagrams_def blob_batch_def batch_len_def blob_bytes_def upt_rec)
  have v: "version_result [0xDE, 0xAD] = CNull" "version_result [0, 9] = CText ''9''"
    by (simp_all add: version_result_def probe_version_eq be_nat_def Let_def)
  show ?thesis
    using scalars_rowwise [OF checking_try_new_laws d _, of "''result''" "[]", THEN conjunct1] by (simp add: v)
qed

end
