(* ===== verification/Function_Metadata.thy ===== *)
theory Function_Metadata
  imports Result_Columns Scalars
begin

text \<open>
  The catalog entries of the seven functions: what \<open>metadata()\<close> and \<open>argument_specs()\<close> return in
  \<open>flows.rs\<close>, \<open>templates.rs\<close> and the scalar functions, with their examples on the sample
  datagrams.  The lemmas show that the runnable example of each decode function embeds a fixture
  of a format that function accepts.
\<close>

section \<open>Catalog entries\<close>

record function_example =
  fe_sql :: string
  fe_description :: string
  fe_expected_output :: "string option"

record function_metadata =
  fm_description :: string
  fm_return_type :: "data_type option"
  fm_examples :: "function_example list"
  fm_tags :: "(string \<times> string) list"

datatype arg_spec =
    ArgColumn string int string string
  | ArgConst string int string string

section \<open>The decode functions\<close>

definition describe :: "string \<Rightarrow> string" where
  "describe name =
    (if name = ''flows'' then
       (''Decode captured flow-export datagrams (NetFlow v5/v9, IPFIX, sFlow v5) '' @
        ''to normalized flow rows'')
     else if name = ''netflow_decode'' then
       ''Decode NetFlow v5 / v9 datagrams to normalized flow rows''
     else if name = ''ipfix_decode'' then
       ''Decode IPFIX (v10) datagrams to normalized flow rows''
     else if name = ''sflow_decode'' then
       ''Decode sFlow v5 datagrams to normalized flow rows''
     else
       ''Decode flow-export datagrams'')"

definition executable_example :: "string \<Rightarrow> string \<times> string" where
  "executable_example name =
    (if name = ''flows'' then
       ((''Auto-detect and decode a captured NetFlow v5 datagram (two records) '' @
         ''to normalized flow rows.''),
        (''SELECT flow_version, dst_port, protocol, bytes, packets FROM netflow.main.flows((SELECT '' @
         ''from_hex('' @
         [CHR 0x27] @
         SAMPLE_V5_HEX @
         [CHR 0x27] @
         '') AS datagram)) ORDER BY dst_port''))
     else if name = ''netflow_decode'' then
       ((''Decode a NetFlow v9 datagram that carries its template and one data '' @
         ''record.''),
        (''SELECT flow_version, dst_port, protocol, packets FROM netflow.main.netflow_decode((SELECT '' @
         ''from_hex('' @
         [CHR 0x27] @
         SAMPLE_V9_HEX @
         [CHR 0x27] @
         '') AS datagram))''))
     else if name = ''ipfix_decode'' then
       ((''Decode an IPFIX (v10) datagram: a Template Set plus one fully-decodable '' @
         ''IPv4/TCP flow.''),
        (''SELECT flow_version, dst_port, protocol, bytes, packets FROM netflow.main.ipfix_decode((SELECT '' @
         ''from_hex('' @
         [CHR 0x27] @
         SAMPLE_IPFIX_HEX @
         [CHR 0x27] @
         '') AS datagram))''))
     else if name = ''sflow_decode'' then
       (''Decode an sFlow v5 datagram (one flow sample + one counter sample).'',
        (''SELECT flow_version, dst_port, protocol FROM netflow.main.sflow_decode((SELECT '' @
         ''from_hex('' @
         [CHR 0x27] @
         SAMPLE_SFLOW_HEX @
         [CHR 0x27] @
         '') AS datagram)) WHERE dst_port IS NOT NULL''))
     else
       (''Decode a captured NetFlow v5 datagram to normalized flow rows.'',
        (''SELECT flow_version, dst_port FROM netflow.main.flows((SELECT from_hex('' @
         [CHR 0x27] @
         SAMPLE_V5_HEX @
         [CHR 0x27] @
         '') AS datagram))'')))"

definition doc_example :: "string \<Rightarrow> function_example" where
  "doc_example name =
    (let (sql, description) =
      (if name = ''flows'' then
       ((''SELECT exporter, count(*) AS flows, sum(bytes) AS total_bytes FROM netflow.main.flows((SELECT '' @
         ''from_hex('' @
         [CHR 0x27] @
         SAMPLE_V5_HEX @
         [CHR 0x27] @
         '') AS datagram, 'router-1' AS exporter)) GROUP BY exporter''),
        (''Decode a datagram with a per-row exporter id (cache scope) and aggregate '' @
         ''the decoded flows by exporter.''))
     else if name = ''netflow_decode'' then
       ((''SELECT exporter, flow_version, src_port, dst_port, packets FROM netflow.main.netflow_decode((SELECT '' @
         ''from_hex('' @
         [CHR 0x27] @
         SAMPLE_V9_HEX @
         [CHR 0x27] @
         '') AS datagram, 'router-1' AS exporter))''),
        (''Decode a NetFlow v9 datagram, scoping the template cache to exporter 'router-1' '' @
         ''so template ids never collide across devices.''))
     else if name = ''ipfix_decode'' then
       ((''SELECT flow_version, src_port, dst_port, bytes, packets FROM netflow.main.ipfix_decode((SELECT '' @
         ''from_hex('' @
         [CHR 0x27] @
         SAMPLE_IPFIX_HEX @
         [CHR 0x27] @
         '') AS datagram))''),
        (''Decode an IPFIX datagram and read the mapped 5-tuple plus byte/packet '' @
         ''counters.''))
     else if name = ''sflow_decode'' then
       ((''SELECT flow_version, src_port, dst_port, protocol FROM netflow.main.sflow_decode((SELECT '' @
         ''from_hex('' @
         [CHR 0x27] @
         SAMPLE_SFLOW_HEX @
         [CHR 0x27] @
         '') AS datagram)) WHERE dst_port IS NOT NULL''),
        (''Decode an sFlow v5 datagram; flow-sample rows carry the sampled 5-tuple '' @
         ''(counter samples have NULL ports).''))
     else
       ((''SELECT flow_version, dst_port FROM netflow.main.flows((SELECT from_hex('' @
         [CHR 0x27] @
         SAMPLE_V5_HEX @
         [CHR 0x27] @
         '') AS datagram))''),
        ''Decode captured flow-export datagrams to normalized flow rows.''))
     in \<lparr>fe_sql = sql, fe_description = description, fe_expected_output = None\<rparr>)"

definition tags_for :: "string \<Rightarrow> (string \<times> string) list" where
  "tags_for name =
    (let (title, llm, md, kw) =
      (if name = ''flows'' then
       (''Unified Flow Decode (relation in)'',
        (''Auto-detect the version of each captured flow-export datagram (NetFlow '' @
         ''v5/v9, IPFIX, sFlow v5) and decode it to one normalized wide flow row '' @
         ''per record: src/dst as INET, ports, protocol, byte/packet counts, TCP '' @
         ''flags, resolved flow start/end timestamps, AS numbers, interfaces, next '' @
         ''hop, ToS, sampling, plus a raw_fields `MAP` of every unmapped Information '' @
         ''Element. Threads a per-exporter, per-observation-domain template cache '' @
         ''across rows and scan batches so v9/IPFIX data decodes against templates '' @
         ''seen in earlier datagrams. Pass a relation carrying a `datagram` column '' @
         ''of captured bytes (and optionally an `exporter` column so template ids '' @
         ''do not collide across devices); the runnable example shows the exact '' @
         ''call shape. Feed datagrams in capture order.''),
        (''Decode any flow-export datagram to normalized flow rows (the wide schema). '' @
         ''Pass a relation with a `datagram` `BLOB` column (and optional `exporter` '' @
         ''/ `obs_domain` / `mode`). Auto-detects v5/v9/IPFIX/sFlow and threads '' @
         ''the template cache.''),
        (''netflow, ipfix, sflow, flow, flows, decode, network, security, observability, '' @
         ''template, datagram, normalize, relation, lateral''))
     else if name = ''netflow_decode'' then
       (''NetFlow v5/v9 Decode (relation in)'',
        (''Decode NetFlow v5 (fixed) and NetFlow v9 (RFC 3954, template-based) '' @
         ''datagrams from a relation's `datagram` `BLOB` column to the normalized '' @
         ''flow schema. v9 threads the template cache; an IPFIX or sFlow datagram '' @
         ''yields a decode-error diagnostic. Pass an optional `exporter` column '' @
         ''for per-device cache scoping.''),
        (''Decode NetFlow v5/v9 datagrams from a relation's `datagram` column to '' @
         ''normalized flow rows. v9 is template-stateful.''),
        ''netflow, v5, v9, rfc3954, decode, flow, template, network, relation'')
     else if name = ''ipfix_decode'' then
       (''IPFIX Decode (relation in)'',
        (''Decode IPFIX (RFC 7011, version 10) datagrams from a relation's `datagram` '' @
         ''`BLOB` column to the normalized flow schema with full template, options-template, '' @
         ''enterprise-IE (private enterprise number) and variable-length IE handling. '' @
         ''The headline template-stateful decoder. A non-IPFIX datagram yields '' @
         ''a decode-error diagnostic.''),
        (''Decode IPFIX (v10) datagrams from a relation's `datagram` column '' @
         [CHR 0xE2, CHR 0x80, CHR 0x94] @
         '' templates, enterprise + variable-length IEs.''),
        (''ipfix, rfc7011, decode, flow, template, enterprise, variable-length, '' @
         ''network, relation''))
     else if name = ''sflow_decode'' then
       (''sFlow v5 Decode (relation in)'',
        (''Decode sFlow v5 (sflow.org / InMon) packet-sampling datagrams from a '' @
         ''relation's `datagram` `BLOB` column to the normalized flow schema. Flow '' @
         ''samples (sampled headers / sampled IPv4/IPv6) yield 5-tuple rows with '' @
         ''byte/packet counts scaled by the sampling rate; counter samples yield '' @
         ''rows with the counters in raw_fields. Stateless.''),
        (''Decode sFlow v5 datagrams from a relation's `datagram` column. Stateless; '' @
         ''sampled counts scaled by the sampling rate.''),
        ''sflow, sflow5, sampling, decode, flow, counters, network, inmon, relation'')
     else
       (''Flow Decode'',
        ''Decode flow datagrams.'',
        ''Decode flow datagrams.'',
        ''flow, decode''));
        doc_ex = doc_example name
     in object_tags title llm md kw @
        [(''vgi.category'', ''decode''),
         (''vgi.result_columns_schema'', result_columns_schema_json flow_result_columns),
         (''vgi.executable_examples'', executable_examples_json [executable_example name]),
         (''vgi.example_queries'', example_queries_json [(fe_description doc_ex, fe_sql doc_ex)])])"

definition flow_metadata :: "flow_decode \<Rightarrow> function_metadata" where
  "flow_metadata fd =
     \<lparr>fm_description = describe (fd_name fd), fm_return_type = None,
      fm_examples = [doc_example (fd_name fd)], fm_tags = tags_for (fd_name fd)\<rparr>"

definition flow_argument_specs :: "flow_decode \<Rightarrow> arg_spec list" where
  "flow_argument_specs fd =
    (let relation_doc =
       (if fd_with_obs_domain fd then
         (''A relation carrying a `datagram` column of raw captured bytes (exporter '' @
          ''datagrams or UDP payloads carved out of pcap), and optionally an `exporter` '' @
          ''column (cache scope / source device id, read per row so template ids '' @
          ''never collide across exporters), an `obs_domain` column (override the '' @
          ''header observation domain), and a `mode` column ('auto' / 'flows-only' '' @
          ''/ 'all'). Feed datagrams in capture order so a Template Set is seen '' @
          ''before the Data Sets that reference it.'')
        else
         (''A relation carrying a `datagram` column of raw captured sFlow v5 bytes '' @
          ''(exporter datagrams or UDP payloads carved out of pcap), and optionally '' @
          ''an `exporter` column used purely as a source-device label copied onto '' @
          ''each output row. sFlow v5 is self-contained per datagram '' @
          [CHR 0xE2, CHR 0x80, CHR 0x94] @
          '' there is no template cache and no observation domain '' @
          [CHR 0xE2, CHR 0x80, CHR 0x94] @
          '' so datagrams may be decoded in any order and independently of one another.''))
     in [ArgColumn ''relation'' 0 ''table'' relation_doc])"

section \<open>\<open>templates()\<close>\<close>

definition templates_metadata :: function_metadata where
  "templates_metadata =
     \<lparr>fm_description = ''Project the live v9/IPFIX template cache'', fm_return_type = None, fm_examples = [],
      fm_tags =
        object_tags ''Template Cache Introspection''
          (''Project the live v9/IPFIX template cache: one row per learned template, '' @
           ''with its exporter, observation domain, template id, kind (data/options), '' @
           ''the ordered field specifiers it decodes to, and first/last-seen and '' @
           ''use-count stats. The debugging surface for 'which templates have I learned '' @
           ''and what do they decode to'. Optionally filter by exporter. Reflects '' @
           ''templates learned by prior flows()/netflow_decode()/ipfix_decode() calls '' @
           ''in this session.'')
          (''List the learned v9/IPFIX templates and their field layouts. Optional '' @
           ''`exporter` filter.'')
          (''templates, template cache, introspection, ipfix, netflow, v9, fields, '' @
           ''debug, layout'') @
        [(''vgi.category'', ''introspection''),
         (''vgi.result_columns_schema'', result_columns_schema_json templates_result_columns),
         (''vgi.executable_examples'', executable_examples_json
            [((''Learn an IPFIX template by decoding a datagram, then list it (template '' @
               ''id, kind, field count).''),
              (''SELECT count(*) FROM netflow.main.ipfix_decode((SELECT from_hex('' @
               [CHR 0x27] @
               SAMPLE_IPFIX_HEX @
               [CHR 0x27] @
               '') AS datagram, 'doc-exporter' AS exporter));'' @
               [CHR 0x0A] @
               ''SELECT exporter, template_id, kind, field_count FROM netflow.main.templates(exporter '' @
               ''=> 'doc-exporter');''))]),
         (''vgi.example_queries'', example_queries_json
            [((''The template cache is populated by decoding: first decode an IPFIX datagram '' @
               ''scoped to an exporter, then introspect the cache for that exporter to '' @
               ''see the learned template's id, kind (data/options), and field count. '' @
               ''Reads the same session's cache, so run the decode first.''),
              (''SELECT count(*) FROM netflow.main.ipfix_decode((SELECT from_hex('' @
               [CHR 0x27] @
               SAMPLE_IPFIX_HEX @
               [CHR 0x27] @
               '') AS datagram, 'doc-exporter' AS exporter)); SELECT exporter, template_id, '' @
               ''kind, field_count FROM netflow.main.templates(exporter => 'doc-exporter')''))])]\<rparr>"

definition templates_argument_specs :: "arg_spec list" where
  "templates_argument_specs =
     [ArgConst ''exporter'' (- 1) ''varchar''
        (''Filter to templates learned from this exporter (source device id). Omit '' @
         ''for all.'')]"

section \<open>The scalar functions\<close>

definition flow_version_metadata :: function_metadata where
  "flow_version_metadata =
    (let example_sql =
         (''SELECT netflow.main.flow_version(from_hex('' @
          [CHR 0x27] @
          SAMPLE_V5_HEX @
          [CHR 0x27] @
          '')::BLOB) AS flow_version'')
     in
     \<lparr>fm_description = ''Probe a flow-export datagram's wire version'',
      fm_return_type = Some DtUtf8,
      fm_examples =
        [\<lparr>fe_sql = example_sql,
          fe_description = ''Detect a datagram's flow-export version before routing it to a decoder.'',
          fe_expected_output = None\<rparr>],
      fm_tags =
        object_tags ''Flow Datagram Version Probe''
          (''Probe the leading bytes of a captured flow-export datagram (`BLOB`) '' @
           ''and return its wire version: '5' (NetFlow v5), '9' (NetFlow v9), '10' '' @
           ''(IPFIX), or 'sflow5' (sFlow v5); NULL when the bytes match no known '' @
           ''flow header. Cheap '' @
           [CHR 0xE2, CHR 0x80, CHR 0x94] @
           '' it reads only the header and allocates no record tree. Use it to route '' @
           ''or filter a mixed column of datagrams before calling the decoders.'')
          (''Return the flow-export version of a datagram `BLOB`: '5' / '9' / '10' '' @
           ''/ 'sflow5', or NULL if unrecognized. Header-only, no full decode.'')
          (''flow version, netflow version, ipfix, sflow, probe, detect, version, '' @
           ''datagram, header'') @
        [(''vgi.category'', ''probe''),
         (''vgi.executable_examples'', executable_examples_json
            [((''Probe a real NetFlow v5 datagram '' @
               [CHR 0xE2, CHR 0x80, CHR 0x94] @
               '' returns '5'.''),
              (''SELECT netflow.main.flow_version(from_hex('' @
               [CHR 0x27] @
               SAMPLE_V5_HEX @
               [CHR 0x27] @
               '')::BLOB) AS version'')),
             ((''A one-byte non-flow blob matches no known header '' @
               [CHR 0xE2, CHR 0x80, CHR 0x94] @
               '' returns NULL.''),
              (''SELECT netflow.main.flow_version('' @
               [CHR 0x27, CHR 0x5C] @
               ''x00'::BLOB) AS version''))]),
         (''vgi.example_queries'', example_queries_json
            [(''Detect a datagram's flow-export version before routing it to a decoder.'',
              example_sql)])]\<rparr>)"

definition flow_version_argument_specs :: "arg_spec list" where
  "flow_version_argument_specs =
     [ArgColumn ''datagram'' 0 ''binary''
        (''The raw captured bytes of one flow-export datagram '' @
         [CHR 0xE2, CHR 0x80, CHR 0x94] @
         '' a single exporter UDP payload.'')]"

definition header_metadata :: function_metadata where
  "header_metadata =
    (let example_sql =
         (''SELECT netflow.main.header(from_hex('' @
          [CHR 0x27] @
          SAMPLE_V5_HEX @
          [CHR 0x27] @
          '')::BLOB).sequence AS sequence'')
     in
     \<lparr>fm_description = ''Decode a flow datagram's export header'',
      fm_return_type = Some (DtStruct header_struct_fields),
      fm_examples =
        [\<lparr>fe_sql = example_sql,
          fe_description = ''Read a datagram's export sequence number (for gap / dedup analysis).'',
          fe_expected_output = None\<rparr>],
      fm_tags =
        object_tags ''Flow Export Header''
          (''Decode just the export header of a flow-export datagram (`BLOB`) without '' @
           ''decoding any records: version, record count, sysUptime, export_time '' @
           ''(`TIMESTAMPTZ`), sequence number, and observation domain. Use it for '' @
           ''sequence-gap analysis and dedup over a large column of datagrams cheaply. '' @
           ''sFlow fields map best-effort (no count/sys_uptime). Returns a `STRUCT`; '' @
           ''NULL on a non-flow datagram.'')
          (''Decode a flow datagram's export header to a `STRUCT(version, count, '' @
           ''sys_uptime, export_time, sequence, obs_domain)`. NULL if not a flow '' @
           ''datagram.'')
          (''header, export header, sequence, gap detection, dedup, version, obs_domain, '' @
           ''netflow, ipfix, sflow'') @
        [(''vgi.category'', ''probe''),
         (''vgi.executable_examples'', executable_examples_json
            [((''Decode the export header of a real NetFlow v5 datagram (version 5, 2 '' @
               ''records).''),
              (''SELECT netflow.main.header(from_hex('' @
               [CHR 0x27] @
               SAMPLE_V5_HEX @
               [CHR 0x27] @
               '')::BLOB) AS hdr'')),
             (''The header of a non-flow blob is NULL.'',
              (''SELECT netflow.main.header('' @
               [CHR 0x27, CHR 0x5C] @
               ''x00'::BLOB) AS hdr''))]),
         (''vgi.example_queries'', example_queries_json
            [(''Read a datagram's export sequence number (for gap / dedup analysis).'',
              example_sql)])]\<rparr>)"

definition header_argument_specs :: "arg_spec list" where
  "header_argument_specs =
     [ArgColumn ''datagram'' 0 ''binary''
        (''The raw captured bytes of one flow-export datagram whose export header '' @
         ''you want read.'')]"

definition well_formed_metadata :: function_metadata where
  "well_formed_metadata =
    (let example_sql =
         (''SELECT netflow.main.well_formed(from_hex('' @
          [CHR 0x27] @
          SAMPLE_V5_HEX @
          [CHR 0x27] @
          '')::BLOB) AS validation'')
     in
     \<lparr>fm_description = ''Validate a flow datagram's structure (never panics)'',
      fm_return_type = Some (DtStruct well_formed_struct_fields),
      fm_examples =
        [\<lparr>fe_sql = example_sql,
          fe_description = (''Triage a captured datagram '' @
                           [CHR 0xE2, CHR 0x80, CHR 0x94] @
                           '' STRUCT(ok, version, error, kind) '' @
                           [CHR 0xE2, CHR 0x80, CHR 0x94] @
                           '' before decoding.''),
          fe_expected_output = None\<rparr>],
      fm_tags =
        object_tags ''Flow Datagram Validation''
          (''Validate the structure of a flow-export datagram (`BLOB`) without a '' @
           ''full decode, returning `STRUCT(ok BOOL, version VARCHAR, error VARCHAR, '' @
           ''kind VARCHAR)`. `kind` is one of truncated, bad-version, set-length-overrun, '' @
           ''bad-ipfix-set, short-record, or not-a-flow-datagram. Never panics '' @
           [CHR 0xE2, CHR 0x80, CHR 0x94] @
           '' a hostile/garbage blob returns ok=false rather than crashing the scan. '' @
           ''Use it to triage a capture before decoding.'')
          (''Validate a flow datagram `BLOB`'s structure '' @
           [CHR 0xE2, CHR 0x86, CHR 0x92] @
           '' `STRUCT(ok, version, error, kind)`. Never panics on garbage.'')
          (''well formed, validate, validation, malformed, truncated, triage, netflow, '' @
           ''ipfix, sflow'') @
        [(''vgi.category'', ''probe''),
         (''vgi.executable_examples'', executable_examples_json
            [(''A real NetFlow v5 datagram validates clean (ok = true, version = '5').'',
              (''SELECT netflow.main.well_formed(from_hex('' @
               [CHR 0x27] @
               SAMPLE_V5_HEX @
               [CHR 0x27] @
               '')::BLOB) AS check'')),
             (''Garbage bytes are flagged not-a-flow-datagram (ok = false).'',
              (''SELECT netflow.main.well_formed('' @
               [CHR 0x27, CHR 0x5C] @
               ''xde'' @
               [CHR 0x5C] @
               ''xad'::BLOB).kind AS kind''))]),
         (''vgi.example_queries'', example_queries_json
            [((''Triage a captured datagram '' @
               [CHR 0xE2, CHR 0x80, CHR 0x94] @
               '' STRUCT(ok, version, error, kind) '' @
               [CHR 0xE2, CHR 0x80, CHR 0x94] @
               '' before decoding.''),
              example_sql)])]\<rparr>)"

definition well_formed_argument_specs :: "arg_spec list" where
  "well_formed_argument_specs =
     [ArgColumn ''datagram'' 0 ''binary''
        ''The raw captured bytes to structurally validate as a flow-export datagram.'']"

section \<open>The examples\<close>

text \<open>Where a text embeds a datagram in hexadecimal.\<close>

definition embeds :: "string \<Rightarrow> string \<Rightarrow> bool" where
  "embeds s t \<longleftrightarrow> (\<exists>pre post. t = pre @ s @ post)"

lemma embeds_here: "embeds s (s @ t)"
  unfolding embeds_def by (metis append_Nil)

lemma embeds_append: "embeds s t \<Longrightarrow> embeds s (p @ t)"
  unfolding embeds_def by (metis append.assoc)

lemma executable_examples_embed:
  "embeds SAMPLE_V5_HEX (snd (executable_example ''flows''))"
  "embeds SAMPLE_V9_HEX (snd (executable_example ''netflow_decode''))"
  "embeds SAMPLE_IPFIX_HEX (snd (executable_example ''ipfix_decode''))"
  "embeds SAMPLE_SFLOW_HEX (snd (executable_example ''sflow_decode''))"
  by (simp only: executable_example_def if_True if_False list.inject char.inject list.distinct simp_thms snd_conv,
      (rule embeds_here | rule embeds_append)+)+

lemma sample_versions:
  "probe_version netflow_v5 = Some ''5''" "probe_version netflow_v9_combined = Some ''9''"
  "probe_version ipfix_basic = Some ''10''" "probe_version (take 209 sflow_basic) = Some ''sflow5''"
  by (simp_all add: probe_version_eq be_nat_def Let_def netflow_v5_bytes netflow_v9_combined_bytes
      ipfix_basic_bytes sflow_basic_bytes)

text \<open>The runnable example of each decode function embeds a datagram of a format the function accepts.\<close>

definition accepts :: "restrict \<Rightarrow> string \<Rightarrow> bool" where
  "accepts r v \<longleftrightarrow>
     (if v = ''5'' \<or> v = ''9'' then r \<in> {AnyFormat, NetflowOnly}
      else if v = ''10'' then r \<in> {AnyFormat, IpfixOnly}
      else v = ''sflow5'' \<and> r \<in> {AnyFormat, SflowOnly})"

lemma examples_accepted:
  "\<forall>fd \<in> set register_table_in_out. \<exists>data v.
     embeds (hex_text data) (snd (executable_example (fd_name fd))) \<and>
     probe_version data = Some v \<and> accepts (fd_restrict fd) v"
proof -
  note facts = executable_examples_embed [folded sample_v5 sample_v9 sample_ipfix sample_sflow] sample_versions
  show ?thesis
  proof
    fix fd assume "fd \<in> set register_table_in_out"
    then consider "fd = fd_flows" | "fd = fd_new ''netflow_decode'' NetflowOnly"
      | "fd = fd_new ''ipfix_decode'' IpfixOnly" | "fd = fd_new ''sflow_decode'' SflowOnly"
      by (auto simp: register_table_in_out_def)
    then show "\<exists>data v. embeds (hex_text data) (snd (executable_example (fd_name fd))) \<and>
        probe_version data = Some v \<and> accepts (fd_restrict fd) v"
    proof cases
      case 1
      with facts(1,5) show ?thesis by (intro exI [of _ netflow_v5] exI [of _ "''5''"]) (simp add: fd_flows_def accepts_def)
    next
      case 2
      with facts(2,6) show ?thesis
        by (intro exI [of _ netflow_v9_combined] exI [of _ "''9''"]) (simp add: fd_new_def accepts_def)
    next
      case 3
      with facts(3,7) show ?thesis
        by (intro exI [of _ ipfix_basic] exI [of _ "''10''"]) (simp add: fd_new_def accepts_def)
    next
      case 4
      with facts(4,8) show ?thesis
        by (intro exI [of _ "take 209 sflow_basic"] exI [of _ "''sflow5''"]) (simp add: fd_new_def accepts_def)
    qed
  qed
qed

end
