(* ===== verification/Provenance.thy ===== *)
theory Provenance
  imports Row_Laws
begin

text \<open>
  The \<open>flow_version\<close> of rows: whatever the datagram, the order and the state, a row carries one of
  the four versions, or none when its datagram could not be told.
\<close>

section \<open>Records\<close>

lemma map_field_version [simp]: "fr_flow_version (st_rec (map_field f bs st)) = fr_flow_version (st_rec st)"
  by (simp add: map_field_def Let_def)

lemma decode_fields_version:
  "decode_fields fs st c = Some (st', c') \<Longrightarrow> fr_flow_version (st_rec st') = fr_flow_version (st_rec st)"
proof (induction fs arbitrary: st c)
  case (Cons f fs)
  from Cons.prems(1) obtain bs c1 where "decode_fields fs (map_field f bs st) c1 = Some (st', c')"
    by (auto split: if_splits Option.bind_splits)
  from Cons.IH [OF this] show ?case by simp
qed simp

lemma resolve_times_version [simp]: "fr_flow_version (resolve_times cx s e r) = fr_flow_version r"
  by (simp add: resolve_times_def Let_def split: option.splits)

lemma decode_one_record_version: "decode_one_record tpl cx c = Some (r, c') \<Longrightarrow> fr_flow_version r = cx_version cx"
  by (auto simp: decode_one_record_def base_record_def split: Option.bind_splits dest!: decode_fields_version)

section \<open>Samples\<close>

lemma scale_counts_version [simp]: "fr_flow_version (scale_counts n r rec) = fr_flow_version rec"
  by (simp add: scale_counts_def Let_def)

lemma parse_l4_version [simp]: "fr_flow_version (parse_l4 c p rec) = fr_flow_version rec"
  by (simp add: parse_l4_def Let_def split: prod.splits)

lemma parse_headers_version [simp]:
  "fr_flow_version (parse_ipv4 c rec) = fr_flow_version rec"
  "fr_flow_version (parse_ipv6 c rec) = fr_flow_version rec"
  by (simp_all add: parse_ipv4_def parse_ipv6_def Let_def split: prod.splits option.splits)

lemma parse_l2_version [simp]: "fr_flow_version (parse_l2 h rec) = fr_flow_version rec"
  by (simp add: parse_l2_def Let_def split: prod.splits bool.splits)

lemma parse_records_version [simp]:
  "fr_flow_version (parse_raw_header b r rec) = fr_flow_version rec"
  "fr_flow_version (parse_sampled_ipv4 b r rec) = fr_flow_version rec"
  "fr_flow_version (parse_sampled_ipv6 b r rec) = fr_flow_version rec"
  by (simp_all add: parse_raw_header_def parse_sampled_ipv4_def parse_sampled_ipv6_def Let_def split: prod.splits)

lemma flow_records_loop_version [simp]: "fr_flow_version (flow_records_loop n c r rec) = fr_flow_version rec"
  by (induction n arbitrary: c rec) (simp_all add: Let_def split: prod.splits option.splits)

lemma counter_records_loop_version [simp]:
  "fr_flow_version (counter_records_loop n c rec) = fr_flow_version rec"
  by (induction n arbitrary: c rec) (simp_all add: Let_def split: prod.splits option.splits)

lemma sample_version:
  "r \<in> set (decode_flow_sample b ex d s x) \<Longrightarrow> fr_flow_version r = ''sflow5''"
  "fr_flow_version (decode_counter_sample b ex d s x) = ''sflow5''"
  by (auto simp: decode_flow_sample_def decode_counter_sample_def Let_def split: prod.splits)

section \<open>All rows\<close>

interpretation version_law: row_law "\<lambda>r. fr_flow_version r \<in> flow_versions"
proof
  show "fr_flow_version (v5_decode_record bs ex dm hdr boot) \<in> flow_versions" for bs ex dm hdr boot
    by (simp add: v5_decode_record_def Let_def split: prod.splits)
qed (simp_all add: decode_one_record_version sample_version)

lemma given_up_version:
  "r \<in> set (fst (decode_datagram data opts c restr)) \<Longrightarrow>
     fr_flow_version r \<in> flow_versions \<or> (\<exists>d. note_row d r \<and> given_up data restr d)"
  by (rule version_law.datagram_ok)

end
