(* ===== verification/Catalog.thy ===== *)
theory Catalog
  imports Function_Metadata Provenance
begin

text \<open>
  The catalog of the worker (\<open>lib.rs\<close>): its description, the reference view of the supported
  formats, the agent tasks, the catalog name taken from the environment, and the registration of
  every function.  The lemmas compare what the catalog says of the program with the program.
\<close>

section \<open>Catalog data\<close>

text \<open>The fields of the SDK's structures that the worker sets; its empty lists (macros, tables, path) are left out.\<close>

record cat_view =
  cv_name :: string
  cv_definition :: string
  cv_comment :: "string option"
  cv_tags :: "(string \<times> string) list"
  cv_column_comments :: "(string \<times> string) list"

record cat_schema =
  cs_name :: string
  cs_comment :: "string option"
  cs_tags :: "(string \<times> string) list"
  cs_views :: "cat_view list"

record catalog_model =
  cm_name :: string
  cm_comment :: "string option"
  cm_tags :: "(string \<times> string) list"
  cm_source_url :: "string option"
  cm_implementation_version :: "string option"
  cm_schemas :: "cat_schema list"


text \<open>The reference view: one row per format.\<close>

definition formats_definition :: string where
  "formats_definition =
     (''SELECT format, version, rfc, template_stateful, decoder, flow_version, '' @
      ''notes FROM (VALUES ('NetFlow', '5', 'Cisco NetFlow v5', false, 'netflow_decode', '5', 'Fixed '' @
      ''48-byte records; no templates.'), ('NetFlow', '9', 'RFC 3954', true, 'netflow_decode', '9', 'Template-based; '' @
      ''the Template Set may arrive in an earlier datagram.'), ('IPFIX', '10', 'RFC '' @
      ''7011', true, 'ipfix_decode', '10', 'Template-based, with enterprise '' @
      ''and variable-length Information Elements.'), ('sFlow', '5', 'sFlow.org '' @
      ''v5', false, 'sflow_decode', 'sflow5', 'Packet sampling; byte/packet '' @
      ''counts scaled by the sampling rate.')) AS t(format, version, rfc, template_stateful, '' @
      ''decoder, flow_version, notes)'')"

definition formats_view :: cat_view where
  "formats_view =
     \<lparr>cv_name = ''supported_formats'',
      cv_definition = formats_definition,
      cv_comment = Some
        (''One row per flow-export format the worker decodes, with its version, '' @
         ''defining spec, whether decoding is template-stateful, and the decode '' @
         ''function that handles it.''),
      cv_tags = object_tags
         ''Supported Flow-Export Formats''
         (''A curated reference listing every flow-export format this worker can '' @
          ''decode '' @
          [CHR 0xE2, CHR 0x80, CHR 0x94] @
          '' NetFlow v5, NetFlow v9, IPFIX (v10), and sFlow v5 '' @
          [CHR 0xE2, CHR 0x80, CHR 0x94] @
          '' with, for each, its wire version, the RFC or vendor spec that defines '' @
          ''it, whether decoding it is template-stateful (needs a previously-seen '' @
          ''template, as v9 and IPFIX do), the `flow_version` value it produces '' @
          ''in decoded rows, and which `netflow.main` decode function handles it. '' @
          ''An agent should browse this table first to learn what is decodable and '' @
          ''which function to call, rather than guessing a decoder's arguments up '' @
          ''front. It is a static VALUES-backed view, so it always returns these '' @
          ''four rows with no input.'')
         (''Reference table of the flow-export formats the worker decodes (NetFlow '' @
          ''v5/v9, IPFIX, sFlow v5), each with its version, defining spec, template-stateful '' @
          ''flag, produced `flow_version` value, and handling decode function. Browse '' @
          ''it to orient before calling a decoder.'')
         (''supported formats, formats, reference, netflow, ipfix, sflow, versions, '' @
          ''decoders, capabilities, catalog, template-stateful'') @
        [(''vgi.category'', ''reference''),
         (''domain'', ''network-security''),
         (''topic'', ''netflow-ipfix-sflow''),
         (''vgi.example_queries'', example_queries_json
           [((''List the template-stateful formats (the ones whose decode needs a learned '' @
              ''template) and which function decodes each.''),
             (''SELECT format, version, decoder FROM netflow.main.supported_formats '' @
              ''WHERE template_stateful ORDER BY version'')),
            ((''Look up which decode function handles IPFIX and the flow_version value '' @
              ''it emits.''),
             (''SELECT decoder, flow_version, rfc FROM netflow.main.supported_formats '' @
              ''WHERE format = 'IPFIX'' @
              [CHR 0x27]))])],
      cv_column_comments =
        [(''format'',
          ''Flow-export protocol family: 'NetFlow', 'IPFIX', or 'sFlow'.''),
         (''version'',
          ''Protocol version as it appears on the wire (e.g. '5', '9', '10').''),
         (''rfc'',
          ''The RFC or vendor specification that defines the format.''),
         (''template_stateful'',
          (''TRUE when decoding needs a previously-seen template (NetFlow v9, IPFIX); '' @
           ''FALSE for self-contained formats (NetFlow v5, sFlow).'')),
         (''decoder'',
          (''The netflow.main table function that decodes this format (the unified '' @
           ''`flows` handles all of them).'')),
         (''flow_version'',
          ''The value this format produces in the decoded rows' `flow_version` column.''),
         (''notes'',
          ''One-line summary of the format's decoding characteristics.'')]\<rparr>"

text \<open>The agent tasks.\<close>

definition agent_test_tasks :: "agent_task list" where
  "agent_test_tasks =
     [\<lparr>at_name = ''probe_unknown'', at_prompt =
         (''I have a one-byte blob that is not a flow datagram. Probe its flow-export '' @
          ''version; it should come back NULL. Return a single column named v.'')\<rparr>,
      \<lparr>at_name = ''validate_garbage'', at_prompt =
         (''Classify the garbage two-byte blob 0xDEAD with the validator and return '' @
          ''just the failure kind as a single column named kind.'')\<rparr>,
      \<lparr>at_name = ''count_v5_flows'', at_prompt =
         (''I captured this NetFlow v5 export datagram as a hex string: '' @
          SAMPLE_V5_HEX @
          ''. Decode it with the unified flow decoder and tell me how many normalized '' @
          ''flow rows it yields. Return one row, one column named flow_count.'')\<rparr>,
      \<lparr>at_name = ''decode_v9_dst_port'', at_prompt =
         (''This is a NetFlow v9 export datagram in hex (it carries its template '' @
          ''and one data record): '' @
          SAMPLE_V9_HEX @
          ''. Decode it with the NetFlow-specific decoder and return the layer-4 '' @
          ''destination port of the single decoded flow. One row, one column named '' @
          ''dst_port.'')\<rparr>,
      \<lparr>at_name = ''decode_ipfix_protocol'', at_prompt =
         (''Decode this IPFIX (version 10) datagram given as hex: '' @
          SAMPLE_IPFIX_HEX @
          ''. Return the IP protocol number of the decoded flow. One row, one column '' @
          ''named protocol.'')\<rparr>,
      \<lparr>at_name = ''count_sflow_samples'', at_prompt =
         (''Decode this sFlow v5 datagram given as hex: '' @
          SAMPLE_SFLOW_HEX @
          ''. Count how many flow-sample rows it produces '' @
          [CHR 0xE2, CHR 0x80, CHR 0x94] @
          '' that is, decoded rows that carry a non-NULL destination port (counter '' @
          ''samples have no ports). One row, one column named flow_samples.'')\<rparr>,
      \<lparr>at_name = ''read_export_header'', at_prompt =
         (''Without fully decoding its records, read just the export header of this '' @
          ''NetFlow v5 datagram given as hex: '' @
          SAMPLE_V5_HEX @
          ''. Return its protocol version and its record count, in that order '' @
          [CHR 0xE2, CHR 0x80, CHR 0x94] @
          '' one row, a `version` column then a `records` column.'')\<rparr>,
      \<lparr>at_name = ''inspect_learned_templates'', at_prompt =
         (''Two steps, in one session. First decode this IPFIX datagram (hex) scoping '' @
          ''the template cache to the exporter id 'sim-tmpl-probe': '' @
          SAMPLE_IPFIX_HEX @
          ''. Then inspect the worker's template cache, filtered to that same exporter, '' @
          ''and tell me how many templates it learned. Your final answer is the '' @
          ''count '' @
          [CHR 0xE2, CHR 0x80, CHR 0x94] @
          '' one row, one column named n.'')\<rparr>,
      \<lparr>at_name = ''browse_stateful_formats'', at_prompt =
         (''Using only the worker's own reference table of supported formats, list '' @
          ''the decode functions for the flow-export formats whose decoding is template-stateful '' @
          ''(needs a previously-seen template). Return one `decoder` column, ordered '' @
          ''alphabetically.'')\<rparr>]"

text \<open>The package version, from \<open>Cargo.toml\<close>.\<close>

definition version :: string where
  "version = ''0.1.0''"

text \<open>The single schema, and the categories it declares as JSON text.\<close>

definition schema_categories :: string where
  "schema_categories =
     (''[{'' @
      [CHR 0x22] @
      ''name'' @
      [CHR 0x22] @
      '':'' @
      [CHR 0x22] @
      ''decode'' @
      [CHR 0x22] @
      '','' @
      [CHR 0x22] @
      ''description'' @
      [CHR 0x22] @
      '':'' @
      [CHR 0x22] @
      ''Table functions that decode captured flow-export datagrams (NetFlow '' @
      ''v5/v9, IPFIX, sFlow v5) into normalized flow rows.'' @
      [CHR 0x22] @
      ''},{'' @
      [CHR 0x22] @
      ''name'' @
      [CHR 0x22] @
      '':'' @
      [CHR 0x22] @
      ''introspection'' @
      [CHR 0x22] @
      '','' @
      [CHR 0x22] @
      ''description'' @
      [CHR 0x22] @
      '':'' @
      [CHR 0x22] @
      ''Inspect the learned per-exporter, per-observation-domain template cache '' @
      ''that stateful v9/IPFIX decode depends on.'' @
      [CHR 0x22] @
      ''},{'' @
      [CHR 0x22] @
      ''name'' @
      [CHR 0x22] @
      '':'' @
      [CHR 0x22] @
      ''probe'' @
      [CHR 0x22] @
      '','' @
      [CHR 0x22] @
      ''description'' @
      [CHR 0x22] @
      '':'' @
      [CHR 0x22] @
      ''Lightweight scalars that identify or validate a datagram without a full '' @
      ''decode.'' @
      [CHR 0x22] @
      ''},{'' @
      [CHR 0x22] @
      ''name'' @
      [CHR 0x22] @
      '':'' @
      [CHR 0x22] @
      ''reference'' @
      [CHR 0x22] @
      '','' @
      [CHR 0x22] @
      ''description'' @
      [CHR 0x22] @
      '':'' @
      [CHR 0x22] @
      ''Curated lookup tables an agent can browse to orient '' @
      [CHR 0xE2, CHR 0x80, CHR 0x94] @
      '' e.g. the flow-export formats this worker decodes and the function that '' @
      ''handles each.'' @
      [CHR 0x22] @
      ''}]'')"

definition main_schema :: cat_schema where
  "main_schema =
     \<lparr>cs_name = ''main'',
      cs_comment = Some
        (''NetFlow / IPFIX / sFlow flow-export decode functions and template-cache '' @
         ''introspection.''),
      cs_tags =
        [(''vgi.title'', (''NetFlow '' @
           [CHR 0xE2, CHR 0x80, CHR 0x94] @
           '' main'')),
         (''vgi.keywords'', keywords_json
           (''flows, netflow_decode, ipfix_decode, sflow_decode, templates, flow_version, '' @
            ''header, well_formed, netflow, ipfix, sflow, template'')),
         (''domain'', ''network-security''),
         (''category'', ''flow-decode''),
         (''topic'', ''netflow-ipfix-sflow''),
         (''vgi.doc_llm'',
          (''The single schema for the netflow worker. It groups flow-export decoders '' @
           ''(turn a captured datagram column into normalized flow rows), template-cache '' @
           ''introspection, and lightweight probe/validation scalars. The decoders '' @
           ''thread a per-exporter, per-observation-domain template cache as externalized '' @
           ''scan state so template-based v9/IPFIX data decodes against templates '' @
           ''seen in earlier datagrams. Start from `supported_formats` to see which '' @
           ''formats decode and which function handles each, then call that decoder.'')),
         (''vgi.doc_md'',
          (''## The `netflow` schema'' @
           [CHR 0x0A, CHR 0x0A] @
           ''Everything the worker exposes lives in this one schema '' @
           [CHR 0xE2, CHR 0x80, CHR 0x94] @
           '' qualify every call as `netflow.main.<name>(...)`. Its job is to turn '' @
           ''a column of raw captured flow-export datagrams into normalized, typed '' @
           ''flow rows, entirely in-engine and with no collector stack.'' @
           [CHR 0x0A, CHR 0x0A] @
           ''The capabilities fall into a few groups:'' @
           [CHR 0x0A, CHR 0x0A] @
           ''- **Decoders** take a relation with a `datagram` `BLOB` column and return '' @
           ''the wide normalized flow schema, auto-detecting NetFlow v5/v9, IPFIX, '' @
           ''and sFlow v5 (or restricting to a single family).'' @
           [CHR 0x0A] @
           ''- **Template-cache introspection** projects the per-exporter, per-observation-domain '' @
           ''templates the stateful v9/IPFIX decoders have learned so far in the '' @
           ''session.'' @
           [CHR 0x0A] @
           ''- **Probe / validation scalars** identify or structurally validate a '' @
           ''single datagram cheaply, without running a full decode.'' @
           [CHR 0x0A, CHR 0x0A] @
           ''A small **reference** table lists the flow-export formats the worker '' @
           ''understands and which decoder handles each, so an agent can orient before '' @
           ''calling anything. Browse that first, then reach for the matching decoder.'')),
         (''vgi.categories'', schema_categories),
         (''vgi.example_queries'', example_queries_json
           [((''Route a mixed column of captured datagrams: label each by its flow-export '' @
              ''version before decoding.''),
             (''SELECT netflow.main.flow_version(content) AS version, count(*) FROM '' @
              ''read_blob('caps/*.dat') GROUP BY version'')),
            ((''Decode a capture archive to normalized flow rows and join source addresses '' @
              ''to a threat-intel prefix list via INET containment.''),
             (''SELECT f.src_addr::INET AS src, f.dst_port, f.bytes FROM netflow.main.flows((FROM '' @
              ''(SELECT content AS datagram, filename AS exporter FROM read_blob('caps/*.dat')))) '' @
              ''f WHERE f.diagnostics IS NULL AND f.src_addr::INET <<= '10.0.0.0/8'::INET'')),
            ((''After decoding, inspect which v9/IPFIX templates the worker learned '' @
              ''in this session, per exporter.''),
             (''SELECT exporter, template_id, kind, field_count FROM netflow.main.templates() '' @
              ''ORDER BY exporter, template_id''))])],
      cs_views = [formats_view]\<rparr>"

definition catalog_metadata :: "string \<Rightarrow> catalog_model" where
  "catalog_metadata name =
     \<lparr>cm_name = name,
      cm_comment = Some
        (''Decode captured NetFlow v5/v9, IPFIX, and sFlow v5 flow-export datagrams '' @
         ''into normalized flow rows '' @
         [CHR 0xE2, CHR 0x80, CHR 0x94] @
         '' template-stateful, in-engine, no collector stack.''),
      cm_tags =
        [(''vgi.title'', ''NetFlow / IPFIX / sFlow Flow Decoder''),
         (''vgi.keywords'', keywords_json
           (''netflow, ipfix, sflow, flow, flow records, netflow v5, netflow v9, ipfix '' @
            ''v10, rfc 3954, rfc 7011, sflow v5, template, observation domain, network, '' @
            ''security, observability, ndr, netsecops, flow lake, geoip, asn, threat '' @
            ''intel, decode, datagram, information element'')),
         (''vgi.doc_llm'',
          (''Decode raw network flow-export datagrams (NetFlow v5/v9, IPFIX, sFlow '' @
           ''v5) from a `BLOB` column into typed, normalized flow rows: src/dst as '' @
           ''INET, ports, protocol, byte/packet counts, TCP flags, resolved flow '' @
           ''start/end timestamps, AS numbers, interfaces, next hop, ToS, sampling, '' @
           ''plus a raw_fields `MAP` of every unmapped Information Element. The hard '' @
           ''part '' @
           [CHR 0xE2, CHR 0x80, CHR 0x94] @
           '' and the value '' @
           [CHR 0xE2, CHR 0x80, CHR 0x94] @
           '' is template-stateful v9/IPFIX decode: a Data Set carries only a template '' @
           ''id, and the matching Template Set may have arrived in a much earlier '' @
           ''datagram, so the worker maintains a per-exporter, per-observation-domain '' @
           ''template cache as externalized VGI scan state that survives batch boundaries '' @
           ''and HTTP rehydration. Use it for SQL forensics over captured flow archives '' @
           [CHR 0xE2, CHR 0x80, CHR 0x94] @
           '' join flows to geoip/ASN, threat-intel, and asset inventory, at scale, '' @
           ''with no collector. Reach for it whenever you have raw exporter datagrams '' @
           ''(or UDP payloads carved out of pcap) in a `BLOB` column and want queryable, '' @
           ''normalized flow rows without standing up a collector stack.'')),
         (''vgi.doc_md'',
          (''# netflow'' @
           [CHR 0x0A, CHR 0x0A] @
           ''Decode captured **flow-export datagrams** '' @
           [CHR 0xE2, CHR 0x80, CHR 0x94] @
           '' NetFlow **v5** (fixed), NetFlow **v9** (RFC 3954, template-based), '' @
           ''**IPFIX** (RFC 7011, template-based, enterprise + variable-length IEs), '' @
           ''and **sFlow v5** (packet sampling) '' @
           [CHR 0xE2, CHR 0x80, CHR 0x94] @
           '' from a `BLOB` column of captured exporter datagrams (or UDP payloads '' @
           ''carved out of pcap) into one **normalized** wide flow row per record.'' @
           [CHR 0x0A, CHR 0x0A] @
           ''The moat is correct **template-stateful** v9/IPFIX decode at lake scale: '' @
           ''a Data Set carries no field descriptors, only a template id, and the '' @
           ''Template Set that defines the layout arrives out-of-band '' @
           [CHR 0xE2, CHR 0x80, CHR 0x94] @
           '' so the worker keeps a **template cache keyed by (exporter, observation '' @
           ''domain, template id)** as serializable VGI scan state that survives '' @
           ''scan-batch boundaries and HTTP worker rehydration (a template seen in '' @
           ''datagram 1 decodes data in datagram 10,000). A data record that arrives '' @
           ''before its template is buffered and retried, or emitted with `diagnostics '' @
           ''= 'missing-template:'' @
           [CHR 0xE2, CHR 0x80, CHR 0xA6, CHR 0x27] @
           ''` '' @
           [CHR 0xE2, CHR 0x80, CHR 0x94] @
           '' never dropped.'' @
           [CHR 0x0A, CHR 0x0A] @
           ''Addresses are emitted as DuckDB **INET** (`LOAD inet;`), so `src_addr::INET '' @
           ''<<= '10.0.0.0/8'::INET` containment joins to geoip / threat-intel work '' @
           ''directly. The worker decodes captured bytes only '' @
           [CHR 0xE2, CHR 0x80, CHR 0x94] @
           '' it opens no UDP socket and makes no egress (collector mode is roadmap).'')),
         (''vgi.agent_test_tasks'', agent_test_tasks_json agent_test_tasks),
         (''vgi.author'', ''Query.Farm''),
         (''vgi.copyright'', ''Copyright 2026 Query Farm LLC - https://query.farm''),
         (''vgi.license'', ''MIT''),
         (''vgi.support_contact'', ''https://github.com/Query-farm/vgi-netflow/issues''),
         (''vgi.support_policy_url'', ''https://github.com/Query-farm/vgi-netflow/blob/main/README.md'')],
      cm_source_url = Some ''https://github.com/Query-farm/vgi-netflow'',
      cm_implementation_version = Some version,
      cm_schemas = [main_schema]\<rparr>"

section \<open>The worker\<close>

text \<open>An environment variable is absent, text, or not Unicode; the environment is a map.\<close>

datatype env_value = EnvText string | EnvNotUnicode bytes

definition CATALOG_VAR :: string where
  "CATALOG_VAR = ''VGI_WORKER_CATALOG_NAME''"

definition catalog_name :: "(string \<rightharpoonup> env_value) \<Rightarrow> string \<times> (string \<rightharpoonup> env_value)" where
  "catalog_name env =
     (let env = (if env CATALOG_VAR = None then env(CATALOG_VAR \<mapsto> EnvText ''netflow'') else env)
      in (case env CATALOG_VAR of Some (EnvText s) \<Rightarrow> s | _ \<Rightarrow> ''netflow'', env))"

text \<open>The worker of the SDK is a parameter: its constructor, the registrations and the catalog.\<close>

datatype scalar_function = FlowVersion | Header | WellFormed

datatype table_function = Templates

record 'w worker_api =
  wa_new :: 'w
  wa_register_scalar :: "scalar_function \<Rightarrow> 'w \<Rightarrow> 'w"
  wa_register_table :: "table_function \<Rightarrow> 'w \<Rightarrow> 'w"
  wa_register_table_in_out :: "flow_decode \<Rightarrow> 'w \<Rightarrow> 'w"
  wa_set_catalog :: "catalog_model \<Rightarrow> 'w \<Rightarrow> 'w"

definition register_scalars :: "scalar_function list" where
  "register_scalars = [FlowVersion, Header, WellFormed]"

definition register_tables :: "table_function list" where
  "register_tables = [Templates]"

definition build_worker :: "'w worker_api \<Rightarrow> (string \<rightharpoonup> env_value) \<Rightarrow> 'w \<times> (string \<rightharpoonup> env_value)" where
  "build_worker api env =
     (let (name, env) = catalog_name env;
          worker = wa_new api;
          worker = fold (wa_register_scalar api) register_scalars worker;
          worker = fold (wa_register_table api) register_tables worker;
          worker = fold (wa_register_table_in_out api) register_table_in_out worker
      in (wa_set_catalog api (catalog_metadata name) worker, env))"

section \<open>Reading the view\<close>

text \<open>
  A reader of the \<open>VALUES\<close> list of a view: a literal is a quoted text without quotes inside, or a
  word; a row is a parenthesised list of literals.
\<close>

fun quoted :: "string \<Rightarrow> (string \<times> string) option" where
  "quoted [] = None"
| "quoted (ch # s) = (if ch = CHR 0x27 then Some ([], s) else map_option (apfst (Cons ch)) (quoted s))"

fun word_letters :: "string \<Rightarrow> string \<times> string" where
  "word_letters [] = ([], [])"
| "word_letters (ch # s) =
     (if ch \<in> {CHR '','', CHR '')'', CHR 0x27} then ([], ch # s) else apfst (Cons ch) (word_letters s))"

definition read_literal :: "string \<Rightarrow> (string \<times> string) option" where
  "read_literal s =
     (case s of
        [] \<Rightarrow> None
      | ch # s' \<Rightarrow> if ch = CHR 0x27 then quoted s' else Some (word_letters s))"

fun read_list :: "nat \<Rightarrow> (string \<Rightarrow> ('a \<times> string) option) \<Rightarrow> string \<Rightarrow> ('a list \<times> string) option" where
  "read_list 0 rd s = None"
| "read_list (Suc n) rd s = do {
     (x, s) \<leftarrow> rd s;
     case s of
       [] \<Rightarrow> None
     | ch # s \<Rightarrow>
         if ch = CHR '')'' then Some ([x], s)
         else if ch = CHR '','' then do { s \<leftarrow> expect '' '' s; (xs, s) \<leftarrow> read_list n rd s; Some (x # xs, s) }
         else None
   }"

definition read_tuple :: "string \<Rightarrow> (string list \<times> string) option" where
  "read_tuple s = do { s \<leftarrow> expect ''('' s; read_list 7 read_literal s }"

fun after_text :: "string \<Rightarrow> string \<Rightarrow> string option" where
  "after_text p s =
     (case expect p s of
        Some r \<Rightarrow> Some r
      | None \<Rightarrow> (case s of [] \<Rightarrow> None | _ # s \<Rightarrow> after_text p s))"

definition view_rows :: "string \<Rightarrow> string list list option" where
  "view_rows s = do { s \<leftarrow> after_text ''(VALUES '' s; (rows, _) \<leftarrow> read_list 4 read_tuple s; Some rows }"

section \<open>The view and the program\<close>

text \<open>The columns of the view that name things of the program: statefulness, decoder, \<open>flow_version\<close>.\<close>

definition listed_formats :: "(bool \<times> string \<times> string) list" where
  "listed_formats =
     (case view_rows (cv_definition formats_view) of
        Some rows \<Rightarrow> map (\<lambda>r. (r ! 3 = ''true'', r ! 4, r ! 5)) rows
      | None \<Rightarrow> [])"

lemma listed_formats:
  "listed_formats = [(False, ''netflow_decode'', ''5''), (True, ''netflow_decode'', ''9''),
     (True, ''ipfix_decode'', ''10''), (False, ''sflow_decode'', ''sflow5'')]"
  by code_simp

lemma listed_versions: "(\<lambda>(_, _, v). v) ` set listed_formats = flow_versions"
  by (auto simp: listed_formats flow_versions_def template_versions_def)

lemma stateless_decode:
  assumes "probe_version data = Some v" and "v \<in> {''5'', ''sflow5''}"
  shows "decode_datagram data opts c r = (fst (decode_datagram data opts c' r), c)"
  using assms by (auto simp: decode_datagram_eq datagram_out_def Let_def)

text \<open>
  C40. The catalog tells the truth about the decoders.  The reference view of the supported
  formats, read as SQL text, has exactly one row for each version a datagram can be probed to, and
  this row names the one decode function, besides \<open>flows\<close>, that accepts it; when it says that the
  format needs no templates, decoding leaves the scan state alone and gives the same rows
  whatever that state is; and no row carries a \<open>flow_version\<close> that the view does not list, unless it
  gives its whole datagram up.
\<close>

theorem formats_view_truthful:
  assumes "probe_version data = Some v"
  shows "\<exists>stateful decoder. filter (\<lambda>(_, _, u). u = v) listed_formats = [(stateful, decoder, v)] \<and>
    (\<forall>fd \<in> set register_table_in_out. accepted v (fd_restrict fd) \<longleftrightarrow> fd_name fd \<in> {''flows'', decoder}) \<and>
    (stateful \<longleftrightarrow> v \<in> {''9'', ''10''}) \<and>
    (\<not> stateful \<longrightarrow> (\<forall>c c' opts r. decode_datagram data opts c r = (fst (decode_datagram data opts c' r), c))) \<and>
    (\<forall>c opts r. \<forall>row \<in> set (fst (decode_datagram data opts c r)).
       fr_flow_version row \<in> (\<lambda>(_, _, u). u) ` set listed_formats \<or>
       (\<exists>d. fr_diagnostics row = Some d \<and> given_up data r d))"
proof -
  have rows: "\<forall>c opts r. \<forall>row \<in> set (fst (decode_datagram data opts c r)).
      fr_flow_version row \<in> (\<lambda>(_, _, u). u) ` set listed_formats \<or>
      (\<exists>d. fr_diagnostics row = Some d \<and> given_up data r d)"
    unfolding listed_versions using version_law.datagram_ok [of _ data] by (fastforce simp: note_row_def)
  note decoders = register_table_in_out_def fd_flows_def fd_new_def accepted_def
  from assms probe_version_cases [of data] consider "v = ''5''" | "v = ''9''" | "v = ''10''" | "v = ''sflow5''"
    by auto
  then show ?thesis
  proof cases
    case 1
    with rows stateless_decode [OF assms] show ?thesis
      by (intro exI [of _ False] exI [of _ "''netflow_decode''"]) (simp add: listed_formats decoders)
  next
    case 2
    with rows show ?thesis
      by (intro exI [of _ True] exI [of _ "''netflow_decode''"]) (simp add: listed_formats decoders)
  next
    case 3
    with rows show ?thesis
      by (intro exI [of _ True] exI [of _ "''ipfix_decode''"]) (simp add: listed_formats decoders)
  next
    case 4
    with rows stateless_decode [OF assms] show ?thesis
      by (intro exI [of _ False] exI [of _ "''sflow_decode''"]) (simp add: listed_formats decoders)
  qed
qed

theorem formats_view_truthful_witness:
  "accepted ''10'' (fd_restrict (fd_new ''ipfix_decode'' IpfixOnly)) \<and>
   \<not> accepted ''10'' (fd_restrict (fd_new ''sflow_decode'' SflowOnly))"
proof -
  have "probe_version (ipfix_header 0 0 0 0) = Some ''10''" using probe_ipfix_header [of 0 0 0 0 "[]"] by simp
  from formats_view_truthful [OF this] show ?thesis
    by (auto simp: listed_formats register_table_in_out_def fd_new_def fd_flows_def)
qed

section \<open>Categories\<close>

text \<open>The categories of the schema are JSON text too, written by hand.\<close>

definition read_category :: "string \<Rightarrow> ((string \<times> string) \<times> string) option" where
  "read_category s = do {
     s \<leftarrow> expect ''{\"name\":'' s; (n, s) \<leftarrow> read_text s;
     s \<leftarrow> expect '',\"description\":'' s; (d, s) \<leftarrow> read_text s;
     s \<leftarrow> expect ''}'' s; Some ((n, d), s)
   }"

lemma categories_read:
  "map_option (map fst) (read_array read_category schema_categories) =
     Some [''decode'', ''introspection'', ''probe'', ''reference'']"
  by code_simp

lemma category_tag:
  "map_of (object_tags a b c d @ (''vgi.category'', x) # xs) ''vgi.category'' = Some x"
  by (simp add: object_tags_def)

text \<open>Every object of the catalog has one of the categories the schema declares.\<close>

lemma categories_declared:
  "map_of (tags_for name) ''vgi.category'' = Some ''decode''"
  "map_of (fm_tags templates_metadata) ''vgi.category'' = Some ''introspection''"
  "map_of (fm_tags flow_version_metadata) ''vgi.category'' = Some ''probe''"
  "map_of (fm_tags header_metadata) ''vgi.category'' = Some ''probe''"
  "map_of (fm_tags well_formed_metadata) ''vgi.category'' = Some ''probe''"
  "map_of (cv_tags formats_view) ''vgi.category'' = Some ''reference''"
  unfolding tags_for_def templates_metadata_def flow_version_metadata_def header_metadata_def
    well_formed_metadata_def formats_view_def Let_def case_prod_beta function_metadata.simps cat_view.simps
  by (rule category_tag)+

section \<open>Name and registration\<close>

text \<open>
  The catalog has the name the environment gives it, if that is text, and \<open>netflow\<close> otherwise;
  afterwards the variable is set, so a second call returns the same name.
\<close>

lemma catalog_name_stable:
  "catalog_name env = (name, env') \<Longrightarrow> catalog_name env' = (name, env') \<and> env' CATALOG_VAR \<noteq> None \<and>
     (\<forall>k. k \<noteq> CATALOG_VAR \<longrightarrow> env' k = env k)"
  by (auto simp: catalog_name_def Let_def split: if_splits option.splits env_value.splits)

text \<open>The worker as a list of what has been registered.\<close>

datatype registered = Scalar scalar_function | Table table_function | TableInOut string | CatalogNamed string

definition listing_api :: "registered list worker_api" where
  "listing_api = \<lparr>wa_new = [], wa_register_scalar = (\<lambda>f w. w @ [Scalar f]),
     wa_register_table = (\<lambda>f w. w @ [Table f]), wa_register_table_in_out = (\<lambda>f w. w @ [TableInOut (fd_name f)]),
     wa_set_catalog = (\<lambda>c w. w @ [CatalogNamed (cm_name c)])\<rparr>"

lemma build_worker_listing:
  "fst (build_worker listing_api env) =
     [Scalar FlowVersion, Scalar Header, Scalar WellFormed, Table Templates, TableInOut ''flows'',
      TableInOut ''netflow_decode'', TableInOut ''ipfix_decode'', TableInOut ''sflow_decode'',
      CatalogNamed (fst (catalog_name env))]"
  by (simp add: build_worker_def listing_api_def register_scalars_def register_tables_def
      register_table_in_out_def fd_flows_def fd_new_def catalog_metadata_def case_prod_beta Let_def)

end
