(* ===== verification/Bindings.thy ===== *)
theory Bindings
  imports Catalog Golden
begin

text \<open>
  The rest of the functions' interfaces: their names, what they answer when a query is bound, the
  constant answers of the table functions, the wall clock, and the files of the fixture generator.
  Binding and processing are shown to agree.
\<close>

section \<open>Names and binding\<close>

definition flow_version_name :: string where "flow_version_name = ''flow_version''"

definition flow_version_on_bind :: data_type where "flow_version_on_bind = DtUtf8"

definition header_name :: string where "header_name = ''header''"

definition header_on_bind :: data_type where "header_on_bind = DtStruct header_struct_fields"

definition well_formed_name :: string where "well_formed_name = ''well_formed''"

definition well_formed_on_bind :: data_type where "well_formed_on_bind = DtStruct well_formed_struct_fields"

definition templates_name :: string where "templates_name = ''templates''"

definition templates_on_bind :: "arrow_field list" where "templates_on_bind = output_schema"

text \<open>The implementations of the two traits, by function.\<close>

fun scalar_name :: "scalar_function \<Rightarrow> string" where
  "scalar_name FlowVersion = flow_version_name"
| "scalar_name Header = header_name"
| "scalar_name WellFormed = well_formed_name"

fun scalar_on_bind :: "scalar_function \<Rightarrow> data_type" where
  "scalar_on_bind FlowVersion = flow_version_on_bind"
| "scalar_on_bind Header = header_on_bind"
| "scalar_on_bind WellFormed = well_formed_on_bind"

fun scalar_process ::
  "scalar_function \<Rightarrow> (data_type \<Rightarrow> string) \<Rightarrow> (arrow_field list \<Rightarrow> arrow_array list \<Rightarrow> string option) \<Rightarrow>
   arrow_field list \<Rightarrow> record_batch \<Rightarrow> string + record_batch" where
  "scalar_process FlowVersion = flow_version_process"
| "scalar_process Header = header_process"
| "scalar_process WellFormed = well_formed_process"

fun scalar_result :: "scalar_function \<Rightarrow> bytes \<Rightarrow> cell" where
  "scalar_result FlowVersion = version_result"
| "scalar_result Header = header_result"
| "scalar_result WellFormed = well_formed_result_cell"

fun table_name :: "table_function \<Rightarrow> string" where
  "table_name Templates = templates_name"

text \<open>There is one batch, so no cursor to resume; the decode functions want a final call.\<close>

definition resume_supported :: bool where "resume_supported \<longleftrightarrow> False"

definition has_finish :: bool where "has_finish \<longleftrightarrow> True"

text \<open>
  The wall clock: the microseconds since the epoch, or nothing for a clock set before it.  The cast
  from \<open>u128\<close> keeps the low 64 bits.
\<close>

definition now_micros :: "nat option \<Rightarrow> i64" where
  "now_micros clock = unwrap_or (map_option of_nat clock) 0"

lemma now_micros_exact: "us < 2 ^ 63 \<Longrightarrow> sint (now_micros (Some us)) = int us"
  using sint_word_of_int_fits [of "int us"] by (simp add: now_micros_def i64_fits_def)

text \<open>
  A scalar function, called with the result column it was bound with, succeeds on every column of
  datagrams (of fewer than \<open>2 ^ 25\<close> rows) and answers row by row.
\<close>

lemma scalar_bound:
  assumes "try_new_laws try_new" and "datagrams debug batch vs" and "length vs < 2 ^ 25"
  shows "\<exists>b. scalar_process f debug try_new [Field n (scalar_on_bind f) True m] batch = Inr b \<and>
    batch_rows b = map (\<lambda>v. [opt_cell (scalar_result f) v]) vs"
  using version_fn.rowwise [OF assms] header_fn.rowwise [OF assms] well_formed_fn.rowwise [OF assms]
  by (cases f) (simp_all add: scalar_calls flow_version_on_bind_def header_on_bind_def well_formed_on_bind_def)

text \<open>No two functions of the catalog share a name.\<close>

definition function_names :: "string list" where
  "function_names = map scalar_name register_scalars @ map table_name register_tables @
     map fd_name register_table_in_out"

lemma function_names_distinct: "distinct function_names"
  by (simp add: function_names_def register_scalars_def register_tables_def register_table_in_out_def
      fd_flows_def fd_new_def flow_version_name_def header_name_def well_formed_name_def templates_name_def)

section \<open>The fixture files\<close>

definition fixture_files :: "(string \<times> bytes) list" where
  "fixture_files =
     [(''v5.dat'', netflow_v5), (''v9.dat'', netflow_v9_combined), (''v9_1template.dat'', netflow_v9_template),
      (''v9_2data.dat'', netflow_v9_data), (''ipfix.dat'', ipfix_basic),
      (''ipfix_var.dat'', ipfix_variable_enterprise), (''ipfix_options.dat'', ipfix_options),
      (''sflow.dat'', sflow_basic)]"

lemmas verdict_eval = well_formed_def probe_version_eq be_nat_def validate_sets.simps well_formed_ok_def Let_def
  from_be_def

lemmas fixture_eval = writer_defs to_be_eval verdict_eval validate_v9_def validate_ipfix_def slice_def

lemma v5_well_formed: "wf_ok (well_formed netflow_v5)"
proof -
  have "probe_version netflow_v5 = Some ''5''" unfolding netflow_v5_split(1) by (rule probe_v5_header)
  moreover have "parse_header netflow_v5 = Some v5_hdr"
    unfolding netflow_v5_split(1) parse_v5_header by (simp add: v5_hdr_def i64_div_def)
  moreover have "length netflow_v5 = 120" by (simp add: netflow_v5_bytes)
  ultimately show ?thesis by (simp add: well_formed_def validate_v5_def v5_hdr_def well_formed_ok_def)
qed

lemma templates_well_formed:
  "wf_ok (well_formed netflow_v9_combined)" "wf_ok (well_formed netflow_v9_template)"
  "wf_ok (well_formed netflow_v9_data)" "wf_ok (well_formed ipfix_basic)"
  "wf_ok (well_formed ipfix_variable_enterprise)" "wf_ok (well_formed ipfix_options)"
  unfolding netflow_v9_combined_bytes ipfix_basic_bytes netflow_v9_template_def netflow_v9_data_def
    ipfix_variable_enterprise_def ipfix_options_def
  by (simp_all add: fixture_eval)

lemma sflow_well_formed: "wf_ok (well_formed sflow_basic)"
proof -
  have "probe_version sflow_basic = Some ''sflow5''" unfolding sflow_basic_bytes by (simp add: probe_version_eq be_nat_def Let_def)
  moreover have "wf_ok (validate_sflow sflow_basic)"
    unfolding validate_sflow_eq sflow_basic_bytes
    by (simp add: parse_sflow_def read_eval cur_skip_def well_formed_ok_def)
  ultimately show ?thesis by (simp add: well_formed_def)
qed

text \<open>Every generated file is well formed.\<close>

lemma fixture_files_well_formed: "list_all (\<lambda>(_, data). wf_ok (well_formed data)) fixture_files"
  by (simp add: fixture_files_def v5_well_formed templates_well_formed sflow_well_formed)

end
