(* ===== verification/Golden_Formats.thy ===== *)
theory Golden_Formats
  imports Golden_Scan Bindings
begin

text \<open>
  The integration tests of \<open>tests/decode.rs\<close> on IPFIX, sFlow, the restriction to one format and
  \<open>well_formed\<close>: the rows of the fixtures, evaluated in the kernel.
\<close>

section \<open>The tests\<close>

abbreviation test_clock :: i64 where "test_clock \<equiv> 1700000000000000"

definition flows_only_fixture :: "bytes \<Rightarrow> string \<Rightarrow> flow_record list" where
  "flows_only_fixture data exporter =
     fst (decode_datagram data
       (default_options\<lparr>do_exporter := exporter, do_now_micros := test_clock, do_mode := FlowsOnly\<rparr>) cache_new AnyFormat)"

definition ipfix_basic_decodes_with_absolute_timestamps :: bool where
  "ipfix_basic_decodes_with_absolute_timestamps \<longleftrightarrow>
     (let (rows, _) = decode_fixture ipfix_basic cache_new ''r1'';
          flows = filter is_flow rows;
          f = flows ! 0
      in length flows = 1 \<and>
         fr_flow_version f = ''10'' \<and>
         map_option to_ip_string (fr_src_addr f) = Some ''203.0.113.5'' \<and>
         map_option to_ip_string (fr_dst_addr f) = Some ''198.51.100.9'' \<and>
         fr_dst_port f = Some 443 \<and> fr_bytes f = Some 1500000 \<and> fr_packets f = Some 1200 \<and>
         fr_flow_start f = Some (1700000000000 * 1000) \<and> fr_flow_end f = Some (1700000010000 * 1000))"

definition ipfix_variable_length_and_enterprise_ies :: bool where
  "ipfix_variable_length_and_enterprise_ies \<longleftrightarrow>
     (let (rows, _) = decode_fixture ipfix_variable_enterprise cache_new ''r1'' in
      case List.find is_flow rows of
        None \<Rightarrow> False
      | Some f \<Rightarrow>
          map_option to_ip_string (fr_src_addr f) = Some ''10.9.9.1'' \<and>
          map_option snd (List.find (\<lambda>(k, _). k = ''interfaceName'') (fr_raw_fields f)) =
            Some [101, 116, 104, 48] \<and>
          list_ex (\<lambda>(k, _). k = ''vmware.tenantProtocol'') (fr_raw_fields f))"

definition ipfix_options_record_carries_sampling :: bool where
  "ipfix_options_record_carries_sampling \<longleftrightarrow>
     (let (rows, _) = decode_fixture ipfix_options cache_new ''r1'';
          rows2 = flows_only_fixture ipfix_options ''r1''
      in (case List.find (\<lambda>r. fr_sampling_rate r \<noteq> None) rows of
            None \<Rightarrow> False
          | Some opt \<Rightarrow> fr_sampling_rate opt = Some 1000 \<and> fr_template_id opt = Some IPFIX_OPTIONS_TEMPLATE_ID) \<and>
         list_all (\<lambda>r. fr_sampling_rate r = None) rows2)"

definition sflow_flow_and_counter_samples :: bool where
  "sflow_flow_and_counter_samples \<longleftrightarrow>
     (let (rows, _) = decode_fixture sflow_basic cache_new ''r1'';
          fo = flows_only_fixture sflow_basic ''r1''
      in (case List.find is_flow rows of
            None \<Rightarrow> False
          | Some flow \<Rightarrow>
              fr_flow_version flow = ''sflow5'' \<and>
              map_option to_ip_string (fr_src_addr flow) = Some ''192.0.2.10'' \<and>
              fr_dst_port flow = Some 80 \<and> fr_protocol flow = Some 6 \<and>
              fr_sampling_rate flow = Some 4096 \<and> fr_bytes flow = Some (64 * 4096) \<and>
              list_ex (\<lambda>(k, _). k = ''sflow.frame_length'') (fr_raw_fields flow)) \<and>
         list_ex (\<lambda>r. fr_diagnostics r = Some ''counter-sample'') rows \<and>
         list_all (\<lambda>r. fr_diagnostics r \<noteq> Some ''counter-sample'') fo)"

definition restrict_rejects_wrong_format_via_diagnostic :: bool where
  "restrict_rejects_wrong_format_via_diagnostic \<longleftrightarrow>
     (let rows = fst (decode_datagram netflow_v5
            (default_options\<lparr>do_exporter := ''r1'', do_now_micros := test_clock\<rparr>) cache_new IpfixOnly)
      in list_all (\<lambda>r. fr_diagnostics r \<noteq> None) rows \<and>
         (case rows of
            [] \<Rightarrow> False
          | r # _ \<Rightarrow> (case fr_diagnostics r of None \<Rightarrow> False | Some d \<Rightarrow> starts_with ''decode-error:'' d)))"

definition well_formed_classifies_inputs :: bool where
  "well_formed_classifies_inputs \<longleftrightarrow>
     wf_ok (well_formed netflow_v5) \<and> wf_ok (well_formed ipfix_basic) \<and> wf_ok (well_formed sflow_basic) \<and>
     (let g = well_formed [0xde, 0xad, 0xbe, 0xef] in \<not> wf_ok g \<and> wf_kind g = Some ''not-a-flow-datagram'')"

section \<open>IPFIX\<close>

text \<open>An IPFIX message of one template and one Data Set of it.\<close>

abbreviation fixture_hdr :: export_header where
  "fixture_hdr \<equiv> ipfix_hdr EXPORT_UNIX_SECS 7 IPFIX_OBS_DOMAIN"

definition template_set :: "bool \<Rightarrow> u16 \<times> u16 \<times> (u32 \<times> u16 \<times> u16) list \<Rightarrow> flow_set" where
  "template_set options t = \<lparr>set_id = (if options then 3 else 2), set_body = put_ipfix_template options t\<rparr>"

lemma ipfix_message_rows:
  assumes t: "ipfix_template_ok options t"
    and fits: "set_fits (template_set options t)" "set_fits s"
    and ids: "set_id s = fst t" "\<not> set_id s < 256"
  shows "fst (decode_datagram (ipfix_datagram l EXPORT_UNIX_SECS 7 IPFIX_OBS_DOMAIN [template_set options t, s])
      (call_options ex test_clock fo) cache_new AnyFormat) =
    decode_data_set (snd (ipfix_template_def test_clock options t)) (set_body s)
      (set_ctx ''10'' None ex IPFIX_OBS_DOMAIN fixture_hdr s) fo"
proof -
  let ?d = "ipfix_template_def test_clock options t"
  have fst: "fst ?d = set_id s" using ids by (simp add: ipfix_template_def_def case_prod_beta)
  have "ipfix_set_defs test_clock (template_set options t) = [?d]"
    using ipfix_template_defs_puts [of options "[t]" "cursor_new (put_ipfix_template options t)" 0 test_clock] t
    by (cases options) (simp_all add: ipfix_set_defs_def template_set_def)
  then have defs: "concat (map (ipfix_set_defs test_clock) [template_set options t, s]) = [?d]"
    using ipfix_no_defs [of "[s]"] ids by simp
  have skip: "ipfix_data_pass ex dm hdr now fo [template_set options t, s] c =
      ipfix_data_pass ex dm hdr now fo [s] c" for ex dm hdr now fo c
    by (rule ipfix_pass.pass_skip) (simp add: template_set_def)
  have room: "length (tc_entries cache_new) + length [?d] \<le> unat (tc_cap_entries cache_new)"
    by (simp add: cache_new_def DEFAULT_CAP_ENTRIES_def)
  have data: "\<forall>s' \<in> set [s]. \<not> set_id s' < 256 \<and> length (set_body s') < 2 ^ 32"
    using ids fits by (simp add: set_fits_def)
  have known: "\<forall>s' \<in> set [s]. set_id s' \<in> fst ` set [?d]" using fst by simp
  have "map_of (rev [?d]) (set_id s) = Some (snd ?d)" using fst by (cases ?d) simp
  with ipfix_pass.pass_defined [OF cache_ok_new room data known empty_new,
      of ex IPFIX_OBS_DOMAIN fixture_hdr test_clock fo]
  have rows: "fst (ipfix_data_pass ex IPFIX_OBS_DOMAIN fixture_hdr test_clock fo [s]
        (learn_all ex IPFIX_OBS_DOMAIN [?d] cache_new)) =
      decode_data_set (snd ?d) (set_body s) (set_ctx ''10'' None ex IPFIX_OBS_DOMAIN fixture_hdr s) fo"
    and "pending_is_empty (snd (ipfix_data_pass ex IPFIX_OBS_DOMAIN fixture_hdr test_clock fo [s]
        (learn_all ex IPFIX_OBS_DOMAIN [?d] cache_new)))"
    by (simp_all add: defined_rows_def del: ipfix_data_pass.simps learn_all_simps)
  with fits show ?thesis
    by (simp add: decode_ipfix_written defs learn_pass_retry_def skip case_prod_beta
        del: ipfix_data_pass.simps learn_all_simps concat.simps list.map)
qed

lemma decode_fixture_call: "decode_fixture data c ex = decode_datagram data (call_options ex test_clock False) c AnyFormat"
  by (simp add: decode_fixture_def call_options_def default_options_def)

lemma flows_only_call:
  "flows_only_fixture data ex = fst (decode_datagram data (call_options ex test_clock True) cache_new AnyFormat)"
  by (simp add: flows_only_fixture_def call_options_def default_options_def)

text \<open>The same when the Data Set is one record.\<close>

abbreviation template_specs :: "u16 \<times> u16 \<times> (u32 \<times> u16 \<times> u16) list \<Rightarrow> field_spec list" where
  "template_specs t \<equiv> map (\<lambda>(pen, ident, len). mk_field_spec pen ident len) (snd (snd t))"

abbreviation template_of :: "bool \<Rightarrow> u16 \<times> u16 \<times> (u32 \<times> u16 \<times> u16) list \<Rightarrow> template_entry" where
  "template_of options t \<equiv> snd (ipfix_template_def test_clock options t)"

abbreviation record_set :: "u16 \<Rightarrow> bytes \<Rightarrow> flow_set" where
  "record_set ident bs \<equiv> \<lparr>set_id = ident, set_body = bs\<rparr>"

abbreviation record_ctx :: "u16 \<Rightarrow> bytes \<Rightarrow> ctx" where
  "record_ctx ident bs \<equiv> set_ctx ''10'' None ''r1'' IPFIX_OBS_DOMAIN fixture_hdr (record_set ident bs)"

lemma template_of_fields: "te_fields (template_of options t) = template_specs t"
  "te_kind (template_of options t) = (if options then TkOptions else TkData)"
  by (simp_all add: ipfix_template_def_def ipfix_entry_def v9_entry_def case_prod_beta)

lemma ipfix_message_row:
  assumes t: "ipfix_template_ok options t" and fits: "set_fits (template_set options t)" "length bs < 65532"
    and ids: "ident = fst t" "\<not> ident < 256"
    and vs: "list_all2 field_fits (template_specs t) vs" "put_record (template_specs t) vs = bs" "bs \<noteq> []"
  shows "fst (decode_datagram (ipfix_datagram l EXPORT_UNIX_SECS 7 IPFIX_OBS_DOMAIN [template_set options t, record_set ident bs])
      (call_options ''r1'' test_clock fo) cache_new AnyFormat) =
    (if fo \<and> options then [] else [row_of (template_of options t) (record_ctx ident bs) vs])"
proof -
  have "record_loop (template_of options t) cx (cursor_new bs) = [row_of (template_of options t) cx vs]" for cx
    using record_loop_put [of "[vs]" "template_of options t" "[]" "cursor_new bs" cx] vs
    by (simp add: template_of_fields)
  with ipfix_message_rows [OF t fits(1), of "record_set ident bs"] fits(2) ids show ?thesis
    by (simp add: set_fits_def decode_data_set_def template_of_fields)
qed

lemmas message_eval = ipfix_datagram_def ipfix_header_def put_set_def template_set_def put_ipfix_template_def
  put_ipfix_field_def to_be_eval EXPORT_UNIX_SECS_def IPFIX_OBS_DOMAIN_def

lemmas fits_eval = ipfix_template_ok_def ipfix_field_ok_def set_fits_def template_set_def put_ipfix_template_def
  put_ipfix_field_def field_fits_def is_variable_def put_record_def put_field_def varlen_prefix_def

lemmas specs_eval = mk_field_spec_def resolve_def iana_lookup_def enterprise_lookup_def REGISTRY_def registry_parts
  PEN_VMWARE_def PEN_NOKIA_def VMWARE_def

lemmas row_eval = initial_state_def map_field_def Let_def be_uint_def from_be_def be_nat_def resolve_times_def
  base_record_def default_record_def opt_or_None

text \<open>The three fixtures.\<close>

definition basic_template :: "u16 \<times> u16 \<times> (u32 \<times> u16 \<times> u16) list" where
  "basic_template = (256, 0, [(0, 8, 4), (0, 12, 4), (0, 7, 2), (0, 11, 2), (0, 4, 1), (0, 1, 8), (0, 2, 8),
     (0, 152, 8), (0, 153, 8)])"

definition basic_values :: "bytes list" where
  "basic_values = [[203, 0, 113, 5], [198, 51, 100, 9], [128, 232], [1, 187], [6], [0, 0, 0, 0, 0, 22, 227, 96],
     [0, 0, 0, 0, 0, 0, 4, 176], [0, 0, 1, 139, 207, 229, 104, 0], [0, 0, 1, 139, 207, 229, 143, 16]]"

definition variable_template :: "u16 \<times> u16 \<times> (u32 \<times> u16 \<times> u16) list" where
  "variable_template = (257, 0, [(0, 8, 4), (0, 12, 4), (0, 82, 0xFFFF), (6876, 880, 1)])"

definition variable_values :: "bytes list" where
  "variable_values = [[10, 9, 9, 1], [10, 9, 9, 2], [101, 116, 104, 48], [7]]"

definition options_template :: "u16 \<times> u16 \<times> (u32 \<times> u16 \<times> u16) list" where
  "options_template = (258, 1, [(0, 144, 4), (0, 34, 4)])"

definition options_values :: "bytes list" where
  "options_values = [[0, 0, 3, 233], [0, 0, 3, 232]]"

lemma ipfix_messages:
  "ipfix_basic = ipfix_datagram 109 EXPORT_UNIX_SECS 7 IPFIX_OBS_DOMAIN
     [template_set False basic_template, record_set 256 (concat basic_values)]"
  "ipfix_variable_enterprise = ipfix_datagram 62 EXPORT_UNIX_SECS 7 IPFIX_OBS_DOMAIN
     [template_set False variable_template, record_set 257 [10, 9, 9, 1, 10, 9, 9, 2, 4, 101, 116, 104, 48, 7]]"
  "ipfix_options = ipfix_datagram 46 EXPORT_UNIX_SECS 7 IPFIX_OBS_DOMAIN
     [template_set True options_template, record_set 258 (concat options_values)]"
  unfolding ipfix_basic_bytes ipfix_variable_enterprise_def ipfix_options_def
  by (simp_all add: message_eval writer_defs basic_template_def basic_values_def variable_template_def
      options_template_def options_values_def)

abbreviation plain_specs :: "(u16 \<times> u16 \<times> string \<times> string) list \<Rightarrow> field_spec list" where
  "plain_specs \<equiv> map (\<lambda>(ident, len, name, ty).
     \<lparr>fs_ie_id = ident, fs_enterprise_number = 0, fs_length = len, fs_name = name, fs_ie_type = ty\<rparr>)"

lemma template_specs_eval:
  "template_specs basic_template = plain_specs
       [(8, 4, ''sourceIPv4Address'', ''ipv4Address''), (12, 4, ''destinationIPv4Address'', ''ipv4Address''),
        (7, 2, ''sourceTransportPort'', ''unsigned16''), (11, 2, ''destinationTransportPort'', ''unsigned16''),
        (4, 1, ''protocolIdentifier'', ''unsigned8''), (1, 8, ''octetDeltaCount'', ''unsigned64''),
        (2, 8, ''packetDeltaCount'', ''unsigned64''), (152, 8, ''flowStartMilliseconds'', ''dateTimeMilliseconds''),
        (153, 8, ''flowEndMilliseconds'', ''dateTimeMilliseconds'')]"
  "template_specs variable_template = plain_specs
       [(8, 4, ''sourceIPv4Address'', ''ipv4Address''), (12, 4, ''destinationIPv4Address'', ''ipv4Address''),
        (82, 0xFFFF, ''interfaceName'', ''string'')] @
     [\<lparr>fs_ie_id = 880, fs_enterprise_number = 6876, fs_length = 1, fs_name = ''vmware.tenantProtocol'',
        fs_ie_type = ''unsigned8''\<rparr>]"
  "template_specs options_template = plain_specs
       [(144, 4, ''exportingProcessId'', ''unsigned32''), (34, 4, ''samplingInterval'', ''unsigned32'')]"
  by (simp_all add: basic_template_def variable_template_def options_template_def specs_eval)

lemma fixture_templates:
  "ipfix_template_ok False basic_template" "set_fits (template_set False basic_template)"
  "ipfix_template_ok False variable_template" "set_fits (template_set False variable_template)"
  "ipfix_template_ok True options_template" "set_fits (template_set True options_template)"
  by (simp_all add: fits_eval basic_template_def variable_template_def options_template_def)

lemma fixture_values:
  "list_all2 field_fits (template_specs basic_template) basic_values"
  "put_record (template_specs basic_template) basic_values = concat basic_values"
  "list_all2 field_fits (template_specs variable_template) variable_values"
  "put_record (template_specs variable_template) variable_values = [10, 9, 9, 1, 10, 9, 9, 2, 4, 101, 116, 104, 48, 7]"
  "list_all2 field_fits (template_specs options_template) options_values"
  "put_record (template_specs options_template) options_values = concat options_values"
  unfolding template_specs_eval
  by (simp_all add: fits_eval basic_values_def variable_values_def options_values_def)

lemma fixture_sets:
  "length (concat basic_values) < 65532" "256 = fst basic_template" "\<not> (256 :: u16) < 256" "concat basic_values \<noteq> []"
  "length ([10, 9, 9, 1, 10, 9, 9, 2, 4, 101, 116, 104, 48, 7] :: bytes) < 65532" "257 = fst variable_template"
  "\<not> (257 :: u16) < 256" "([10, 9, 9, 1, 10, 9, 9, 2, 4, 101, 116, 104, 48, 7] :: bytes) \<noteq> []"
  "length (concat options_values) < 65532" "258 = fst options_template" "\<not> (258 :: u16) < 256"
  "concat options_values \<noteq> []"
  by (simp_all add: basic_template_def basic_values_def variable_template_def options_template_def options_values_def)

lemmas fixture_messages =
  ipfix_message_row [OF fixture_templates(1,2) fixture_sets(1,2,3) fixture_values(1,2) fixture_sets(4)]
  ipfix_message_row [OF fixture_templates(3,4) fixture_sets(5,6,7) fixture_values(3,4) fixture_sets(8)]
  ipfix_message_row [OF fixture_templates(5,6) fixture_sets(9,10,11) fixture_values(5,6) fixture_sets(12)]

lemma fixture_rows:
  "fst (decode_fixture ipfix_basic cache_new ''r1'') =
     [row_of (template_of False basic_template) (record_ctx 256 (concat basic_values)) basic_values]"
  "fst (decode_fixture ipfix_variable_enterprise cache_new ''r1'') =
     [row_of (template_of False variable_template)
        (record_ctx 257 [10, 9, 9, 1, 10, 9, 9, 2, 4, 101, 116, 104, 48, 7]) variable_values]"
  "fst (decode_fixture ipfix_options cache_new ''r1'') =
     [row_of (template_of True options_template) (record_ctx 258 (concat options_values)) options_values]"
  "flows_only_fixture ipfix_options ''r1'' = []"
  unfolding ipfix_messages decode_fixture_call flows_only_call
  by (simp_all only: fixture_messages simp_thms if_True if_False)

lemma fixture_fields:
  "row_of (template_of False basic_template) cx basic_values =
     (base_record cx)\<lparr>fr_src_addr := inet4 [203, 0, 113, 5], fr_dst_addr := inet4 [198, 51, 100, 9],
       fr_src_port := Some 33000, fr_dst_port := Some 443, fr_protocol := Some 6, fr_bytes := Some 1500000,
       fr_packets := Some 1200, fr_flow_start := Some (1700000000000 * 1000),
       fr_flow_end := Some (1700000010000 * 1000)\<rparr>"
  "row_of (template_of False variable_template) cx variable_values =
     (base_record cx)\<lparr>fr_src_addr := inet4 [10, 9, 9, 1], fr_dst_addr := inet4 [10, 9, 9, 2],
       fr_raw_fields := [(''interfaceName'', [101, 116, 104, 48]), (''vmware.tenantProtocol'', [7])]\<rparr>"
  "row_of (template_of True options_template) cx options_values =
     (base_record cx)\<lparr>fr_sampling_rate := Some 1000,
       fr_raw_fields := [(''exportingProcessId'', [0, 0, 3, 233])]\<rparr>"
  unfolding row_of_def template_of_fields template_specs_eval
  by (simp_all add: row_eval basic_values_def variable_values_def options_values_def put_raw_def split: option.splits)

lemma shown_addresses:
  "ipv4_display [203, 0, 113, 5] = ''203.0.113.5''" "ipv4_display [198, 51, 100, 9] = ''198.51.100.9''"
  "ipv4_display [10, 9, 9, 1] = ''10.9.9.1''" "ipv4_display [192, 0, 2, 10] = ''192.0.2.10''"
  by (simp_all add: ipv4_display_def dec_of_word_def dec_of_nat.simps char_of_def bit_0)

lemma inet4_shown:
  assumes "length bs = 4" and "bs \<noteq> [0, 0, 0, 0]"
  shows "inet4 bs \<noteq> None" and "map_option to_ip_string (inet4 bs) = Some (ipv4_display bs)"
proof -
  have "inet4 bs = Some (encode_ip (IpV4 bs))" using assms by (simp add: inet4_Some_iff)
  then show "inet4 bs \<noteq> None" "map_option to_ip_string (inet4 bs) = Some (ipv4_display bs)"
    using assms by (simp_all add: to_ip_string_encode4 del: encode_ip.simps)
qed

lemma ipfix_tests: "ipfix_basic_decodes_with_absolute_timestamps" "ipfix_variable_length_and_enterprise_ies"
  "ipfix_options_record_carries_sampling"
  unfolding ipfix_basic_decodes_with_absolute_timestamps_def ipfix_variable_length_and_enterprise_ies_def
    ipfix_options_record_carries_sampling_def case_prod_beta Let_def fixture_rows fixture_fields
  by (simp_all add: is_flow_def inet4_shown shown_addresses base_record_def set_ctx_def IPFIX_OPTIONS_TEMPLATE_ID_def)

section \<open>sFlow, restriction, validation\<close>

definition flow_sample_body :: bytes where
  "flow_sample_body = [0, 0, 0, 100, 0, 0, 0, 0, 0, 0, 16, 0, 0, 0, 0, 0, 0, 0, 0, 0, 0, 0, 0, 5, 0, 0, 0, 6, 0, 0, 0, 1,
     0, 0, 0, 3, 0, 0, 0, 32, 0, 0, 0, 64, 0, 0, 0, 6, 192, 0, 2, 10, 192, 0, 2, 20, 0, 0, 199, 56, 0, 0, 0, 80,
     0, 0, 0, 24, 0, 0, 0, 0]"

definition flow_sample_row :: "string \<Rightarrow> flow_record" where
  "flow_sample_row ex = default_record\<lparr>fr_exporter := ex, fr_flow_version := ''sflow5'', fr_obs_domain := 0,
     fr_sequence := Some 1, fr_sampling_rate := Some 4096, fr_input_snmp := Some 5, fr_output_snmp := Some 6,
     fr_src_addr := inet4 [192, 0, 2, 10], fr_dst_addr := inet4 [192, 0, 2, 20], fr_protocol := Some 6,
     fr_src_port := Some 51000, fr_dst_port := Some 80, fr_tcp_flags := Some 24, fr_tos := Some 0,
     fr_bytes := Some (64 * 4096), fr_packets := Some 4096,
     fr_raw_fields := [(''sflow.frame_length'', [0, 0, 0, 64]), (''sflow.sampling_rate'', [0, 0, 16, 0])]\<rparr>"

lemma flow_sample_decoded: "decode_flow_sample flow_sample_body ex 0 1 False = [flow_sample_row ex]"
  by (simp add: decode_flow_sample_def flow_sample_body_def read_eval parse_sampled_ipv4_def
      scale_counts_def saturating_mul_def put_raw_def to_be_eval flow_sample_row_def default_record_def)

lemma sflow_parts:
  "length sflow_basic = 224" "take 72 (drop 36 sflow_basic) = flow_sample_body"
  "take 4 (drop 28 sflow_basic) = [0, 0, 0, 1]" "take 4 (drop 32 sflow_basic) = [0, 0, 0, 72]"
  "take 4 (drop 108 sflow_basic) = [0, 0, 0, 2]" "take 4 (drop 112 sflow_basic) = [0, 0, 0, 108]"
  "sflow_agent sflow_basic = Some (norm_ipv4 [10, 0, 0, 9], 12)"
  "u32_at sflow_basic 24 = 2" "u32_at sflow_basic 12 = 0" "u32_at sflow_basic 16 = 1"
  by (simp_all add: sflow_basic_bytes flow_sample_body_def sflow_agent_def u32_at_def from_be_def be_nat_def)

lemma sflow_rows:
  "sflow_decode sflow_basic ''r1'' fo =
     flow_sample_row ''r1'' # Sflow.sample_rows ''r1'' 0 1 fo (2, take 108 (drop 116 sflow_basic))"
proof -
  have vals: "from_be [0, 0, 0, 1] = (1::u32)" "from_be [0, 0, 0, 72] = (72::u32)"
     "from_be [0, 0, 0, 2] = (2::u32)" "from_be [0, 0, 0, 108] = (108::u32)"
    by (simp_all add: from_be_def be_nat_def)
  have first: "Sflow.sample_rows ''r1'' 0 1 fo (1, flow_sample_body) = [flow_sample_row ''r1'']"
    by (simp add: Sflow.sample_rows_def flow_sample_decoded)
  have "samples_loop 2 (cur_advance 28 (cursor_new sflow_basic)) ''r1'' 0 1 fo =
      [flow_sample_row ''r1''] @ Sflow.sample_rows ''r1'' 0 1 fo (2, take 108 (drop 116 sflow_basic))"
    unfolding numeral_2_eq_2
    by (simp add: samples_loop_Suc sflow_parts vals first del: samples_loop.simps(2))
  then show ?thesis
    unfolding sflow_decode_eq sflow_parts(7) by (simp add: sflow_parts(8-10) del: samples_loop.simps)
qed

lemma sflow_call: "fst (decode_datagram sflow_basic (call_options ex now fo) c AnyFormat) = sflow_decode sflow_basic ex fo"
proof -
  have "probe_version sflow_basic = Some ''sflow5''" unfolding sflow_basic_bytes
    by (simp add: probe_version_eq be_nat_def Let_def)
  then show ?thesis by (simp add: decode_datagram_eq datagram_out_def call_options_def call_mode)
qed

lemma sflow_test: "sflow_flow_and_counter_samples"
  unfolding sflow_flow_and_counter_samples_def case_prod_beta Let_def decode_fixture_call flows_only_call sflow_call sflow_rows
  by (simp add: is_flow_def inet4_shown shown_addresses flow_sample_row_def default_record_def Sflow.sample_rows_def
      decode_counter_sample_diag)

lemma restrict_test: "restrict_rejects_wrong_format_via_diagnostic"
proof -
  have "probe_version netflow_v5 = Some ''5''" unfolding netflow_v5_split(1) by (rule probe_v5_header)
  then show ?thesis
    unfolding restrict_rejects_wrong_format_via_diagnostic_def
    by (simp add: decode_datagram_eq datagram_out_def diagnostic_def default_record_def starts_with_def)
qed

lemma well_formed_test: "well_formed_classifies_inputs"
  using wf_tests(1) v5_well_formed templates_well_formed(4) sflow_well_formed
  by (simp add: well_formed_classifies_inputs_def garbage_is_not_a_flow_datagram_def)

end
