(* ===== verification/Spec2Isabelle.thy ===== *)
theory Spec2Isabelle
  imports Scan_Order Scan_Spec Output_Bound Golden_Formats Golden_Scan Bindings Catalog Golden
    Unit_Tests Concurrency Interleaving Pipeline Function_Metadata Result_Columns Templates Scalars
    Scan Reorder Meta Fixtures Wellformed Diagnostics Provenance Typed_Rows Decode Sflow Ipfix V9
    V5 Data_Set Header Registry
begin

text \<open>
  Verification of vgi-netflow: decoders for captured flow-export datagrams (NetFlow v5 and v9,
  IPFIX, sFlow v5) that turn a column of datagrams into normalized flow rows, with a template
  cache carried as scan state, and the DuckDB worker around them.

  \<^bold>\<open>The program.\<close>  \<open>crates/netflow-core\<close> is the decoder library, without any I/O.  A datagram is
  probed (\<open>decode/header.rs\<close>) and dispatched (\<open>decode/mod.rs\<close>) to the decoder of its format
  (\<open>decode/v5.rs\<close>, \<open>v9.rs\<close>, \<open>ipfix.rs\<close>, \<open>sflow.rs\<close>).  v9 and IPFIX first learn the templates of the
  datagram into the cache (\<open>cache.rs\<close>), then decode its Data Sets (\<open>decode/record.rs\<close>) by the
  cached layouts; a Data Set whose template is unknown is buffered in the cache, and decoded
  when a later datagram brings the template, or reported when the scan ends.  Fields are resolved
  in the element registry (\<open>registry/\<close>) and mapped to the columns of a \<open>FlowRecord\<close>
  (\<open>normalize.rs\<close>, \<open>inet.rs\<close>).  \<open>crates/netflow-worker\<close> is the worker: it reads the input relation,
  loads the cache from the framework's storage, decodes, stores the cache and mirrors its
  templates into a global projection (\<open>state.rs\<close>, \<open>table_in_out/\<close>), and hands the rows out as Arrow
  batches (\<open>arrow_map.rs\<close>); \<open>templates()\<close> lists the projection (\<open>table/templates.rs\<close>), and three
  scalar functions probe single datagrams (\<open>scalar/\<close>).  \<open>lib.rs\<close> registers them and describes them in
  the catalog.

  \<^bold>\<open>Theories and code.\<close>
  \<^item> \<open>Prelude\<close>: machine types, big-endian conversions, decimal and hexadecimal text, the
    \<open>named_theorems\<close> collections.  \<open>Buf\<close>: \<open>Cursor\<close> of \<open>buf.rs\<close>, threaded as a value, an underrun being
    \<open>None\<close>; its locales \<open>fixed_read\<close> and \<open>fixed_codec\<close> carry the facts of the four readers.
  \<^item> \<open>Ordered_Map\<close>: the part of \<open>BTreeMap\<close> in use, as the locale \<open>ordered_map\<close> with its
    interpretation on sorted association lists.  \<open>Cache\<close>: \<open>cache.rs\<close>, with the invariant \<open>cache_ok\<close>.
  \<^item> \<open>Registry\<close>: the whole IANA table and the vendor tables of \<open>registry/\<close>.
    \<open>Inet\<close>, \<open>Normalize\<close>, \<open>Header\<close>: \<open>inet.rs\<close>, \<open>normalize.rs\<close>, \<open>decode/header.rs\<close>.
  \<^item> \<open>Data_Set\<close>: \<open>decode/record.rs\<close>, from field specifiers to rows.
  \<^item> \<open>Sets\<close>: what v9 and IPFIX have in common, as the locales \<open>set_splitter\<close>, \<open>template_learner\<close> and
    \<open>data_pass\<close>; \<open>V9\<close> and \<open>Ipfix\<close> interpret them on their own functions.  \<open>V5\<close>, \<open>Sflow\<close>: the two
    stateless decoders.
  \<^item> \<open>Decode\<close>: \<open>decode/mod.rs\<close>, and a scan as the step relation \<open>scan_step\<close> with its reachable
    caches.  \<open>Reorder\<close>: two datagrams in either order.
  \<^item> \<open>Row_Laws\<close>: the locale \<open>row_law\<close>, what has to be checked of a predicate for it to hold of every
    row of every datagram, retry and flush.  Its interpretations: \<open>Diagnostics\<close> (the values of the
    \<open>diagnostics\<close> column), \<open>Typed_Rows\<close> (addresses of 16 bytes), \<open>Provenance\<close> (the \<open>flow_version\<close>).
  \<^item> \<open>Wellformed\<close>: \<open>wellformed.rs\<close>.  \<open>Fixtures\<close>: \<open>fixtures.rs\<close>, byte for byte.  \<open>Unit_Tests\<close>, \<open>Golden\<close>,
    \<open>Golden_Scan\<close>, \<open>Golden_Formats\<close>: the unit tests of the modules and the integration tests, as
    propositions about the model.
  \<^item> \<open>Arrow_Layout\<close>: Arrow types, arrays as buffers, the cell an array holds at a row, valid
    arrays, the 32-bit offsets of texts, batches.  \<open>Arrow_Map\<close>: \<open>arrow_map.rs\<close>.
  \<^item> \<open>Input_Relation\<close>, \<open>Flows\<close>: \<open>table_in_out/mod.rs\<close> and \<open>flows.rs\<close>.  \<open>Storage\<close>: \<open>state.rs\<close>, over the
    services of the framework; \<open>Sample_Services\<close> is an instance of these.  \<open>Scan\<close>: all calls of a
    scan.  \<open>Pipeline\<close>: the same with the Arrow batches, from input to output.  \<open>Interleaving\<close>: the
    calls of several executions on one storage; \<open>Concurrency\<close>: the same when the calls overlap, the
    single storage accesses of \<open>state.rs\<close> being the steps.
  \<^item> \<open>Scan_Spec\<close>: the abstract specification of a capture, without a cache, and the ledger of the
    Data Sets in the buffer by which the scan meets it.  \<open>Scan_Order\<close>: a capture in another order.
    \<open>Output_Bound\<close>: the number of rows.
  \<^item> \<open>Templates\<close>: \<open>table/templates.rs\<close>.
    \<open>Scalars\<close>: \<open>scalar/\<close>, with the locale \<open>scalar_function\<close> for what the three functions share.
  \<^item> \<open>Meta\<close>: the JSON encoders and sample datagrams of \<open>meta.rs\<close>, the locale \<open>json_item\<close>.
    \<open>Result_Columns\<close>, \<open>Function_Metadata\<close>: the published columns and catalog entries.  \<open>Catalog\<close>:
    \<open>lib.rs\<close>, over a worker of the SDK.  \<open>Bindings\<close>: names, binding, the clock, the fixture files.

  \<^bold>\<open>State and errors.\<close>  The cache is a record with its two ordered maps, its caps and its byte
  counter; every operation returns the new cache.  Integers keep their width (\<open>u16\<close>, \<open>u32\<close>, \<open>u64\<close>,
  \<open>i64\<close> are words, so arithmetic wraps as in a release build; a debug build panics there instead).
  Strings are lists of 8-bit characters, the UTF-8 bytes.  \<open>Option\<close> and \<open>?\<close> are options in the option
  monad, \<open>Result\<close> is a sum.  A \<open>while\<close> loop is a recursive function whose termination is proved, on
  the bytes left or the count left; no loop of the decoders needs fuel.

  \<^bold>\<open>What is shown.\<close>
  \<^item> \<^emph>\<open>State.\<close>  Every cache a scan reaches satisfies the invariant and never holds a buffered Data
    Set for a template it knows; eviction drops exactly the least recently seen layout; the
    buffer is FIFO and refuses exactly when full; the serialised state restores the cache.
  \<^item> \<^emph>\<open>Nothing is lost.\<close>  Every Data Set is decoded, buffered or reported; a retry decodes all
    buffered sets of a learnt template; the flush reports the rest; template and data
    datagrams in either order give the same rows (v9 and IPFIX, given room in the cache); the batches of a scan are
    invisible, also through the storage, and what the engine receives at the end is exactly the
    rows; exporters do not see each other, nor do executions, even when
    their calls overlap in time; only the shared projection can lose an update then.
  \<^item> \<^emph>\<open>The whole capture.\<close>  What a scan emits is, as a multiset, what every Data Set contributes when it
    is decoded by the layout its capture defines anywhere, before or after it, and a report where it
    defines none; so the order of the datagrams does not matter, up to the cells the worker hands
    out.  This assumes that the caps of the cache suffice, that no layout is redefined
    differently, that no exporter uses a template id of a domain in both protocols, and one
    flows-only mode for all rows; the code loses or relabels rows otherwise, which is why its
    documentation asks for capture order.  The rows of any capture at all are bounded linearly by its bytes.
  \<^item> \<^emph>\<open>Decoding is right.\<close>  Round trips of records, templates, headers, sets and samples against
    writers of the formats; fixed templates give the expected number of rows; padding shorter than
    the fixed-length fields yields nothing, and longer padding of a variable-length template a
    \<open>truncated\<close> row; every element has a column or is kept raw; registry lookups
    against the tables; scaling, times and addresses with their exact ranges.
  \<^item> \<^emph>\<open>Verdicts.\<close>  The probe, the headers, \<open>well_formed\<close> and the diagnostics column are
    characterised exactly; a well-formed datagram is not given up by a decoder that takes its format.
  \<^item> \<^emph>\<open>Output.\<close>  The Arrow batch reads back as the rows; the published columns are the emitted
    ones; \<open>templates()\<close> lists the projection and the projection follows the scans; the scalar
    functions are row-wise; the samples of the catalog are the fixtures (but for one); the view of
    the supported formats agrees with the decoders.

  \<^bold>\<open>Parameters and what is assumed of them.\<close>  The key-value storage (\<open>storage_laws\<close>: a get returns
  the last put of that scope and key), \<open>serde_json\<close> (\<open>codec_laws\<close>: what is encoded decodes to
  itself), \<open>RecordBatch::try_new\<close> (\<open>try_new_laws\<close>: it accepts valid columns of the schema's types and
  one length), the wall clock and the \<open>Debug\<close> text of a type.  The witnesses instantiate them with
  concrete functions.

  \<^bold>\<open>Bounds.\<close>  Payload lengths below \<open>2 ^ 32\<close>, as the cache counts bytes in a \<open>u32\<close> (a datagram has at most
  64 KiB).  Arrow's offsets are \<open>i32\<close>: in one batch, each column of texts or blobs holds fewer than
  \<open>2 ^ 31\<close> bytes and each list or map column fewer than \<open>2 ^ 31\<close> entries (\<open>rows_fit\<close> for the flow rows,
  \<open>listing_fits\<close> for \<open>templates()\<close>; for the scalar functions, whose texts have at most 64 bytes, fewer
  than \<open>2 ^ 25\<close> rows).  A builder whose byte offsets overflow panics, which ends the call: the model
  has it as an error of the operation that builds the column.

  \<^bold>\<open>Not modelled.\<close>  The logging set up by the binary (\<open>main.rs\<close>) and the browser build (an environment
  variable and a macro of the SDK), which have no logic of their own; the two property tests, which
  only look for panics.  The implementation of Arrow, serde, the framework and the SDK's
  worker is third-party.  An access to the storage is one step, and the calls of one execution follow
  each other.  Panics of a debug build on
  overflow are not values of the model; where they can occur it is said so.
\<close>

end
